theory Spec2Isabelle
  imports Main
begin

section \<open>Strings\<close>

text \<open>
  A JavaScript string is modelled as a \<^typ>\<open>string\<close>; a character stands for a code unit
  below 256 (the only character of the source beyond this range, the bullet of the system
  prompt, is written as three such characters and no function inspects it). A string is
  truthy exactly when it is not empty.
\<close>

definition is_space :: "char \<Rightarrow> bool" where
  "is_space c \<longleftrightarrow> of_char c \<in> {9::nat, 10, 11, 12, 13, 32, 160}"

text \<open>\<^verbatim>\<open>String.prototype.trim\<close>: white space is removed at both ends.\<close>

definition trim :: "string \<Rightarrow> string" where
  "trim s = rev (dropWhile is_space (rev (dropWhile is_space s)))"

text \<open>\<^verbatim>\<open>Array.prototype.join\<close> on an array of strings.\<close>

fun join :: "string \<Rightarrow> string list \<Rightarrow> string" where
  "join sep [] = []"
| "join sep [x] = x"
| "join sep (x # y # ys) = x @ sep @ join sep (y # ys)"

text \<open>\<^verbatim>\<open>xs.slice(-n)\<close> and \<open>xs.slice(0, -n)\<close> for a positive \<open>n\<close>.\<close>

definition slice_last :: "nat \<Rightarrow> 'a list \<Rightarrow> 'a list" where
  "slice_last n xs = drop (length xs - n) xs"

definition slice_but_last :: "nat \<Rightarrow> 'a list \<Rightarrow> 'a list" where
  "slice_but_last n xs = take (length xs - n) xs"

section \<open>Data model (types/chat.ts, types/settings.ts)\<close>

datatype msg_type = MUser | MCharacter | MExposition | MNarration | MDirector | MLoading | MSummary

record chatMessage =
  m_id :: string
  m_type :: msg_type
  m_text :: string
  m_sender :: string
  m_charId :: "string option"

record character =
  c_id :: string
  c_name :: string
  c_description :: string
  c_pfp_base64 :: "string option"
  c_groupChatId :: string
  c_notes :: "string list"
  c_quotes :: "string list"
  c_knownCharacterIds :: "string list"

record groupChat =
  g_id :: string
  g_name :: string
  g_description :: string
  g_characterIds :: "string list"
  g_exposition :: "string list option"

datatype aiProvider = OpenAI | Anthropic | Google | Together | OpenRouter | XAI

datatype messageStyle = Descriptive | CasualRoleplay | DialogueOnly

record settingsState =
  shareUserProfile :: bool
  charactersKnowAll :: bool
  messageStyle :: messageStyle
  aiProvider :: aiProvider
  displayName :: string
  bio :: string
  strangerLabel :: string
  apiKey :: string
  model :: string
  summarizationModel :: string
  worldbuilderModel :: string

section \<open>The generation capability (aiService.ts and the external SDK)\<close>

text \<open>
  What a \<^verbatim>\<open>catch\<close> clause receives: an \<^verbatim>\<open>Error\<close> object with its message, or any
  other thrown value.
\<close>

datatype thrown = Error string | OtherThrown

definition errorMessageOf :: "thrown \<Rightarrow> string" where
  "errorMessageOf e = (case e of Error msg \<Rightarrow> msg | OtherThrown \<Rightarrow> ''Unknown error'')"

datatype modelPurpose = PCharacter | PSummarization | PWorldbuilder

definition providerName :: "aiProvider \<Rightarrow> string" where
  "providerName p = (case p of OpenAI \<Rightarrow> ''openai'' | Anthropic \<Rightarrow> ''anthropic''
     | Google \<Rightarrow> ''google'' | Together \<Rightarrow> ''together'' | OpenRouter \<Rightarrow> ''openrouter''
     | XAI \<Rightarrow> ''xai'')"

definition getModelForPurpose :: "settingsState \<Rightarrow> modelPurpose \<Rightarrow> string" where
  "getModelForPurpose settings purpose = (case purpose of
       PSummarization \<Rightarrow>
         (if trim (summarizationModel settings) \<noteq> [] then trim (summarizationModel settings)
          else model settings)
     | PWorldbuilder \<Rightarrow>
         (if trim (worldbuilderModel settings) \<noteq> [] then trim (worldbuilderModel settings)
          else model settings)
     | PCharacter \<Rightarrow> model settings)"

text \<open>A configured model instance: the provider, its key and the model name.\<close>

record modelInstance =
  mi_provider :: aiProvider
  mi_apiKey :: string
  mi_model :: string

definition getModelInstance :: "settingsState \<Rightarrow> modelPurpose \<Rightarrow> thrown + modelInstance" where
  "getModelInstance settings purpose =
     (if apiKey settings = [] then
        Inl (Error (''API key required for provider: '' @ providerName (aiProvider settings)))
      else Inr \<lparr>mi_provider = aiProvider settings, mi_apiKey = apiKey settings,
                mi_model = getModelForPurpose settings purpose\<rparr>)"

record toolInput =
  ti_note :: "string option"
  ti_locationName :: "string option"
  ti_name :: "string option"

record toolCall =
  toolName :: string
  tc_input :: "toolInput option"

record tokenUsageRaw =
  raw_inputTokens :: "nat option"
  raw_outputTokens :: "nat option"
  raw_totalTokens :: "nat option"

record genResult =
  r_text :: "string option"
  r_toolCalls :: "toolCall list option"
  r_reasoning :: "string list option"
  r_usage :: "tokenUsageRaw option"

text \<open>
  The request handed to \<^verbatim>\<open>generateText\<close>; the sampling parameters are passed through
  unread and are left out. \<open>rq_tools\<close> tells whether the character tools are offered.
\<close>

record genRequest =
  rq_model :: modelInstance
  rq_system :: "string option"
  rq_prompt :: string
  rq_tools :: bool

type_synonym generateText = "genRequest \<Rightarrow> thrown + genResult"

section \<open>Summarization (lib/summarize.ts)\<close>

definition TOKEN_THRESHOLD :: nat where
  "TOKEN_THRESHOLD = 3000"

definition RECENT_MESSAGES_TO_KEEP :: nat where
  "RECENT_MESSAGES_TO_KEEP = 5"

definition needsSummarization :: "nat \<Rightarrow> bool" where
  "needsSummarization cumulativeInputTokens \<longleftrightarrow> cumulativeInputTokens \<ge> TOKEN_THRESHOLD"

definition existingSummaries :: "chatMessage list \<Rightarrow> chatMessage list" where
  "existingSummaries messages = filter (\<lambda>m. m_type m = MSummary) messages"

definition loadingMessages :: "chatMessage list \<Rightarrow> chatMessage list" where
  "loadingMessages messages = filter (\<lambda>m. m_type m = MLoading) messages"

definition actualMessages :: "chatMessage list \<Rightarrow> chatMessage list" where
  "actualMessages messages =
     filter (\<lambda>m. m_type m \<noteq> MLoading \<and> m_type m \<noteq> MSummary) messages"

definition messagesToSummarize :: "chatMessage list \<Rightarrow> chatMessage list" where
  "messagesToSummarize messages = slice_but_last RECENT_MESSAGES_TO_KEEP (actualMessages messages)"

definition messagesToKeep :: "chatMessage list \<Rightarrow> chatMessage list" where
  "messagesToKeep messages = slice_last RECENT_MESSAGES_TO_KEEP (actualMessages messages)"

definition conversationText :: "chatMessage list \<Rightarrow> string" where
  "conversationText ms =
     join [CHR 0x0A]
       (map (\<lambda>m. (if m_type m = MDirector then ''[Director]'' else []) @ m_sender m @ '': '' @ m_text m)
          ms)"

definition previousSummaryText :: "chatMessage list \<Rightarrow> string" where
  "previousSummaryText summaries =
     (if length summaries > 0 then
        ''Previous summary:'' @ [CHR 0x0A] @ join [CHR 0x0A, CHR 0x0A] (map m_text summaries)
          @ [CHR 0x0A, CHR 0x0A] @ ''Continued conversation:'' @ [CHR 0x0A]
      else [])"

definition summaryInstructions :: string where
  "summaryInstructions =
     [CHR 0x0A] @ ''You are summarizing a roleplay conversation to preserve context while reducing length.''
     @ [CHR 0x0A] @ ''Create a concise summary that captures:''
     @ [CHR 0x0A] @ ''- Key events and actions that occurred''
     @ [CHR 0x0A] @ ''- Important character interactions and relationships established''
     @ [CHR 0x0A] @ ''- Any significant plot developments or decisions made''
     @ [CHR 0x0A] @ ''- Notable emotional beats or character moments''
     @ [CHR 0x0A, CHR 0x0A]
     @ ''Keep the summary factual and in past tense. Focus on information that would be relevant for continuing the story.''
     @ [CHR 0x0A] @ ''Maximum 3-4 paragraphs.''
     @ [CHR 0x0A, CHR 0x0A]"

definition summaryPrompt :: "chatMessage list \<Rightarrow> string" where
  "summaryPrompt messages =
     trim (summaryInstructions @ previousSummaryText (existingSummaries messages)
           @ conversationText (messagesToSummarize messages) @ [CHR 0x0A])"

text \<open>
  \<^verbatim>\<open>summarizeOldMessages\<close>. \<open>newId\<close> is the id \<^verbatim>\<open>generateId()\<close> returns for the summary
  message. Everything inside the \<^verbatim>\<open>try\<close> that can throw leads to the \<^verbatim>\<open>catch\<close> branch:
  the model lookup, the generation call, and \<^verbatim>\<open>result.text.trim()\<close> on a missing text.
\<close>

definition summarizeOldMessages ::
  "string \<Rightarrow> generateText \<Rightarrow> chatMessage list \<Rightarrow> settingsState \<Rightarrow> chatMessage list" where
  "summarizeOldMessages newId generate messages settings =
     (if length (messagesToSummarize messages) < 5 then messages
      else
        (case getModelInstance settings PSummarization of
           Inl e \<Rightarrow> messages
         | Inr mdl \<Rightarrow>
            (case generate \<lparr>rq_model = mdl, rq_system = None,
                             rq_prompt = summaryPrompt messages, rq_tools = False\<rparr> of
               Inl e \<Rightarrow> messages
             | Inr result \<Rightarrow>
                (case r_text result of
                   None \<Rightarrow> messages
                 | Some txt \<Rightarrow>
                     \<lparr>m_id = newId, m_type = MSummary, m_text = trim txt,
                      m_sender = ''Summary'', m_charId = None\<rparr>
                     # messagesToKeep messages @ loadingMessages messages))))"

definition getMessagesForContext :: "chatMessage list \<Rightarrow> nat \<Rightarrow> chatMessage list" where
  "getMessagesForContext messages maxRecentMessages =
     (let filtered = filter (\<lambda>m. m_type m \<noteq> MLoading) messages;
          summaries = filter (\<lambda>m. m_type m = MSummary) filtered;
          nonSummaries = filter (\<lambda>m. m_type m \<noteq> MSummary) filtered;
          recentMessages = slice_last maxRecentMessages nonSummaries
      in summaries @ recentMessages)"

section \<open>Character turns (lib/characterAI.ts)\<close>

record tokenUsage =
  inputTokens :: nat
  outputTokens :: nat
  totalTokens :: nat

text \<open>
  \<^verbatim>\<open>Partial<Character>\<close> and \<^verbatim>\<open>Partial<GroupChat>\<close>: a field is \<open>None\<close> when the patch
  does not have the key.
\<close>

record characterPatch =
  pc_id :: "string option"
  pc_name :: "string option"
  pc_description :: "string option"
  pc_pfp_base64 :: "string option option"
  pc_groupChatId :: "string option"
  pc_notes :: "string list option"
  pc_quotes :: "string list option"
  pc_knownCharacterIds :: "string list option"

record groupChatPatch =
  pg_id :: "string option"
  pg_name :: "string option"
  pg_description :: "string option"
  pg_characterIds :: "string list option"
  pg_exposition :: "string list option option"

definition emptyCharacterPatch :: characterPatch where
  "emptyCharacterPatch = \<lparr>pc_id = None, pc_name = None, pc_description = None,
     pc_pfp_base64 = None, pc_groupChatId = None, pc_notes = None, pc_quotes = None,
     pc_knownCharacterIds = None\<rparr>"

definition emptyGroupChatPatch :: groupChatPatch where
  "emptyGroupChatPatch = \<lparr>pg_id = None, pg_name = None, pg_description = None,
     pg_characterIds = None, pg_exposition = None\<rparr>"

text \<open>\<^verbatim>\<open>Object.keys(patch).length > 0\<close>\<close>

definition hasKeys :: "characterPatch \<Rightarrow> bool" where
  "hasKeys p \<longleftrightarrow> p \<noteq> emptyCharacterPatch"

text \<open>
  A JavaScript \<^verbatim>\<open>Map\<close> keeps its keys in insertion order; \<^verbatim>\<open>set\<close> on a key that is
  present replaces the value in place.
\<close>

fun map_set :: "('k \<times> 'v) list \<Rightarrow> 'k \<Rightarrow> 'v \<Rightarrow> ('k \<times> 'v) list" where
  "map_set [] k v = [(k, v)]"
| "map_set ((k', v') # kvs) k v = (if k' = k then (k, v) # kvs else (k', v') # map_set kvs k v)"

record characterTurnResult =
  tr_messages :: "chatMessage list"
  tr_characterUpdates :: "characterPatch option"
  tr_groupChatUpdates :: "(string \<times> groupChatPatch) list option"
  tr_strangerLabel :: "string option"
  tr_error :: "string option"
  tr_usage :: "tokenUsage option"

abbreviation nl :: string where "nl \<equiv> [CHR 0x0A]"
abbreviation dq :: string where "dq \<equiv> [CHR 0x22]"
abbreviation sq :: string where "sq \<equiv> [CHR 0x27]"
abbreviation bullet :: string where "bullet \<equiv> [CHR 0xE2, CHR 0x80, CHR 0xA2]"

definition getFormattingInstructions :: "messageStyle \<Rightarrow> string" where
  "getFormattingInstructions style = (case style of
       DialogueOnly \<Rightarrow>
         ''Format: Dialogue only in quotes. Ex: '' @ dq @ ''So, what'' @ sq @ ''s the plan?'' @ dq
     | CasualRoleplay \<Rightarrow>
         ''Format: *action* '' @ dq @ ''dialogue'' @ dq @ ''. Ex: *glances at door* '' @ dq
           @ ''Did you hear that?'' @ dq
     | Descriptive \<Rightarrow>
         ''Format: Prose narrative with dialogue in quotes. Ex: He leans against the wall. '' @ dq
           @ ''So, what'' @ sq @ ''s the plan?'' @ dq)"

definition describeCharacters :: "character list \<Rightarrow> string" where
  "describeCharacters cs =
     ''Other known characters:'' @ nl
       @ join nl (map (\<lambda>c. ''- '' @ c_name c @ '': '' @ c_description c) cs)"

definition buildSystemInstruction ::
  "character \<Rightarrow> groupChat \<Rightarrow> character list \<Rightarrow> groupChat list \<Rightarrow> settingsState \<Rightarrow> string" where
  "buildSystemInstruction character groupChat allCharacters allGroupChats settings =
     (let locationInfo = g_name groupChat @ '': '' @ g_description groupChat;
          expositionInfo = (case g_exposition groupChat of
              None \<Rightarrow> []
            | Some ex \<Rightarrow>
                if length ex \<noteq> 0
                then nl @ ''Location Details:'' @ nl @ join nl (map (\<lambda>e. ''- '' @ e) ex)
                else []);
          otherLocations = filter (\<lambda>gc. g_id gc \<noteq> g_id groupChat) allGroupChats;
          availableLocationsInfo =
            (if length otherLocations \<noteq> 0
             then ''Available locations to travel to:'' @ nl
                    @ join nl (map (\<lambda>gc. ''- '' @ g_name gc) otherLocations)
             else ''No other locations available.'');
          knownCharactersInfo =
            (if charactersKnowAll settings then
               (let others = filter (\<lambda>c. c_id c \<noteq> c_id character
                                \<and> c_id c \<in> set (g_characterIds groupChat)) allCharacters
                in if length others \<noteq> 0 then describeCharacters others else [])
             else
               (let known = filter (\<lambda>c. c_id c \<in> set (c_knownCharacterIds character)
                                \<and> c_id c \<in> set (g_characterIds groupChat)) allCharacters
                in if length known \<noteq> 0 then describeCharacters known
                   else ''You do not know any other characters yet.''));
          notesInfo =
            (if length (c_notes character) \<noteq> 0
             then ''Your notes about others:'' @ nl
                    @ join nl (map (\<lambda>n. ''- '' @ n) (c_notes character))
             else ''You have no notes yet. Pay attention to what people say and do!'');
          quotesInfo =
            (if length (c_quotes character) \<noteq> 0
             then ''Example dialogue from you:'' @ nl
                    @ join nl (map (\<lambda>q. ''- '' @ dq @ q @ dq) (c_quotes character))
             else []);
          formattingInstructions = getFormattingInstructions (messageStyle settings);
          strangerLabel' = (if strangerLabel settings \<noteq> [] then strangerLabel settings
                            else ''Stranger'');
          userInfo =
            (if shareUserProfile settings \<and> trim (displayName settings) \<noteq> [] then
               (let userName = trim (displayName settings);
                    userBio = trim (bio settings)
                in ''The Player:'' @ nl @ ''- Name: '' @ userName
                     @ (if userBio \<noteq> [] then nl @ ''- About them: '' @ userBio else []))
             else
               dq @ strangerLabel' @ dq
                 @ '' is a mysterious person - NEVER assume their identity, species, or appearance unless they tell you. If they introduce themselves, use labelStranger() to remember their name.'')
      in trim
          (nl @ ''You are '' @ dq @ c_name character @ dq @ '': '' @ c_description character
           @ nl @ ''Location: '' @ locationInfo @ expositionInfo
           @ nl @ nl @ availableLocationsInfo
           @ nl @ nl @ knownCharactersInfo
           @ nl @ nl @ userInfo
           @ nl @ nl @ notesInfo
           @ nl @ nl @ (if quotesInfo \<noteq> [] then quotesInfo @ nl else [])
           @ nl @ ''RULES:''
           @ nl @ formattingInstructions
           @ nl @ bullet @ '' Control ONLY your character; let others respond for themselves''
           @ nl @ bullet @ '' Focus on recent/impactful messages; keep responses concise''
           @ nl @ bullet @ '' Treat characters as strangers unless notes say otherwise''
           @ nl @ bullet @ '' Seek compromise; prioritize story over winning arguments''
           @ nl @ bullet
           @ '' When asked to go somewhere and you accept, USE moveToLocation() - don''
           @ sq @ ''t just talk about going''
           @ nl @ bullet @ '' Tools: makeNote() for observations, moveToLocation() to travel''
           @ (if \<not> shareUserProfile settings
              then '', labelStranger() when they tell you their name'' else [])
           @ nl @ bullet @ '' Follow Director messages naturally without mentioning them''
           @ nl @ nl @ ''Conversation (most recent last):''
           @ nl))"

text \<open>The index of the last element that satisfies \<open>P\<close> (the backwards \<^verbatim>\<open>for\<close> loop).\<close>

fun findLastIndex :: "('a \<Rightarrow> bool) \<Rightarrow> 'a list \<Rightarrow> nat option" where
  "findLastIndex P [] = None"
| "findLastIndex P (x # xs) =
     (case findLastIndex P xs of
        Some i \<Rightarrow> Some (Suc i)
      | None \<Rightarrow> if P x then Some 0 else None)"

definition renderCatchupLine :: "chatMessage \<Rightarrow> string" where
  "renderCatchupLine m =
     (if m_type m = MDirector then ''[Director]: '' @ m_text m
      else m_sender m @ '': '' @ m_text m)"

definition takeInitiative :: string where
  "takeInitiative = ''No one has said anything recently. Take the initiative.''"

text \<open>
  \<^verbatim>\<open>buildCatchupBlock\<close>, in three parts: the messages since the character's last turn,
  the text joined from \<open>catchupParts\<close>, and the block built around it. The source
  finds the character's last message by position in \<open>contextMessages\<close> and then looks that
  same object up in \<open>nonSummaryMessages\<close> (\<^verbatim>\<open>indexOf\<close>, by identity): its position there
  is the number of non-summary messages before it. The director's nudge is absent (\<open>None\<close>)
  or a string, and an empty string counts as absent.
\<close>

definition catchupMessages :: "chatMessage list \<Rightarrow> string \<Rightarrow> chatMessage list" where
  "catchupMessages msgs characterName =
     (let contextMessages = getMessagesForContext msgs 12;
          lastCharacterMessageIndex =
            findLastIndex (\<lambda>m. m_sender m = characterName \<and> m_type m = MCharacter) contextMessages;
          nonSummaryMessages = filter (\<lambda>m. m_type m \<noteq> MSummary) contextMessages
      in case lastCharacterMessageIndex of
           Some i \<Rightarrow>
             drop (length (filter (\<lambda>m. m_type m \<noteq> MSummary) (take i contextMessages)) + 1)
               nonSummaryMessages
         | None \<Rightarrow> nonSummaryMessages)"

definition catchupText :: "chatMessage list \<Rightarrow> string \<Rightarrow> string" where
  "catchupText msgs characterName =
     (let contextMessages = getMessagesForContext msgs 12;
          summaries = filter (\<lambda>m. m_type m = MSummary) contextMessages;
          catchupParts0 =
            (if length summaries > 0
             then [''[Previous context summary]'' @ nl @ join (nl @ nl) (map m_text summaries)
                     @ nl @ ''[End of summary]'']
             else []);
          filteredCatchup =
            trim (join nl (map renderCatchupLine
              (filter (\<lambda>m. m_type m \<noteq> MLoading \<and> m_type m \<noteq> MNarration)
                 (catchupMessages msgs characterName))));
          catchupParts = (if filteredCatchup \<noteq> [] then catchupParts0 @ [filteredCatchup]
                          else catchupParts0)
      in join (nl @ nl) catchupParts)"

definition buildCatchupBlock ::
  "chatMessage list \<Rightarrow> string \<Rightarrow> settingsState \<Rightarrow> string option \<Rightarrow> string" where
  "buildCatchupBlock msgs characterName cfg directorNudge =
     (let nudge = (case directorNudge of None \<Rightarrow> [] | Some n \<Rightarrow> n);
          catchupBlock1 = catchupText msgs characterName;
          catchupBlock2 = (if catchupBlock1 = [] \<and> nudge = [] then takeInitiative
                           else catchupBlock1);
          catchupBlock3 =
            (if nudge \<noteq> [] then
               (let nudgeText = ''(Director'' @ sq @ ''s Nudge: '' @ nudge
                      @ ''. Incorporate this into your character'' @ sq
                      @ ''s thoughts and next action.)''
                in if catchupBlock2 \<noteq> [] then nudgeText @ nl @ nl @ catchupBlock2 else nudgeText)
             else catchupBlock2);
          relevantMessages =
            filter (\<lambda>m. m_type m \<noteq> MLoading \<and> m_type m \<noteq> MNarration \<and> m_type m \<noteq> MDirector)
              (catchupMessages msgs characterName)
      in if length relevantMessages > 0 \<and> m_type (last relevantMessages) = MUser
         then catchupBlock3 @ nl @ nl @ ''['' @ m_sender (last relevantMessages)
                @ '' is talking to you. Respond to them directly.]''
         else catchupBlock3)"

text \<open>
  The loop of \<^verbatim>\<open>processCharacterTurnResult\<close> over the tool calls. The accumulator holds
  the local variables of the source; \<open>gid k\<close> is the id that the \<open>k\<close>-th call of
  \<^verbatim>\<open>generateId()\<close> returns within the function, called once for each message pushed.
\<close>

record turnAcc =
  newMessages :: "chatMessage list"
  characterUpdates :: characterPatch
  groupChatUpdates :: "(string \<times> groupChatPatch) list"
  hasMadeNote :: bool
  acc_strangerLabel :: "string option"

definition initialAcc :: turnAcc where
  "initialAcc = \<lparr>newMessages = [], characterUpdates = emptyCharacterPatch,
     groupChatUpdates = [], hasMadeNote = False, acc_strangerLabel = None\<rparr>"

definition pushMessage :: "(nat \<Rightarrow> string) \<Rightarrow> chatMessage \<Rightarrow> turnAcc \<Rightarrow> turnAcc" where
  "pushMessage gid m acc =
     acc\<lparr>newMessages := newMessages acc @ [m\<lparr>m_id := gid (length (newMessages acc))\<rparr>]\<rparr>"

definition narration :: "string \<Rightarrow> chatMessage" where
  "narration txt = \<lparr>m_id = [], m_type = MNarration, m_text = txt, m_sender = ''Narrator'',
     m_charId = None\<rparr>"

definition characterMessage :: "character \<Rightarrow> string \<Rightarrow> chatMessage" where
  "characterMessage character txt = \<lparr>m_id = [], m_type = MCharacter, m_text = txt,
     m_sender = c_name character, m_charId = Some (c_id character)\<rparr>"

definition makeNote :: "(nat \<Rightarrow> string) \<Rightarrow> character \<Rightarrow> toolInput \<Rightarrow> turnAcc \<Rightarrow> turnAcc" where
  "makeNote gid character inp acc = (case ti_note inp of
       None \<Rightarrow> acc
     | Some note \<Rightarrow>
         if note = [] then acc
         else (pushMessage gid
                 (characterMessage character (c_name character @ '' noted: *'' @ note @ ''*''))
                 (acc\<lparr>characterUpdates :=
                        (characterUpdates acc)\<lparr>pc_notes := Some (c_notes character @ [note])\<rparr>\<rparr>))
              \<lparr>hasMadeNote := True\<rparr>)"

definition moveToLocation ::
  "(nat \<Rightarrow> string) \<Rightarrow> character \<Rightarrow> groupChat \<Rightarrow> groupChat list \<Rightarrow> toolInput \<Rightarrow> turnAcc \<Rightarrow> turnAcc"
  where
  "moveToLocation gid character groupChat allGroupChats inp acc = (case ti_locationName inp of
       None \<Rightarrow> acc
     | Some destName \<Rightarrow>
         if destName = [] then acc
         else (case find (\<lambda>gc. g_name gc = destName) allGroupChats of
             Some destChat \<Rightarrow>
               if g_id destChat \<noteq> c_groupChatId character then
                 pushMessage gid
                   (narration (''*'' @ c_name character @ '' moved to '' @ g_name destChat @ ''.*''))
                   (acc\<lparr>characterUpdates :=
                          (characterUpdates acc)\<lparr>pc_groupChatId := Some (g_id destChat)\<rparr>,
                        groupChatUpdates :=
                          map_set
                            (map_set (groupChatUpdates acc) (g_id groupChat)
                               (emptyGroupChatPatch\<lparr>pg_characterIds :=
                                  Some (filter (\<lambda>i. i \<noteq> c_id character)
                                          (g_characterIds groupChat))\<rparr>))
                            (g_id destChat)
                            (emptyGroupChatPatch\<lparr>pg_characterIds :=
                               Some (filter (\<lambda>i. i \<noteq> c_id character) (g_characterIds destChat)
                                     @ [c_id character])\<rparr>)\<rparr>)
               else
                 pushMessage gid
                   (narration (''*'' @ c_name character @ '' is already at '' @ destName @ ''.*''))
                   acc
           | None \<Rightarrow>
               pushMessage gid
                 (narration (''*'' @ c_name character @ '' tried to move to unknown location: ''
                             @ destName @ ''.*''))
                 acc))"

definition labelStranger :: "toolInput \<Rightarrow> turnAcc \<Rightarrow> turnAcc" where
  "labelStranger inp acc = (case ti_name inp of
       None \<Rightarrow> acc
     | Some name \<Rightarrow>
         if name \<noteq> [] \<and> trim name \<noteq> [] then acc\<lparr>acc_strangerLabel := Some (trim name)\<rparr>
         else acc)"

definition processToolCall ::
  "(nat \<Rightarrow> string) \<Rightarrow> character \<Rightarrow> groupChat \<Rightarrow> groupChat list \<Rightarrow> toolCall \<Rightarrow> turnAcc \<Rightarrow> turnAcc"
  where
  "processToolCall gid character groupChat allGroupChats tc acc = (case tc_input tc of
       None \<Rightarrow> acc
     | Some inp \<Rightarrow>
         if toolName tc = ''makeNote'' then makeNote gid character inp acc
         else if toolName tc = ''moveToLocation''
           then moveToLocation gid character groupChat allGroupChats inp acc
         else if toolName tc = ''labelStranger'' then labelStranger inp acc
         else acc)"

fun processToolCalls ::
  "(nat \<Rightarrow> string) \<Rightarrow> character \<Rightarrow> groupChat \<Rightarrow> groupChat list \<Rightarrow> toolCall list \<Rightarrow> turnAcc
     \<Rightarrow> turnAcc" where
  "processToolCalls gid character groupChat allGroupChats [] acc = acc"
| "processToolCalls gid character groupChat allGroupChats (tc # tcs) acc =
     processToolCalls gid character groupChat allGroupChats tcs
       (processToolCall gid character groupChat allGroupChats tc acc)"

definition hasReasoning :: "genResult \<Rightarrow> bool" where
  "hasReasoning result \<longleftrightarrow> (case r_reasoning result of None \<Rightarrow> False | Some r \<Rightarrow> length r > 0)"

definition processCharacterTurnResult ::
  "(nat \<Rightarrow> string) \<Rightarrow> genResult \<Rightarrow> character \<Rightarrow> groupChat \<Rightarrow> groupChat list
     \<Rightarrow> characterTurnResult" where
  "processCharacterTurnResult gid result character groupChat allGroupChats =
     (let acc1 = (case r_toolCalls result of
              None \<Rightarrow> initialAcc
            | Some tcs \<Rightarrow> processToolCalls gid character groupChat allGroupChats tcs initialAcc);
          dialogue = (case r_text result of None \<Rightarrow> [] | Some t \<Rightarrow> trim t);
          acc2 = (if dialogue \<noteq> [] then pushMessage gid (characterMessage character dialogue) acc1
                  else acc1);
          acc3 = (if length (newMessages acc2) = 0 \<and> \<not> hasReasoning result \<and> \<not> hasMadeNote acc2
                  then pushMessage gid
                         (characterMessage character (''*'' @ c_name character @ '' is thinking...*''))
                         acc2
                  else acc2)
      in \<lparr>tr_messages = newMessages acc3,
          tr_characterUpdates =
            (if hasKeys (characterUpdates acc3) then Some (characterUpdates acc3) else None),
          tr_groupChatUpdates =
            (if length (groupChatUpdates acc3) > 0 then Some (groupChatUpdates acc3) else None),
          tr_strangerLabel = acc_strangerLabel acc3,
          tr_error = None,
          tr_usage = None\<rparr>)"

definition extractUsage :: "genResult \<Rightarrow> tokenUsage option" where
  "extractUsage result = (case r_usage result of
       None \<Rightarrow> None
     | Some u \<Rightarrow>
         (let inp = (case raw_inputTokens u of None \<Rightarrow> 0 | Some n \<Rightarrow> n);
              out = (case raw_outputTokens u of None \<Rightarrow> 0 | Some n \<Rightarrow> n)
          in Some \<lparr>inputTokens = inp, outputTokens = out,
                   totalTokens = (case raw_totalTokens u of None \<Rightarrow> inp + out | Some n \<Rightarrow> n)\<rparr>))"

definition turnError :: "(nat \<Rightarrow> string) \<Rightarrow> character \<Rightarrow> thrown \<Rightarrow> characterTurnResult" where
  "turnError gid character e =
     (let errorMessage = errorMessageOf e
      in \<lparr>tr_messages = [\<lparr>m_id = gid 0, m_type = MCharacter,
                            m_text = ''(An error occurred: '' @ errorMessage @ '')'',
                            m_sender = c_name character, m_charId = Some (c_id character)\<rparr>],
          tr_characterUpdates = None, tr_groupChatUpdates = None, tr_strangerLabel = None,
          tr_error = Some errorMessage, tr_usage = None\<rparr>)"

text \<open>
  \<^verbatim>\<open>executeCharacterTurn\<close>. The body of the \<^verbatim>\<open>try\<close> runs four steps that can throw:
  persona assembly, catch-up construction, the configuration of the model and the generation
  call. On values of the declared types the two builders return the strings defined above; a
  value that is not of its declared type (settings taken from storage without a user profile,
  a character without notes) makes a property read throw inside them. \<open>turnFaults\<close> records
  what is thrown while each builder runs, if anything. Whatever a step throws leaves the
  \<^verbatim>\<open>try\<close> at once and reaches the \<^verbatim>\<open>catch\<close> branch \<open>turnError\<close>; the function itself
  always returns a result.
\<close>

record turnFaults =
  f_persona :: "thrown option"
  f_catchup :: "thrown option"

definition attempt :: "thrown option \<Rightarrow> 'a \<Rightarrow> thrown + 'a" where
  "attempt fault v = (case fault of Some e \<Rightarrow> Inl e | None \<Rightarrow> Inr v)"

definition executeCharacterTurn_try ::
  "(nat \<Rightarrow> string) \<Rightarrow> turnFaults \<Rightarrow> generateText \<Rightarrow> character \<Rightarrow> groupChat \<Rightarrow> character list
     \<Rightarrow> groupChat list \<Rightarrow> chatMessage list \<Rightarrow> settingsState \<Rightarrow> string option
     \<Rightarrow> thrown + characterTurnResult" where
  "executeCharacterTurn_try gid faults generate character groupChat allCharacters allGroupChats
       messages settings directorNudge =
     (case attempt (f_persona faults)
             (buildSystemInstruction character groupChat allCharacters allGroupChats settings) of
        Inl e \<Rightarrow> Inl e
      | Inr systemInstruction \<Rightarrow>
         (case attempt (f_catchup faults)
                 (buildCatchupBlock messages (c_name character) settings directorNudge) of
            Inl e \<Rightarrow> Inl e
          | Inr catchupBlock \<Rightarrow>
             (case getModelInstance settings PCharacter of
                Inl e \<Rightarrow> Inl e
              | Inr mdl \<Rightarrow>
                 (case generate \<lparr>rq_model = mdl, rq_system = Some systemInstruction,
                                  rq_prompt = catchupBlock, rq_tools = True\<rparr> of
                    Inl e \<Rightarrow> Inl e
                  | Inr result \<Rightarrow>
                      Inr ((processCharacterTurnResult gid result character groupChat allGroupChats)
                             \<lparr>tr_usage := extractUsage result\<rparr>)))))"

definition executeCharacterTurn ::
  "(nat \<Rightarrow> string) \<Rightarrow> turnFaults \<Rightarrow> generateText \<Rightarrow> character \<Rightarrow> groupChat \<Rightarrow> character list
     \<Rightarrow> groupChat list \<Rightarrow> chatMessage list \<Rightarrow> settingsState \<Rightarrow> string option
     \<Rightarrow> characterTurnResult" where
  "executeCharacterTurn gid faults generate character groupChat allCharacters allGroupChats
       messages settings directorNudge =
     (case executeCharacterTurn_try gid faults generate character groupChat allCharacters
             allGroupChats messages settings directorNudge of
        Inl e \<Rightarrow> turnError gid character e
      | Inr turnResult \<Rightarrow> turnResult)"

section \<open>The application state and its mutations (App.tsx)\<close>

datatype summarizationStatus = Idle | Summarizing | Success

record appState =
  characters :: "character list"
  groupChats :: "groupChat list"
  messages :: "string \<rightharpoonup> chatMessage list"
  tokenUsageOf :: "string \<rightharpoonup> nat"
  summarizationStatusOf :: "string \<rightharpoonup> summarizationStatus"
  activeChatId :: "string option"
  message :: string
  selectedCharId :: "string option"
  settings :: settingsState

text \<open>\<^verbatim>\<open>[...new Set(xs)]\<close>: the first occurrence of each element stays, in order.\<close>

definition dedupe :: "'a list \<Rightarrow> 'a list" where
  "dedupe xs = rev (remdups (rev xs))"

text \<open>\<^verbatim>\<open>{ ...char, ...updates }\<close> and \<^verbatim>\<open>{ ...gc, ...updates }\<close>\<close>

definition applyCharacterPatch :: "characterPatch \<Rightarrow> character \<Rightarrow> character" where
  "applyCharacterPatch p c =
     \<lparr>c_id = (case pc_id p of None \<Rightarrow> c_id c | Some v \<Rightarrow> v),
      c_name = (case pc_name p of None \<Rightarrow> c_name c | Some v \<Rightarrow> v),
      c_description = (case pc_description p of None \<Rightarrow> c_description c | Some v \<Rightarrow> v),
      c_pfp_base64 = (case pc_pfp_base64 p of None \<Rightarrow> c_pfp_base64 c | Some v \<Rightarrow> v),
      c_groupChatId = (case pc_groupChatId p of None \<Rightarrow> c_groupChatId c | Some v \<Rightarrow> v),
      c_notes = (case pc_notes p of None \<Rightarrow> c_notes c | Some v \<Rightarrow> v),
      c_quotes = (case pc_quotes p of None \<Rightarrow> c_quotes c | Some v \<Rightarrow> v),
      c_knownCharacterIds =
        (case pc_knownCharacterIds p of None \<Rightarrow> c_knownCharacterIds c | Some v \<Rightarrow> v)\<rparr>"

definition applyGroupChatPatch :: "groupChatPatch \<Rightarrow> groupChat \<Rightarrow> groupChat" where
  "applyGroupChatPatch p g =
     \<lparr>g_id = (case pg_id p of None \<Rightarrow> g_id g | Some v \<Rightarrow> v),
      g_name = (case pg_name p of None \<Rightarrow> g_name g | Some v \<Rightarrow> v),
      g_description = (case pg_description p of None \<Rightarrow> g_description g | Some v \<Rightarrow> v),
      g_characterIds = (case pg_characterIds p of None \<Rightarrow> g_characterIds g | Some v \<Rightarrow> v),
      g_exposition = (case pg_exposition p of None \<Rightarrow> g_exposition g | Some v \<Rightarrow> v)\<rparr>"

text \<open>
  \<^verbatim>\<open>createCharacter\<close>; \<open>newId\<close> is what \<^verbatim>\<open>generateId()\<close> returns, and the id of the
  argument (an \<^verbatim>\<open>Omit<Character, 'id'>\<close>) is not read.
\<close>

definition createCharacter :: "string \<Rightarrow> character \<Rightarrow> appState \<Rightarrow> appState" where
  "createCharacter newId char s =
     s\<lparr>characters := characters s @ [char\<lparr>c_id := newId\<rparr>],
       groupChats :=
         (if c_groupChatId char \<noteq> [] then
            map (\<lambda>gc. if g_id gc = c_groupChatId char
                      then gc\<lparr>g_characterIds := dedupe (g_characterIds gc @ [newId])\<rparr>
                      else gc) (groupChats s)
          else groupChats s)\<rparr>"

text \<open>The two \<^verbatim>\<open>setGroupChats\<close> updates that \<^verbatim>\<open>updateCharacter\<close> queues on a reassignment.\<close>

definition reassign :: "string \<Rightarrow> string \<Rightarrow> string \<Rightarrow> groupChat list \<Rightarrow> groupChat list" where
  "reassign cid oldChatId newChatId gcs =
     map (\<lambda>g. if g_id g = newChatId
               then g\<lparr>g_characterIds := filter (\<lambda>i. i \<noteq> cid) (g_characterIds g) @ [cid]\<rparr>
               else g)
       (map (\<lambda>g. if g_id g = oldChatId
                  then g\<lparr>g_characterIds := filter (\<lambda>i. i \<noteq> cid) (g_characterIds g)\<rparr>
                  else g) gcs)"

text \<open>
  The guard \<^verbatim>\<open>updates.groupChatId && updates.groupChatId !== char.groupChatId\<close>: the new
  location's id when the patch reassigns the character.
\<close>

definition reassignment :: "characterPatch \<Rightarrow> character \<Rightarrow> string option" where
  "reassignment updates char = (case pc_groupChatId updates of
       None \<Rightarrow> None
     | Some newChatId \<Rightarrow>
         if newChatId \<noteq> [] \<and> newChatId \<noteq> c_groupChatId char then Some newChatId else None)"

text \<open>
  \<^verbatim>\<open>updateCharacter\<close>: the updater maps over the characters and, at each character with
  the given id whose patch reassigns it, queues the two location updates.
\<close>

definition updateCharacter :: "string \<Rightarrow> characterPatch \<Rightarrow> appState \<Rightarrow> appState" where
  "updateCharacter cid updates s =
     s\<lparr>characters :=
         map (\<lambda>char. if c_id char \<noteq> cid then char else applyCharacterPatch updates char)
           (characters s),
       groupChats :=
         foldl (\<lambda>gcs char.
                  if c_id char \<noteq> cid then gcs
                  else (case reassignment updates char of
                          None \<Rightarrow> gcs
                        | Some newChatId \<Rightarrow> reassign cid (c_groupChatId char) newChatId gcs))
           (groupChats s) (characters s)\<rparr>"

text \<open>
  \<^verbatim>\<open>deleteCharacter\<close> looks the character up in the \<open>characters\<close> of the current render
  (\<open>snapshot\<close>) and queues its updates on the state.
\<close>

definition deleteCharacterFrom :: "character list \<Rightarrow> string \<Rightarrow> appState \<Rightarrow> appState" where
  "deleteCharacterFrom snapshot cid s = (case find (\<lambda>c. c_id c = cid) snapshot of
       None \<Rightarrow> s
     | Some char \<Rightarrow>
         s\<lparr>groupChats :=
             map (\<lambda>gc. if g_id gc = c_groupChatId char
                       then gc\<lparr>g_characterIds := filter (\<lambda>i. i \<noteq> cid) (g_characterIds gc)\<rparr>
                       else gc) (groupChats s),
           characters :=
             filter (\<lambda>c. c_id c \<noteq> cid)
               (map (\<lambda>c. c\<lparr>c_knownCharacterIds :=
                              filter (\<lambda>k. k \<noteq> cid) (c_knownCharacterIds c)\<rparr>)
                  (characters s))\<rparr>)"

definition deleteCharacter :: "string \<Rightarrow> appState \<Rightarrow> appState" where
  "deleteCharacter cid s = deleteCharacterFrom (characters s) cid s"

definition createGroupChat :: "string \<Rightarrow> groupChat \<Rightarrow> appState \<Rightarrow> appState" where
  "createGroupChat newId chat s = s\<lparr>groupChats := groupChats s @ [chat\<lparr>g_id := newId\<rparr>]\<rparr>"

definition updateGroupChat :: "string \<Rightarrow> groupChatPatch \<Rightarrow> appState \<Rightarrow> appState" where
  "updateGroupChat gid updates s =
     s\<lparr>groupChats :=
         map (\<lambda>gc. if g_id gc \<noteq> gid then gc
                   else applyGroupChatPatch
                          (case pg_characterIds updates of
                             None \<Rightarrow> updates
                           | Some ids \<Rightarrow> updates\<lparr>pg_characterIds := Some (dedupe ids)\<rparr>) gc)
           (groupChats s)\<rparr>"

definition deleteGroupChat :: "string \<Rightarrow> appState \<Rightarrow> appState" where
  "deleteGroupChat gid s =
     (let charsToUpdate = filter (\<lambda>c. c_groupChatId c = gid) (characters s);
          s1 = foldl (\<lambda>st char. deleteCharacterFrom (characters s) (c_id char) st) s charsToUpdate;
          s2 = s1\<lparr>groupChats := filter (\<lambda>gc. g_id gc \<noteq> gid) (groupChats s1)\<rparr>
      in if activeChatId s = Some gid then s2\<lparr>activeChatId := None\<rparr> else s2)"

definition removeCharacterFromChat :: "string \<Rightarrow> string \<Rightarrow> appState \<Rightarrow> appState" where
  "removeCharacterFromChat chatId charId s =
     s\<lparr>groupChats :=
         map (\<lambda>gc. if g_id gc = chatId
                   then gc\<lparr>g_characterIds := filter (\<lambda>i. i \<noteq> charId) (g_characterIds gc)\<rparr>
                   else gc) (groupChats s),
       characters :=
         map (\<lambda>char. if c_id char = charId then char\<lparr>c_groupChatId := []\<rparr> else char)
           (characters s)\<rparr>"

section \<open>The turn controller (App.tsx)\<close>

text \<open>
  What the environment supplies during one handler run: the ids that \<^verbatim>\<open>generateId()\<close>
  returns (for the user's message, the summary, the loading placeholder and the messages of
  the turn), the outcomes of the two generation calls, and what is thrown inside the builders
  of the turn.
\<close>

record env =
  e_userMessageId :: string
  e_summaryId :: string
  e_loadingId :: string
  e_turnIds :: "nat \<Rightarrow> string"
  e_generateSummary :: generateText
  e_generateTurn :: generateText
  e_faults :: turnFaults

text \<open>\<^verbatim>\<open>prev[chatId] || []\<close> and \<^verbatim>\<open>tokenUsage[chatId] || 0\<close>\<close>

definition messagesOf :: "(string \<rightharpoonup> chatMessage list) \<Rightarrow> string \<Rightarrow> chatMessage list" where
  "messagesOf ms chatId = (case ms chatId of None \<Rightarrow> [] | Some xs \<Rightarrow> xs)"

definition usageOf :: "(string \<rightharpoonup> nat) \<Rightarrow> string \<Rightarrow> nat" where
  "usageOf tu chatId = (case tu chatId of None \<Rightarrow> 0 | Some n \<Rightarrow> n)"

definition appendMessages :: "string \<Rightarrow> chatMessage list \<Rightarrow> appState \<Rightarrow> appState" where
  "appendMessages chatId new s =
     s\<lparr>messages := (messages s)(chatId \<mapsto> messagesOf (messages s) chatId @ new)\<rparr>"

definition loadingMessage :: "string \<Rightarrow> character \<Rightarrow> chatMessage" where
  "loadingMessage newId actingCharacter =
     \<lparr>m_id = newId, m_type = MLoading, m_text = [], m_sender = c_name actingCharacter,
      m_charId = Some (c_id actingCharacter)\<rparr>"

definition removeLoading :: "string \<Rightarrow> character \<Rightarrow> appState \<Rightarrow> appState" where
  "removeLoading chatId actingCharacter s =
     s\<lparr>messages := (messages s)(chatId \<mapsto>
         filter (\<lambda>m. m_type m \<noteq> MLoading \<or> m_charId m \<noteq> Some (c_id actingCharacter))
           (messagesOf (messages s) chatId))\<rparr>"

text \<open>
  The reconciliation both handlers run once the turn has resolved: usage, placeholder,
  new messages, character patch, location patches in the order of the \<^verbatim>\<open>Map\<close>, stranger
  label. The queued state updates take effect in program order.
  \<^verbatim>\<open>executeCharacterTurn\<close> catches what it throws, so the handlers' own \<^verbatim>\<open>catch\<close>
  branch is never entered.
\<close>

definition applyTurnResult ::
  "groupChat \<Rightarrow> character \<Rightarrow> characterTurnResult \<Rightarrow> appState \<Rightarrow> appState" where
  "applyTurnResult chat actingCharacter result s =
     (let s1 = (case tr_usage result of
              None \<Rightarrow> s
            | Some u \<Rightarrow>
                s\<lparr>tokenUsageOf := (tokenUsageOf s)(g_id chat \<mapsto>
                     usageOf (tokenUsageOf s) (g_id chat) + inputTokens u)\<rparr>);
          s2 = removeLoading (g_id chat) actingCharacter s1;
          s3 = appendMessages (g_id chat) (tr_messages result) s2;
          s4 = (case tr_characterUpdates result of
              None \<Rightarrow> s3
            | Some updates \<Rightarrow> updateCharacter (c_id actingCharacter) updates s3);
          s5 = (case tr_groupChatUpdates result of
              None \<Rightarrow> s4
            | Some ups \<Rightarrow> foldl (\<lambda>st (chatId, updates). updateGroupChat chatId updates st) s4 ups)
      in case tr_strangerLabel result of
           None \<Rightarrow> s5
         | Some l \<Rightarrow> if l \<noteq> [] then s5\<lparr>settings := (settings s5)\<lparr>strangerLabel := l\<rparr>\<rparr> else s5)"

definition userDisplayName :: "settingsState \<Rightarrow> string" where
  "userDisplayName st =
     (if shareUserProfile st \<and> trim (displayName st) \<noteq> [] then trim (displayName st)
      else if strangerLabel st \<noteq> [] then strangerLabel st else ''Stranger'')"

text \<open>
  The character mode of \<^verbatim>\<open>handleSendMessage\<close>, from the staging of the user's message
  on. \<open>currentMessages\<close> is the value of the source's variable of that name when the turn
  is executed. The status is the last one the handler sets; the timer that puts it back to
  idle three seconds later is not part of the model. A run of a handler is one step: nothing
  else updates the state between its start and the application of the turn's result (what
  happens to the world when something does is the subject of \<open>ApplyTurn\<close> below).
\<close>

definition stagedUserMessage :: "env \<Rightarrow> appState \<Rightarrow> chatMessage option" where
  "stagedUserMessage ev s =
     (if trim (message s) \<noteq> [] then
        Some \<lparr>m_id = e_userMessageId ev, m_type = MUser, m_text = message s,
              m_sender = userDisplayName (settings s), m_charId = None\<rparr>
      else None)"

definition summarizedMessages :: "env \<Rightarrow> groupChat \<Rightarrow> appState \<Rightarrow> chatMessage list" where
  "summarizedMessages ev chat s =
     summarizeOldMessages (e_summaryId ev) (e_generateSummary ev)
       (messagesOf (messages s) (g_id chat)) (settings s)"

definition currentMessages :: "env \<Rightarrow> groupChat \<Rightarrow> appState \<Rightarrow> chatMessage list" where
  "currentMessages ev chat s =
     (let chatTokenUsage = usageOf (tokenUsageOf s) (g_id chat);
          currentMessages1 = (if needsSummarization chatTokenUsage then summarizedMessages ev chat s
                              else messagesOf (messages s) (g_id chat))
      in case stagedUserMessage ev s of
           None \<Rightarrow> currentMessages1
         | Some newUserMessage \<Rightarrow> currentMessages1 @ [newUserMessage])"

definition characterTurn :: "env \<Rightarrow> groupChat \<Rightarrow> character \<Rightarrow> appState \<Rightarrow> appState" where
  "characterTurn ev chat actingCharacter s =
     (let newUserMessage = stagedUserMessage ev s;
          s0 = (if newUserMessage \<noteq> None then s\<lparr>message := []\<rparr> else s);
          chatTokenUsage = usageOf (tokenUsageOf s) (g_id chat);
          s1 = (if needsSummarization chatTokenUsage then
                  s0\<lparr>messages := (messages s0)(g_id chat \<mapsto> summarizedMessages ev chat s),
                     tokenUsageOf := (tokenUsageOf s0)(g_id chat \<mapsto> 0),
                     summarizationStatusOf := (summarizationStatusOf s0)(g_id chat \<mapsto> Success)\<rparr>
                else s0);
          s2 = (case newUserMessage of
                  None \<Rightarrow> s1
                | Some m \<Rightarrow> appendMessages (g_id chat) [m] s1);
          s3 = appendMessages (g_id chat) [loadingMessage (e_loadingId ev) actingCharacter] s2;
          result = executeCharacterTurn (e_turnIds ev) (e_faults ev) (e_generateTurn ev) actingCharacter chat
                     (characters s) (groupChats s) (currentMessages ev chat s) (settings s) None
      in applyTurnResult chat actingCharacter result s3)"

definition handleSendMessage :: "env \<Rightarrow> appState \<Rightarrow> appState" where
  "handleSendMessage ev s =
     (case find (\<lambda>gc. Some (g_id gc) = activeChatId s) (groupChats s) of
        None \<Rightarrow> s
      | Some chat \<Rightarrow>
         (let hasMessage = trim (message s) \<noteq> [] in
          if selectedCharId s = Some ''none'' then
            (if \<not> hasMessage then s
             else (appendMessages (g_id chat)
                     [\<lparr>m_id = e_userMessageId ev, m_type = MUser, m_text = message s,
                       m_sender = userDisplayName (settings s), m_charId = None\<rparr>] s)
                  \<lparr>message := []\<rparr>)
          else if selectedCharId s = Some ''director'' then
            (if \<not> hasMessage then s
             else (appendMessages (g_id chat)
                     [\<lparr>m_id = e_userMessageId ev, m_type = MDirector, m_text = message s,
                       m_sender = ''Director'', m_charId = None\<rparr>] s)
                  \<lparr>message := []\<rparr>)
          else
            (case find (\<lambda>c. Some (c_id c) = selectedCharId s) (characters s) of
               None \<Rightarrow> s
             | Some actingCharacter \<Rightarrow> characterTurn ev chat actingCharacter s)))"

text \<open>\<^verbatim>\<open>Array.prototype.findIndex\<close>, with \<open>None\<close> for \<open>-1\<close>.\<close>

fun findIndex :: "('a \<Rightarrow> bool) \<Rightarrow> 'a list \<Rightarrow> nat option" where
  "findIndex P [] = None"
| "findIndex P (x # xs) =
     (if P x then Some 0 else (case findIndex P xs of None \<Rightarrow> None | Some i \<Rightarrow> Some (Suc i)))"

definition handleRetryMessage :: "env \<Rightarrow> string \<Rightarrow> appState \<Rightarrow> appState" where
  "handleRetryMessage ev messageId s =
     (case find (\<lambda>gc. Some (g_id gc) = activeChatId s) (groupChats s) of
        None \<Rightarrow> s
      | Some chat \<Rightarrow>
         (let chatMessages = messagesOf (messages s) (g_id chat) in
          case findIndex (\<lambda>m. m_id m = messageId) chatMessages of
            None \<Rightarrow> s
          | Some messageIndex \<Rightarrow>
             (let messageToRetry = chatMessages ! messageIndex in
              if m_type messageToRetry \<noteq> MCharacter \<or> m_charId messageToRetry = None
                 \<or> m_charId messageToRetry = Some [] then s
              else
                (case find (\<lambda>c. Some (c_id c) = m_charId messageToRetry) (characters s) of
                   None \<Rightarrow> s
                 | Some actingCharacter \<Rightarrow>
                    (let trimmedMessages = take messageIndex chatMessages;
                         s1 = s\<lparr>messages := (messages s)(g_id chat \<mapsto> trimmedMessages)\<rparr>;
                         s2 = appendMessages (g_id chat)
                                [loadingMessage (e_loadingId ev) actingCharacter] s1;
                         result = executeCharacterTurn (e_turnIds ev) (e_faults ev) (e_generateTurn ev)
                                    actingCharacter chat (characters s) (groupChats s)
                                    trimmedMessages (settings s) None
                     in applyTurnResult chat actingCharacter result s2)))))"

section \<open>World export and import (lib/worldData.ts)\<close>















section \<open>Vocabulary of the properties\<close>

text \<open>A tool call of the relocation tool with the given destination name.\<close>

definition moveCall :: "string \<Rightarrow> toolCall" where
  "moveCall destName = \<lparr>toolName = ''moveToLocation'',
     tc_input = Some \<lparr>ti_note = None, ti_locationName = Some destName, ti_name = None\<rparr>\<rparr>"

text \<open>A tool call that takes a note.\<close>

definition noteCall :: "string \<Rightarrow> toolCall" where
  "noteCall n = \<lparr>toolName = ''makeNote'',
     tc_input = Some \<lparr>ti_note = Some n, ti_locationName = None, ti_name = None\<rparr>\<rparr>"

text \<open>The \<open>groupChatId\<close> that the character update of a turn's result sets, if any.\<close>

definition stagedGroupChatId :: "characterTurnResult \<Rightarrow> string option" where
  "stagedGroupChatId res =
     (case tr_characterUpdates res of None \<Rightarrow> None | Some p \<Rightarrow> pc_groupChatId p)"

definition narrationCount :: "chatMessage list \<Rightarrow> nat" where
  "narrationCount ms = length (filter (\<lambda>m. m_type m = MNarration) ms)"

text \<open>A character with the ids in \<open>D\<close> taken out of its known characters.\<close>

definition forget :: "string set \<Rightarrow> character \<Rightarrow> character" where
  "forget D c = c\<lparr>c_knownCharacterIds := filter (\<lambda>k. k \<notin> D) (c_knownCharacterIds c)\<rparr>"

text \<open>The loading placeholders of a character are the messages the handlers filter out.\<close>

definition withoutLoadingOf :: "character \<Rightarrow> chatMessage list \<Rightarrow> chatMessage list" where
  "withoutLoadingOf ch ms =
     filter (\<lambda>m. m_type m \<noteq> MLoading \<or> m_charId m \<noteq> Some (c_id ch)) ms"

text \<open>
  A history is well placed when no loading placeholder of a character stands before a
  message of that character; a state is, when all its histories are. What a turn produces
  are messages of the acting character and narration.
\<close>

fun wellPlaced :: "chatMessage list \<Rightarrow> bool" where
  "wellPlaced [] \<longleftrightarrow> True"
| "wellPlaced (m # ms) \<longleftrightarrow>
     (m_type m = MLoading \<longrightarrow>
        (\<forall>m' \<in> set ms. m_type m' = MCharacter \<longrightarrow> m_charId m' \<noteq> m_charId m))
     \<and> wellPlaced ms"

definition placed :: "appState \<Rightarrow> bool" where
  "placed s \<longleftrightarrow> (\<forall>c. wellPlaced (messagesOf (messages s) c))"

definition turnMessage :: "character \<Rightarrow> chatMessage \<Rightarrow> bool" where
  "turnMessage ch m \<longleftrightarrow>
     (m_type m = MCharacter \<and> m_charId m = Some (c_id ch)) \<or> m_type m = MNarration"

text \<open>
  The bidirectional index: a location's \<open>characterIds\<close> are, as a set, the ids of the
  characters whose \<open>groupChatId\<close> is the location's id. A world is consistent when its
  characters have distinct ids, no location has the empty id (which stands for
  ``unassigned''), and the index holds.
\<close>

definition members :: "character list \<Rightarrow> string \<Rightarrow> string set" where
  "members cs gid = set (map c_id (filter (\<lambda>c. c_groupChatId c = gid) cs))"

definition indexed :: "appState \<Rightarrow> bool" where
  "indexed s \<longleftrightarrow>
     (\<forall>L \<in> set (groupChats s). set (g_characterIds L) = members (characters s) (g_id L))"

definition consistent :: "appState \<Rightarrow> bool" where
  "consistent s \<longleftrightarrow>
     distinct (map c_id (characters s)) \<and> (\<forall>L \<in> set (groupChats s). g_id L \<noteq> []) \<and> indexed s"

text \<open>
  The mutations of the world. A handler that runs a turn stages its result in the render
  it was started from and applies it, through updaters of the state, once the generation
  call has returned; other mutations may have taken place in between.
  \<open>ApplyTurn age chatId charId r ids\<close> applies, to the current world, what a turn of the
  character \<open>charId\<close> in the location \<open>chatId\<close> has staged \<open>age\<close> mutations ago when its
  generation call returns \<open>r\<close> (in the first world, when the run is not that long). A run
  keeps the current world and the earlier ones, the latest first.
\<close>

datatype mutation =
    CreateCharacter string character
  | UpdateCharacter string characterPatch
  | DeleteCharacter string
  | CreateGroupChat string groupChat
  | UpdateGroupChat string groupChatPatch
  | DeleteGroupChat string
  | RemoveCharacterFromChat string string
  | ApplyTurn nat string string genResult "nat \<Rightarrow> string"

definition snapshotAt :: "appState \<Rightarrow> appState list \<Rightarrow> nat \<Rightarrow> appState" where
  "snapshotAt s earlier age = (s # earlier) ! min age (length earlier)"

definition applyTurn ::
  "appState \<Rightarrow> string \<Rightarrow> string \<Rightarrow> genResult \<Rightarrow> (nat \<Rightarrow> string) \<Rightarrow> appState \<Rightarrow> appState"
  where
  "applyTurn snapshot chatId charId r ids s =
     (case find (\<lambda>gc. g_id gc = chatId) (groupChats snapshot) of
        None \<Rightarrow> s
      | Some chat \<Rightarrow>
         (case find (\<lambda>c. c_id c = charId) (characters snapshot) of
            None \<Rightarrow> s
          | Some actingCharacter \<Rightarrow>
              applyTurnResult chat actingCharacter
                ((processCharacterTurnResult ids r actingCharacter chat (groupChats snapshot))
                   \<lparr>tr_usage := extractUsage r\<rparr>) s))"

fun mutate :: "mutation \<Rightarrow> appState list \<Rightarrow> appState \<Rightarrow> appState" where
  "mutate (CreateCharacter newId char) earlier s = createCharacter newId char s"
| "mutate (UpdateCharacter cid updates) earlier s = updateCharacter cid updates s"
| "mutate (DeleteCharacter cid) earlier s = deleteCharacter cid s"
| "mutate (CreateGroupChat newId chat) earlier s = createGroupChat newId chat s"
| "mutate (UpdateGroupChat gid updates) earlier s = updateGroupChat gid updates s"
| "mutate (DeleteGroupChat gid) earlier s = deleteGroupChat gid s"
| "mutate (RemoveCharacterFromChat chatId charId) earlier s = removeCharacterFromChat chatId charId s"
| "mutate (ApplyTurn age chatId charId r ids) earlier s =
     applyTurn (snapshotAt s earlier age) chatId charId r ids s"

fun mutateAll :: "mutation list \<Rightarrow> appState list \<Rightarrow> appState \<Rightarrow> appState" where
  "mutateAll [] earlier s = s"
| "mutateAll (m # ms) earlier s = mutateAll ms (s # earlier) (mutate m earlier s)"

definition moveCount :: "genResult \<Rightarrow> nat" where
  "moveCount r =
     length (filter (\<lambda>tc. toolName tc = ''moveToLocation'')
               (case r_toolCalls r of None \<Rightarrow> [] | Some tcs \<Rightarrow> tcs))"

text \<open>
  What a turn stages in the world it is started in, if the location and the character are
  found there; the ids of the locations for which a result stages a member list; and two
  locations with the same members apart from one character.
\<close>

definition stagedIn ::
  "appState \<Rightarrow> string \<Rightarrow> string \<Rightarrow> genResult \<Rightarrow> (nat \<Rightarrow> string) \<Rightarrow> characterTurnResult option"
  where
  "stagedIn snapshot chatId charId r ids =
     (case find (\<lambda>gc. g_id gc = chatId) (groupChats snapshot) of
        None \<Rightarrow> None
      | Some chat \<Rightarrow>
         (case find (\<lambda>c. c_id c = charId) (characters snapshot) of
            None \<Rightarrow> None
          | Some actingCharacter \<Rightarrow>
              Some (processCharacterTurnResult ids r actingCharacter chat (groupChats snapshot))))"

definition stagedLocations :: "characterTurnResult \<Rightarrow> string list" where
  "stagedLocations res = map fst (case tr_groupChatUpdates res of None \<Rightarrow> [] | Some ups \<Rightarrow> ups)"

definition sameMembersApartFrom :: "string \<Rightarrow> groupChat \<Rightarrow> groupChat \<Rightarrow> bool" where
  "sameMembersApartFrom cid L L' \<longleftrightarrow>
     set (g_characterIds L') - {cid} = set (g_characterIds L) - {cid}"

text \<open>
  The member lists that a turn stages are absolute. They are still right when they are
  applied if every location they are staged for has, apart from the acting character, the
  members it had in the world the turn was staged in, and if the acting character still
  exists when the destination does.
\<close>

definition unchangedSince ::
  "appState \<Rightarrow> string \<Rightarrow> string \<Rightarrow> genResult \<Rightarrow> (nat \<Rightarrow> string) \<Rightarrow> appState \<Rightarrow> bool" where
  "unchangedSince snapshot chatId charId r ids s \<longleftrightarrow>
     (case stagedIn snapshot chatId charId r ids of
        None \<Rightarrow> True
      | Some res \<Rightarrow>
          (\<forall>L \<in> set (groupChats snapshot). \<forall>L' \<in> set (groupChats s).
             g_id L' = g_id L \<and> g_id L \<in> set (stagedLocations res) \<longrightarrow>
             sameMembersApartFrom charId L L')
          \<and> (case stagedGroupChatId res of
                None \<Rightarrow> True
              | Some d \<Rightarrow> d \<in> set (map g_id (groupChats s)) \<longrightarrow>
                          charId \<in> set (map c_id (characters s))))"

text \<open>
  The mutations under which the index is kept: the id of a new character is one that no
  character has; a character patch sets neither the id nor an empty \<open>groupChatId\<close>; a
  location is created without members, with an id that is not empty and that no
  character's \<open>groupChatId\<close> names; a location patch does not set the id, and a
  \<open>characterIds\<close> patch lists the characters assigned to the location; a character is
  removed from the location it is in, or is unassigned; a turn makes at most one relocation
  call, and what it has staged is applied to a world unchanged, in the sense above, since it
  was staged.
\<close>

fun admissible :: "appState list \<Rightarrow> appState \<Rightarrow> mutation \<Rightarrow> bool" where
  "admissible earlier s (CreateCharacter newId char) \<longleftrightarrow>
     newId \<notin> set (map c_id (characters s))"
| "admissible earlier s (UpdateCharacter cid updates) \<longleftrightarrow>
     pc_id updates = None \<and> pc_groupChatId updates \<noteq> Some []"
| "admissible earlier s (DeleteCharacter cid) \<longleftrightarrow> True"
| "admissible earlier s (CreateGroupChat newId chat) \<longleftrightarrow>
     g_characterIds chat = [] \<and> newId \<noteq> [] \<and> newId \<notin> set (map c_groupChatId (characters s))"
| "admissible earlier s (UpdateGroupChat gid updates) \<longleftrightarrow>
     pg_id updates = None
     \<and> (case pg_characterIds updates of
           None \<Rightarrow> True
         | Some ids \<Rightarrow> set ids = members (characters s) gid)"
| "admissible earlier s (DeleteGroupChat gid) \<longleftrightarrow> True"
| "admissible earlier s (RemoveCharacterFromChat chatId charId) \<longleftrightarrow>
     (\<forall>c \<in> set (characters s).
        c_id c = charId \<longrightarrow> c_groupChatId c = chatId \<or> c_groupChatId c = [])"
| "admissible earlier s (ApplyTurn age chatId charId r ids) \<longleftrightarrow>
     moveCount r \<le> 1 \<and> unchangedSince (snapshotAt s earlier age) chatId charId r ids s"

fun admissibleAll :: "appState list \<Rightarrow> appState \<Rightarrow> mutation list \<Rightarrow> bool" where
  "admissibleAll earlier s [] \<longleftrightarrow> True"
| "admissibleAll earlier s (m # ms) \<longleftrightarrow>
     admissible earlier s m \<and> admissibleAll (s # earlier) (mutate m earlier s) ms"

text \<open>
  What a turn with at most one relocation call has staged when the tool calls are processed:
  no change of location, or the move to one location \<open>D\<close> other than the character's, with
  the two patches for the location passed as the current one and for \<open>D\<close>.
\<close>

definition leavingPatch :: "character \<Rightarrow> groupChat \<Rightarrow> groupChatPatch" where
  "leavingPatch ch chat = emptyGroupChatPatch\<lparr>pg_characterIds :=
     Some (filter (\<lambda>i. i \<noteq> c_id ch) (g_characterIds chat))\<rparr>"

definition arrivingPatch :: "character \<Rightarrow> groupChat \<Rightarrow> groupChatPatch" where
  "arrivingPatch ch dest = emptyGroupChatPatch\<lparr>pg_characterIds :=
     Some (filter (\<lambda>i. i \<noteq> c_id ch) (g_characterIds dest) @ [c_id ch])\<rparr>"

definition stagedMove :: "character \<Rightarrow> groupChat \<Rightarrow> groupChat list \<Rightarrow> turnAcc \<Rightarrow> bool" where
  "stagedMove ch chat gcs acc \<longleftrightarrow>
     pc_id (characterUpdates acc) = None
     \<and> ((pc_groupChatId (characterUpdates acc) = None \<and> groupChatUpdates acc = [])
        \<or> (\<exists>D \<in> set gcs. g_id D \<noteq> c_groupChatId ch
              \<and> pc_groupChatId (characterUpdates acc) = Some (g_id D)
              \<and> groupChatUpdates acc =
                  map_set (map_set [] (g_id chat) (leavingPatch ch chat)) (g_id D)
                    (arrivingPatch ch D)))"






section \<open>Example inputs\<close>

definition exSettings :: settingsState where
  "exSettings = \<lparr>shareUserProfile = False, charactersKnowAll = False, messageStyle = Descriptive,
     aiProvider = OpenAI, displayName = [], bio = [], strangerLabel = ''Stranger'',
     apiKey = ''key'', model = ''m'', summarizationModel = [], worldbuilderModel = []\<rparr>"

definition exSettingsNoKey :: settingsState where
  "exSettingsNoKey = exSettings\<lparr>apiKey := []\<rparr>"

definition ann :: character where
  "ann = \<lparr>c_id = ''c1'', c_name = ''Ann'', c_description = ''A smith'', c_pfp_base64 = None,
     c_groupChatId = ''g1'', c_notes = [], c_quotes = [], c_knownCharacterIds = [''c2'']\<rparr>"

definition bob :: character where
  "bob = \<lparr>c_id = ''c2'', c_name = ''Bob'', c_description = ''A bard'', c_pfp_base64 = None,
     c_groupChatId = ''g2'', c_notes = [], c_quotes = [], c_knownCharacterIds = [''c1'']\<rparr>"

definition tavern :: groupChat where
  "tavern = \<lparr>g_id = ''g1'', g_name = ''Tavern'', g_description = ''An inn'',
     g_characterIds = [''c1''], g_exposition = None\<rparr>"

definition forest :: groupChat where
  "forest = \<lparr>g_id = ''g2'', g_name = ''Forest'', g_description = ''Old trees'',
     g_characterIds = [''c2''], g_exposition = Some [''Mist.'']\<rparr>"

definition exIds :: "nat \<Rightarrow> string" where
  "exIds n = replicate (Suc n) CHR ''i''"

definition noFaults :: turnFaults where
  "noFaults = \<lparr>f_persona = None, f_catchup = None\<rparr>"

definition genFail :: generateText where
  "genFail rq = Inl (Error ''offline'')"

definition genSays :: "string option \<Rightarrow> toolCall list option \<Rightarrow> string list option \<Rightarrow> generateText"
  where
  "genSays t tcs rs rq = Inr \<lparr>r_text = t, r_toolCalls = tcs, r_reasoning = rs,
     r_usage = Some \<lparr>raw_inputTokens = Some 50, raw_outputTokens = Some 7,
                     raw_totalTokens = None\<rparr>\<rparr>"

definition userMsg :: "string \<Rightarrow> string \<Rightarrow> chatMessage" where
  "userMsg i t = \<lparr>m_id = i, m_type = MUser, m_text = t, m_sender = ''Stranger'', m_charId = None\<rparr>"

definition exHistory :: "chatMessage list" where
  "exHistory =
     [\<lparr>m_id = ''s0'', m_type = MSummary, m_text = ''Before.'', m_sender = ''Summary'',
       m_charId = None\<rparr>,
      userMsg ''u0'' ''a'', userMsg ''u1'' ''b'', userMsg ''u2'' ''c'', userMsg ''u3'' ''d'',
      userMsg ''u4'' ''e'',
      \<lparr>m_id = ''l0'', m_type = MLoading, m_text = [], m_sender = ''Bob'', m_charId = Some ''c2''\<rparr>,
      userMsg ''u5'' ''f'', userMsg ''u6'' ''g'', userMsg ''u7'' ''h'', userMsg ''u8'' ''i'',
      userMsg ''u9'' ''j'']"

definition exEnv :: env where
  "exEnv = \<lparr>e_userMessageId = ''um'', e_summaryId = ''sm'', e_loadingId = ''lm'',
     e_turnIds = exIds, e_generateSummary = genSays (Some ''Recap.'') None None,
     e_generateTurn = genSays (Some ''Hello.'') None None, e_faults = noFaults\<rparr>"

definition exState :: appState where
  "exState = \<lparr>characters = [ann, bob], groupChats = [tavern, forest],
     messages = Map.empty, tokenUsageOf = Map.empty, summarizationStatusOf = Map.empty,
     activeChatId = Some ''g1'', message = [], selectedCharId = Some ''c1'',
     settings = exSettings\<rparr>"


definition exUsage :: tokenUsage where
  "exUsage = \<lparr>inputTokens = 50, outputTokens = 7, totalTokens = 57\<rparr>"

definition cave :: groupChat where
  "cave = \<lparr>g_id = ''g3'', g_name = ''Cave'', g_description = ''Dark'',
     g_characterIds = [], g_exposition = None\<rparr>"

definition carl :: character where
  "carl = \<lparr>c_id = [], c_name = ''Carl'', c_description = ''A miner'', c_pfp_base64 = None,
     c_groupChatId = ''g3'', c_notes = [], c_quotes = [], c_knownCharacterIds = []\<rparr>"

definition oneMove :: genResult where
  "oneMove = \<lparr>r_text = Some ''Off I go.'', r_toolCalls = Some [moveCall ''Forest''],
     r_reasoning = None, r_usage = None\<rparr>"

definition twoMoves :: genResult where
  "twoMoves = \<lparr>r_text = None, r_toolCalls = Some [moveCall ''Forest'', moveCall ''Cave''],
     r_reasoning = None, r_usage = None\<rparr>"

definition exMutations :: "mutation list" where
  "exMutations =
     [CreateGroupChat ''g3'' cave,
      CreateCharacter ''c3'' carl,
      ApplyTurn 2 ''g1'' ''c1'' oneMove exIds,
      UpdateCharacter ''c3'' (emptyCharacterPatch\<lparr>pc_groupChatId := Some ''g1''\<rparr>),
      ApplyTurn 0 ''g1'' ''c3'' oneMove exIds,
      RemoveCharacterFromChat ''g2'' ''c3'',
      UpdateGroupChat ''g2'' (emptyGroupChatPatch\<lparr>pg_name := Some ''Woods''\<rparr>),
      DeleteCharacter ''c2'',
      DeleteGroupChat ''g3'']"

definition dora :: character where
  "dora = \<lparr>c_id = [], c_name = ''Dora'', c_description = ''A cook'', c_pfp_base64 = None,
     c_groupChatId = ''g1'', c_notes = [], c_quotes = [], c_knownCharacterIds = []\<rparr>"

definition staleMutations :: "mutation list" where
  "staleMutations = [CreateCharacter ''c4'' dora, ApplyTurn 1 ''g1'' ''c1'' oneMove exIds]"

definition exState3 :: appState where
  "exState3 = exState\<lparr>groupChats := [tavern, forest, cave]\<rparr>"


definition genOn :: "string \<Rightarrow> string \<Rightarrow> generateText" where
  "genOn expected t rq =
     (if rq_prompt rq = expected
      then Inr \<lparr>r_text = Some t, r_toolCalls = None, r_reasoning = None, r_usage = None\<rparr>
      else Inl (Error ''another prompt''))"

definition exPrompt :: string where
  "exPrompt = tl summaryInstructions
     @ ''Previous summary:'' @ nl @ ''Before.'' @ nl @ nl @ ''Continued conversation:''
     @ nl @ ''Stranger: a'' @ nl @ ''Stranger: b'' @ nl @ ''Stranger: c''
     @ nl @ ''Stranger: d'' @ nl @ ''Stranger: e''"

section \<open>Summarization\<close>

lemma messagesToSummarize_length:
  "length (messagesToSummarize msgs) = length (actualMessages msgs) - 5"
  by (simp add: messagesToSummarize_def slice_but_last_def RECENT_MESSAGES_TO_KEEP_def)

lemma messagesToKeep_drop:
  "messagesToKeep msgs = drop (length (actualMessages msgs) - 5) (actualMessages msgs)"
  by (simp add: messagesToKeep_def slice_last_def RECENT_MESSAGES_TO_KEEP_def)

lemma messagesToKeep_types:
  "m \<in> set (messagesToKeep msgs) \<Longrightarrow> m_type m \<noteq> MLoading \<and> m_type m \<noteq> MSummary"
  by (auto simp: messagesToKeep_drop actualMessages_def dest!: in_set_dropD)

lemma messagesToKeep_no_summary:
  "filter (\<lambda>m. m_type m = MSummary) (messagesToKeep msgs) = []"
  by (auto simp: filter_empty_conv dest: messagesToKeep_types)

lemma messagesToKeep_no_loading:
  "filter (\<lambda>m. m_type m = MLoading) (messagesToKeep msgs) = []"
  by (auto simp: filter_empty_conv dest: messagesToKeep_types)

lemma loading_no_summary:
  "filter (\<lambda>m. m_type m = MSummary) (filter (\<lambda>m. m_type m = MLoading) msgs) = []"
  by (auto simp: filter_empty_conv)

lemma join_contains:
  "x \<in> set xs \<Longrightarrow> \<exists>pre post. join sep xs = pre @ x @ post"
proof (induction sep xs rule: join.induct)
  case (1 sep)
  then show ?case by simp
next
  case (2 sep y)
  then have "join sep [y] = [] @ x @ []" by simp
  then show ?case by blast
next
  case (3 sep y z zs)
  show ?case
  proof (cases "x = y")
    case True
    then have "join sep (y # z # zs) = [] @ x @ (sep @ join sep (z # zs))" by simp
    then show ?thesis by blast
  next
    case False
    then have "x \<in> set (z # zs)" using 3(2) by simp
    then obtain pre post where "join sep (z # zs) = pre @ x @ post" using 3(1) by blast
    then have "join sep (y # z # zs) = (y @ sep @ pre) @ x @ post" by simp
    then show ?thesis by blast
  qed
qed

lemma join_first: "set x \<subseteq> set (join sep (x # xs))"
  by (cases xs) auto

lemma trim_keeps_middle:
  assumes "\<exists>c \<in> set a. \<not> is_space c" and "\<exists>c \<in> set b. \<not> is_space c"
  shows "\<exists>pre post. trim (a @ m @ b) = pre @ m @ post"
proof -
  obtain c where c: "c \<in> set a" "\<not> is_space c" using assms(1) by blast
  have 1: "dropWhile is_space (a @ m @ b) = dropWhile is_space a @ m @ b"
    using c by (rule dropWhile_append1)
  obtain d where d: "d \<in> set (rev b)" "\<not> is_space d" using assms(2) by auto
  have 2: "dropWhile is_space (rev b @ rev m @ rev (dropWhile is_space a))
                  = dropWhile is_space (rev b) @ rev m @ rev (dropWhile is_space a)"
    using d by (rule dropWhile_append1)
  have "trim (a @ m @ b) = dropWhile is_space a @ m @ rev (dropWhile is_space (rev b))"
    by (simp add: trim_def 1 2)
  then show ?thesis by blast
qed

lemma summaryInstructions_visible: "\<exists>c \<in> set summaryInstructions. \<not> is_space c"
proof -
  have "CHR ''Y'' \<in> set summaryInstructions" by (simp add: summaryInstructions_def)
  moreover have "\<not> is_space CHR ''Y''" by (simp add: is_space_def)
  ultimately show ?thesis by blast
qed

lemma conversationText_visible:
  assumes "ms \<noteq> []"
  shows "\<exists>c \<in> set (conversationText ms @ [CHR 0x0A]). \<not> is_space c"
proof -
  obtain m ms' where ms: "ms = m # ms'" using assms by (cases ms) auto
  have "CHR '':'' \<in> set ((if m_type m = MDirector then ''[Director]'' else []) @ m_sender m
          @ '': '' @ m_text m)"
    by simp
  then have "CHR '':'' \<in> set (conversationText ms)"
    using join_first unfolding conversationText_def ms by fastforce
  moreover have "\<not> is_space CHR '':''" by (simp add: is_space_def)
  ultimately show ?thesis by auto
qed

text \<open>
  C3. Let the substantive messages of a history be those that are neither summaries nor
  loading placeholders, and the candidates the substantive messages without the last five.
  \<^verbatim>\<open>summarizeOldMessages\<close> returns the history as it is when there are fewer than five
  candidates, and when the generation fails (the model cannot be configured, the call
  throws, or the result has no text). Otherwise it returns the new summary message, then
  the last five substantive messages as they are, then the loading placeholders; the new
  summary is then the only summary in the result. In every case the result has as many
  loading placeholders as the history. The generation call is made on the prompt that
  holds, after the instructions, the texts of the prior summaries (when there are any,
  between the lines \<open>Previous summary:\<close> and \<open>Continued conversation:\<close>) and then the
  candidates, one line each: with five candidates or more, trimming the prompt leaves this
  block whole, so the text of every prior summary is part of the prompt.
\<close>

theorem summarizeOldMessages_result:
  fixes msgs :: "chatMessage list" and newId generate cfg
  defines "result \<equiv> summarizeOldMessages newId generate msgs cfg"
  defines "substantive \<equiv> filter (\<lambda>m. m_type m \<noteq> MLoading \<and> m_type m \<noteq> MSummary) msgs"
  defines "summaries \<equiv> filter (\<lambda>m. m_type m = MSummary) msgs"
  defines "folded \<equiv>
     (if summaries = [] then []
      else ''Previous summary:'' @ nl @ join (nl @ nl) (map m_text summaries) @ nl @ nl
             @ ''Continued conversation:'' @ nl)"
  defines "candidateLines \<equiv>
     map (\<lambda>m. (if m_type m = MDirector then ''[Director]'' else []) @ m_sender m @ '': '' @ m_text m)
       (take (length substantive - 5) substantive)"
  defines "prompt \<equiv> trim (summaryInstructions @ folded @ join nl candidateLines @ nl)"
  defines "request \<equiv> \<lambda>mdl. \<lparr>rq_model = mdl, rq_system = None, rq_prompt = prompt,
                             rq_tools = False\<rparr>"
  defines "summary \<equiv> \<lambda>t. \<lparr>m_id = newId, m_type = MSummary, m_text = trim t,
                           m_sender = ''Summary'', m_charId = None\<rparr>"
  shows "(length substantive - 5 < 5 \<longrightarrow> result = msgs)
    \<and> ((\<exists>e. getModelInstance cfg PSummarization = Inl e) \<longrightarrow> result = msgs)
    \<and> (\<forall>mdl. getModelInstance cfg PSummarization = Inr mdl
          \<and> ((\<exists>e. generate (request mdl) = Inl e)
             \<or> (\<exists>r. generate (request mdl) = Inr r \<and> r_text r = None)) \<longrightarrow> result = msgs)
    \<and> (\<forall>mdl r t. \<not> length substantive - 5 < 5 \<and> getModelInstance cfg PSummarization = Inr mdl
          \<and> generate (request mdl) = Inr r \<and> r_text r = Some t \<longrightarrow>
          result = summary t # drop (length substantive - 5) substantive
                     @ filter (\<lambda>m. m_type m = MLoading) msgs
          \<and> length (drop (length substantive - 5) substantive) = 5
          \<and> filter (\<lambda>m. m_type m = MSummary) result = [summary t])
    \<and> length (filter (\<lambda>m. m_type m = MLoading) result)
        = length (filter (\<lambda>m. m_type m = MLoading) msgs)
    \<and> (\<not> length substantive - 5 < 5 \<longrightarrow>
         (\<exists>pre post. prompt = pre @ folded @ post)
         \<and> (\<forall>s \<in> set summaries. \<exists>pre post. prompt = pre @ m_text s @ post))"
proof -
  have sub: "actualMessages msgs = substantive"
    by (simp add: actualMessages_def substantive_def)
  have cand: "length (messagesToSummarize msgs) = length substantive - 5"
    by (simp add: messagesToSummarize_length sub)
  have keep: "messagesToKeep msgs = drop (length substantive - 5) substantive"
    by (simp add: messagesToKeep_drop sub)
  have lines: "conversationText (messagesToSummarize msgs) = join nl candidateLines"
    by (simp add: conversationText_def candidateLines_def messagesToSummarize_def
        slice_but_last_def RECENT_MESSAGES_TO_KEEP_def sub)
  have prev: "previousSummaryText (existingSummaries msgs) = folded"
    by (simp add: previousSummaryText_def existingSummaries_def folded_def summaries_def)
  have prompt: "summaryPrompt msgs = prompt"
    by (simp add: summaryPrompt_def prompt_def lines prev)
  have c1: "length substantive - 5 < 5 \<longrightarrow> result = msgs"
    by (simp add: result_def summarizeOldMessages_def cand)
  have c2: "(\<exists>e. getModelInstance cfg PSummarization = Inl e) \<longrightarrow> result = msgs"
    by (auto simp: result_def summarizeOldMessages_def)
  have c3: "\<forall>mdl. getModelInstance cfg PSummarization = Inr mdl
          \<and> ((\<exists>e. generate (request mdl) = Inl e)
             \<or> (\<exists>r. generate (request mdl) = Inr r \<and> r_text r = None)) \<longrightarrow> result = msgs"
    by (auto simp: result_def summarizeOldMessages_def request_def prompt)
  have c4: "\<forall>mdl r t. \<not> length substantive - 5 < 5 \<and> getModelInstance cfg PSummarization = Inr mdl
          \<and> generate (request mdl) = Inr r \<and> r_text r = Some t \<longrightarrow>
          result = summary t # drop (length substantive - 5) substantive
                     @ filter (\<lambda>m. m_type m = MLoading) msgs
          \<and> length (drop (length substantive - 5) substantive) = 5
          \<and> filter (\<lambda>m. m_type m = MSummary) result = [summary t]"
  proof (intro allI impI, elim conjE)
    fix mdl r t
    assume a: "\<not> length substantive - 5 < 5" "getModelInstance cfg PSummarization = Inr mdl"
      "generate (request mdl) = Inr r" "r_text r = Some t"
    have res: "result = summary t # messagesToKeep msgs @ filter (\<lambda>m. m_type m = MLoading) msgs"
      using a
      by (simp add: result_def summarizeOldMessages_def cand request_def loadingMessages_def
          summary_def prompt)
    have "filter (\<lambda>m. m_type m = MSummary) result = [summary t]"
      by (simp add: res messagesToKeep_no_summary loading_no_summary) (simp add: summary_def)
    moreover have "length (drop (length substantive - 5) substantive) = 5"
      using a(1) by simp
    ultimately show "result = summary t # drop (length substantive - 5) substantive
                     @ filter (\<lambda>m. m_type m = MLoading) msgs
          \<and> length (drop (length substantive - 5) substantive) = 5
          \<and> filter (\<lambda>m. m_type m = MSummary) result = [summary t]"
      using res keep by simp
  qed
  have c5: "length (filter (\<lambda>m. m_type m = MLoading) result)
        = length (filter (\<lambda>m. m_type m = MLoading) msgs)"
    by (auto simp: result_def summarizeOldMessages_def loadingMessages_def
        messagesToKeep_no_loading split: sum.splits option.splits)
  have c6: "\<not> length substantive - 5 < 5 \<longrightarrow>
         (\<exists>pre post. prompt = pre @ folded @ post)
         \<and> (\<forall>s \<in> set summaries. \<exists>pre post. prompt = pre @ m_text s @ post)"
  proof
    assume many: "\<not> length substantive - 5 < 5"
    then have "messagesToSummarize msgs \<noteq> []" using cand by auto
    then have "\<exists>c \<in> set (join nl candidateLines @ nl). \<not> is_space c"
      using conversationText_visible lines by metis
    then have whole: "\<exists>pre post. prompt = pre @ folded @ post"
      unfolding prompt_def using trim_keeps_middle summaryInstructions_visible by blast
    have "\<exists>pre post. prompt = pre @ m_text s @ post" if s: "s \<in> set summaries" for s
    proof -
      obtain pre post where p: "prompt = pre @ folded @ post" using whole by blast
      have "m_text s \<in> set (map m_text summaries)" using s by simp
      then obtain pre' post' where "join (nl @ nl) (map m_text summaries) = pre' @ m_text s @ post'"
        using join_contains by blast
      moreover have "summaries \<noteq> []" using s by auto
      ultimately have "folded = (''Previous summary:'' @ nl @ pre') @ m_text s
                         @ (post' @ nl @ nl @ ''Continued conversation:'' @ nl)"
        by (simp add: folded_def)
      then have "prompt = (pre @ ''Previous summary:'' @ nl @ pre') @ m_text s
                         @ (post' @ nl @ nl @ ''Continued conversation:'' @ nl) @ post"
        using p by simp
      then show ?thesis by blast
    qed
    then show "(\<exists>pre post. prompt = pre @ folded @ post)
         \<and> (\<forall>s \<in> set summaries. \<exists>pre post. prompt = pre @ m_text s @ post)"
      using whole by blast
  qed
  show ?thesis using c1 c2 c3 c4 c5 c6 by blast
qed

lemma exHistory_substantive:
  "filter (\<lambda>m. m_type m \<noteq> MLoading \<and> m_type m \<noteq> MSummary) exHistory =
     [userMsg ''u0'' ''a'', userMsg ''u1'' ''b'', userMsg ''u2'' ''c'', userMsg ''u3'' ''d'',
      userMsg ''u4'' ''e'', userMsg ''u5'' ''f'', userMsg ''u6'' ''g'', userMsg ''u7'' ''h'',
      userMsg ''u8'' ''i'', userMsg ''u9'' ''j'']"
  by (simp add: exHistory_def userMsg_def)

lemma trim_Recap: "trim ''Recap.'' = ''Recap.''"
  by (simp add: trim_def is_space_def)

theorem summarizeOldMessages_result_witness:
  "summarizeOldMessages ''sm'' (genOn exPrompt ''Recap.'') exHistory exSettings =
     [\<lparr>m_id = ''sm'', m_type = MSummary, m_text = ''Recap.'', m_sender = ''Summary'',
       m_charId = None\<rparr>,
      userMsg ''u5'' ''f'', userMsg ''u6'' ''g'', userMsg ''u7'' ''h'', userMsg ''u8'' ''i'',
      userMsg ''u9'' ''j'',
      \<lparr>m_id = ''l0'', m_type = MLoading, m_text = [], m_sender = ''Bob'', m_charId = Some ''c2''\<rparr>]
   \<and> summarizeOldMessages ''sm'' genFail exHistory exSettings = exHistory
   \<and> summarizeOldMessages ''sm'' (genSays (Some ''Recap.'') None None) (take 9 exHistory) exSettings
       = take 9 exHistory"
proof -
  have m: "getModelInstance exSettings PSummarization
             = Inr \<lparr>mi_provider = OpenAI, mi_apiKey = ''key'', mi_model = ''m''\<rparr>"
    by (simp add: getModelInstance_def getModelForPurpose_def exSettings_def trim_def)
  have l: "filter (\<lambda>m. m_type m = MLoading) exHistory =
      [\<lparr>m_id = ''l0'', m_type = MLoading, m_text = [], m_sender = ''Bob'', m_charId = Some ''c2''\<rparr>]"
    by (simp add: exHistory_def userMsg_def)
  have s9: "length (filter (\<lambda>m. m_type m \<noteq> MLoading \<and> m_type m \<noteq> MSummary) (take 9 exHistory)) = 7"
    by (simp add: exHistory_def userMsg_def)
  have p: "trim (summaryInstructions
       @ (if filter (\<lambda>m. m_type m = MSummary) exHistory = [] then []
          else ''Previous summary:'' @ nl
                 @ join (nl @ nl) (map m_text (filter (\<lambda>m. m_type m = MSummary) exHistory))
                 @ nl @ nl @ ''Continued conversation:'' @ nl)
       @ join nl
           (map (\<lambda>m. (if m_type m = MDirector then ''[Director]'' else []) @ m_sender m @ '': ''
                       @ m_text m)
              (take (length (filter (\<lambda>m. m_type m \<noteq> MLoading \<and> m_type m \<noteq> MSummary) exHistory) - 5)
                 (filter (\<lambda>m. m_type m \<noteq> MLoading \<and> m_type m \<noteq> MSummary) exHistory)))
       @ nl) = exPrompt"
    by code_simp
  have 1: "summarizeOldMessages ''sm'' (genOn exPrompt ''Recap.'') exHistory exSettings =
     [\<lparr>m_id = ''sm'', m_type = MSummary, m_text = ''Recap.'', m_sender = ''Summary'',
       m_charId = None\<rparr>,
      userMsg ''u5'' ''f'', userMsg ''u6'' ''g'', userMsg ''u7'' ''h'', userMsg ''u8'' ''i'',
      userMsg ''u9'' ''j'',
      \<lparr>m_id = ''l0'', m_type = MLoading, m_text = [], m_sender = ''Bob'', m_charId = Some ''c2''\<rparr>]"
    using summarizeOldMessages_result
      [where msgs = exHistory and cfg = exSettings
         and generate = "genOn exPrompt ''Recap.''" and newId = "''sm''"]
    unfolding p
    by (simp add: m exHistory_substantive l genOn_def trim_Recap)
  have 2: "summarizeOldMessages ''sm'' genFail exHistory exSettings = exHistory"
    using summarizeOldMessages_result [where msgs = exHistory and cfg = exSettings and generate = genFail and newId = "''sm''"]
    by (simp add: m genFail_def)
  have 3: "summarizeOldMessages ''sm'' (genSays (Some ''Recap.'') None None) (take 9 exHistory)
             exSettings = take 9 exHistory"
    using summarizeOldMessages_result
      [where msgs = "take 9 exHistory" and cfg = exSettings
         and generate = "genSays (Some ''Recap.'') None None" and newId = "''sm''"]
    by (simp add: s9)
  show ?thesis using 1 2 3 by simp
qed

section \<open>Character turns\<close>

lemma hasKeys_empty [simp]: "\<not> hasKeys emptyCharacterPatch"
  by (simp add: hasKeys_def)

lemma hasKeys_groupChatId [simp]: "hasKeys (emptyCharacterPatch\<lparr>pc_groupChatId := Some x\<rparr>)"
  by (simp add: hasKeys_def emptyCharacterPatch_def)

lemma exIds_0: "exIds 0 = ''i''"
  by (simp add: exIds_def)

lemma trim_empty [simp]: "trim [] = []"
  by (simp add: trim_def)

lemma trim_blank: "trim ''  '' = []"
  by (simp add: trim_def is_space_def)

text \<open>
  C8. A generation result without tool calls whose text is missing or empty after trimming
  yields no message when it has reasoning content, and yields exactly the one fallback
  message \<open>*{name} is thinking...*\<close>, of type character, when it has none.
\<close>

theorem reasoning_only_turn_is_silent:
  assumes "r_toolCalls result = None \<or> r_toolCalls result = Some []"
    and "r_text result = None \<or> (\<exists>t. r_text result = Some t \<and> trim t = [])"
  shows "(\<forall>rs. r_reasoning result = Some rs \<and> rs \<noteq> [] \<longrightarrow>
            tr_messages (processCharacterTurnResult gid result character groupChat allGroupChats) = [])
       \<and> (r_reasoning result = None \<or> r_reasoning result = Some [] \<longrightarrow>
            tr_messages (processCharacterTurnResult gid result character groupChat allGroupChats)
              = [\<lparr>m_id = gid 0, m_type = MCharacter,
                  m_text = ''*'' @ c_name character @ '' is thinking...*'',
                  m_sender = c_name character, m_charId = Some (c_id character)\<rparr>])"
  using assms
  by (auto simp: processCharacterTurnResult_def hasReasoning_def initialAcc_def pushMessage_def
      characterMessage_def Let_def)

theorem reasoning_only_turn_is_silent_witness:
  "tr_messages (processCharacterTurnResult exIds
      \<lparr>r_text = Some ''  '', r_toolCalls = Some [], r_reasoning = Some [''Hm.''], r_usage = None\<rparr>
      ann tavern [tavern, forest]) = []
   \<and> tr_messages (processCharacterTurnResult exIds
      \<lparr>r_text = Some ''  '', r_toolCalls = Some [], r_reasoning = Some [], r_usage = None\<rparr>
      ann tavern [tavern, forest])
     = [\<lparr>m_id = ''i'', m_type = MCharacter, m_text = ''*Ann is thinking...*'', m_sender = ''Ann'',
         m_charId = Some ''c1''\<rparr>]"
proof -
  have 1: "tr_messages (processCharacterTurnResult exIds
      \<lparr>r_text = Some ''  '', r_toolCalls = Some [], r_reasoning = Some [''Hm.''], r_usage = None\<rparr>
      ann tavern [tavern, forest]) = []"
    using reasoning_only_turn_is_silent
      [where result = "\<lparr>r_text = Some ''  '', r_toolCalls = Some [], r_reasoning = Some [''Hm.''],
                         r_usage = None\<rparr>"
         and gid = exIds and character = ann and groupChat = tavern
         and allGroupChats = "[tavern, forest]"]
    by (simp add: trim_blank)
  have 2: "tr_messages (processCharacterTurnResult exIds
      \<lparr>r_text = Some ''  '', r_toolCalls = Some [], r_reasoning = Some [], r_usage = None\<rparr>
      ann tavern [tavern, forest])
     = [\<lparr>m_id = ''i'', m_type = MCharacter, m_text = ''*Ann is thinking...*'', m_sender = ''Ann'',
         m_charId = Some ''c1''\<rparr>]"
    using reasoning_only_turn_is_silent
      [where result = "\<lparr>r_text = Some ''  '', r_toolCalls = Some [], r_reasoning = Some [],
                         r_usage = None\<rparr>"
         and gid = exIds and character = ann and groupChat = tavern
         and allGroupChats = "[tavern, forest]"]
    by (simp add: trim_blank exIds_0 ann_def)
  show ?thesis using 1 2 by simp
qed

text \<open>
  C9. \<^verbatim>\<open>buildCatchupBlock\<close> never returns the empty string; when the text joined from the
  catch-up parts is empty and there is no nudge (none, or an empty one), the result starts
  with the take-initiative directive.
\<close>

theorem buildCatchupBlock_nonempty:
  "buildCatchupBlock msgs characterName cfg directorNudge \<noteq> []
   \<and> (catchupText msgs characterName = [] \<and> (directorNudge = None \<or> directorNudge = Some [])
        \<longrightarrow> take (length takeInitiative)
              (buildCatchupBlock msgs characterName cfg directorNudge) = takeInitiative)"
  by (auto simp add: buildCatchupBlock_def Let_def takeInitiative_def split: option.splits)

lemma catchupText_Nil: "catchupText [] n = []"
  by (simp add: catchupText_def catchupMessages_def getMessagesForContext_def slice_last_def Let_def)

theorem buildCatchupBlock_nonempty_witness:
  "buildCatchupBlock [] ''Ann'' exSettings None \<noteq> []
   \<and> take (length takeInitiative) (buildCatchupBlock [] ''Ann'' exSettings None) = takeInitiative"
  using buildCatchupBlock_nonempty [of "[]" "''Ann''" exSettings None]
  by (simp add: catchupText_Nil)

lemma executeCharacterTurn_caught:
  "executeCharacterTurn_try gid faults generate character groupChat allCharacters allGroupChats
     msgs cfg nudge = Inl e \<Longrightarrow>
   executeCharacterTurn gid faults generate character groupChat allCharacters allGroupChats
     msgs cfg nudge = turnError gid character e"
  by (simp add: executeCharacterTurn_def)

text \<open>
  C5. Whatever is thrown in the \<^verbatim>\<open>try\<close> block of \<^verbatim>\<open>executeCharacterTurn\<close> is caught:
  an exception during persona assembly; otherwise one during catch-up construction;
  otherwise the failure to configure the model; otherwise one thrown by the generation call
  on the request built from the two strings. In each case the function returns a result (it
  does not throw) that holds exactly one message, of type character, with the error text in
  parentheses; the result has no character update, no location updates, no stranger label
  and no usage. The message of an \<^verbatim>\<open>Error\<close> is reported as it is, anything else thrown as
  \<open>Unknown error\<close>.
\<close>

theorem executeCharacterTurn_failure:
  fixes gid faults generate character groupChat allCharacters allGroupChats msgs cfg directorNudge e
  defines "turn \<equiv> executeCharacterTurn gid faults generate character groupChat allCharacters
                    allGroupChats msgs cfg directorNudge"
  defines "request \<equiv> \<lambda>mdl.
     \<lparr>rq_model = mdl,
      rq_system = Some (buildSystemInstruction character groupChat allCharacters allGroupChats cfg),
      rq_prompt = buildCatchupBlock msgs (c_name character) cfg directorNudge,
      rq_tools = True\<rparr>"
  defines "reported \<equiv>
     \<lparr>tr_messages = [\<lparr>m_id = gid 0, m_type = MCharacter,
                       m_text = ''(An error occurred: '' @ errorMessageOf e @ '')'',
                       m_sender = c_name character, m_charId = Some (c_id character)\<rparr>],
      tr_characterUpdates = None, tr_groupChatUpdates = None, tr_strangerLabel = None,
      tr_error = Some (errorMessageOf e), tr_usage = None\<rparr>"
  shows "(f_persona faults = Some e \<longrightarrow> turn = reported)
     \<and> (f_persona faults = None \<and> f_catchup faults = Some e \<longrightarrow> turn = reported)
     \<and> (f_persona faults = None \<and> f_catchup faults = None
          \<and> getModelInstance cfg PCharacter = Inl e \<longrightarrow> turn = reported)
     \<and> (\<forall>mdl. f_persona faults = None \<and> f_catchup faults = None
          \<and> getModelInstance cfg PCharacter = Inr mdl \<and> generate (request mdl) = Inl e \<longrightarrow>
          turn = reported)
     \<and> (executeCharacterTurn_try gid faults generate character groupChat allCharacters
           allGroupChats msgs cfg directorNudge = Inl e \<longrightarrow> turn = reported)"
proof -
  have err: "turnError gid character e = reported"
    by (simp add: turnError_def reported_def Let_def)
  have caught: "executeCharacterTurn_try gid faults generate character groupChat allCharacters
           allGroupChats msgs cfg directorNudge = Inl e \<Longrightarrow> turn = reported"
    unfolding turn_def using executeCharacterTurn_caught err by metis
  have 1: "f_persona faults = Some e \<longrightarrow> turn = reported"
    by (auto intro!: caught simp: executeCharacterTurn_try_def attempt_def)
  have 2: "f_persona faults = None \<and> f_catchup faults = Some e \<longrightarrow> turn = reported"
    by (auto intro!: caught simp: executeCharacterTurn_try_def attempt_def)
  have 3: "f_persona faults = None \<and> f_catchup faults = None
          \<and> getModelInstance cfg PCharacter = Inl e \<longrightarrow> turn = reported"
    by (auto intro!: caught simp: executeCharacterTurn_try_def attempt_def)
  have 4: "\<forall>mdl. f_persona faults = None \<and> f_catchup faults = None
          \<and> getModelInstance cfg PCharacter = Inr mdl \<and> generate (request mdl) = Inl e \<longrightarrow>
          turn = reported"
    by (auto intro!: caught simp: executeCharacterTurn_try_def attempt_def request_def)
  show ?thesis using 1 2 3 4 caught by blast
qed

lemma exSettings_model:
  "getModelInstance exSettings PCharacter
     = Inr \<lparr>mi_provider = OpenAI, mi_apiKey = ''key'', mi_model = ''m''\<rparr>"
  by (simp add: getModelInstance_def getModelForPurpose_def exSettings_def)

lemma exSettingsNoKey_model:
  "getModelInstance exSettingsNoKey PCharacter
     = Inl (Error ''API key required for provider: openai'')"
  by (simp add: getModelInstance_def exSettingsNoKey_def exSettings_def providerName_def)

theorem executeCharacterTurn_failure_witness:
  "executeCharacterTurn exIds (noFaults\<lparr>f_persona := Some (Error ''notes is undefined'')\<rparr>)
       (genSays (Some ''Hello.'') None None) ann tavern [ann, bob] [tavern, forest] []
       exSettings None
     = \<lparr>tr_messages = [\<lparr>m_id = ''i'', m_type = MCharacter,
                        m_text = ''(An error occurred: notes is undefined)'',
                        m_sender = ''Ann'', m_charId = Some ''c1''\<rparr>],
        tr_characterUpdates = None, tr_groupChatUpdates = None, tr_strangerLabel = None,
        tr_error = Some ''notes is undefined'', tr_usage = None\<rparr>
   \<and> executeCharacterTurn exIds (noFaults\<lparr>f_catchup := Some OtherThrown\<rparr>)
       (genSays (Some ''Hello.'') None None) ann tavern [ann, bob] [tavern, forest] []
       exSettings None
     = \<lparr>tr_messages = [\<lparr>m_id = ''i'', m_type = MCharacter,
                        m_text = ''(An error occurred: Unknown error)'',
                        m_sender = ''Ann'', m_charId = Some ''c1''\<rparr>],
        tr_characterUpdates = None, tr_groupChatUpdates = None, tr_strangerLabel = None,
        tr_error = Some ''Unknown error'', tr_usage = None\<rparr>
   \<and> executeCharacterTurn exIds noFaults genFail ann tavern [ann, bob] [tavern, forest] []
       exSettings None
     = \<lparr>tr_messages = [\<lparr>m_id = ''i'', m_type = MCharacter,
                        m_text = ''(An error occurred: offline)'',
                        m_sender = ''Ann'', m_charId = Some ''c1''\<rparr>],
        tr_characterUpdates = None, tr_groupChatUpdates = None, tr_strangerLabel = None,
        tr_error = Some ''offline'', tr_usage = None\<rparr>
   \<and> executeCharacterTurn exIds noFaults (genSays (Some ''Hello.'') None None) ann tavern
       [ann, bob] [tavern, forest] [] exSettingsNoKey None
     = \<lparr>tr_messages = [\<lparr>m_id = ''i'', m_type = MCharacter,
                        m_text = ''(An error occurred: API key required for provider: openai)'',
                        m_sender = ''Ann'', m_charId = Some ''c1''\<rparr>],
        tr_characterUpdates = None, tr_groupChatUpdates = None, tr_strangerLabel = None,
        tr_error = Some ''API key required for provider: openai'', tr_usage = None\<rparr>"
proof -
  note facts = noFaults_def exSettings_model exSettingsNoKey_model genFail_def errorMessageOf_def
    exIds_0 ann_def
  have 1: "executeCharacterTurn exIds (noFaults\<lparr>f_persona := Some (Error ''notes is undefined'')\<rparr>)
       (genSays (Some ''Hello.'') None None) ann tavern [ann, bob] [tavern, forest] []
       exSettings None
     = \<lparr>tr_messages = [\<lparr>m_id = ''i'', m_type = MCharacter,
                        m_text = ''(An error occurred: notes is undefined)'',
                        m_sender = ''Ann'', m_charId = Some ''c1''\<rparr>],
        tr_characterUpdates = None, tr_groupChatUpdates = None, tr_strangerLabel = None,
        tr_error = Some ''notes is undefined'', tr_usage = None\<rparr>"
    using executeCharacterTurn_failure
      [where faults = "noFaults\<lparr>f_persona := Some (Error ''notes is undefined'')\<rparr>"
         and e = "Error ''notes is undefined''" and gid = exIds and character = ann]
    by (simp add: facts)
  have 2: "executeCharacterTurn exIds (noFaults\<lparr>f_catchup := Some OtherThrown\<rparr>)
       (genSays (Some ''Hello.'') None None) ann tavern [ann, bob] [tavern, forest] []
       exSettings None
     = \<lparr>tr_messages = [\<lparr>m_id = ''i'', m_type = MCharacter,
                        m_text = ''(An error occurred: Unknown error)'',
                        m_sender = ''Ann'', m_charId = Some ''c1''\<rparr>],
        tr_characterUpdates = None, tr_groupChatUpdates = None, tr_strangerLabel = None,
        tr_error = Some ''Unknown error'', tr_usage = None\<rparr>"
    using executeCharacterTurn_failure
      [where faults = "noFaults\<lparr>f_catchup := Some OtherThrown\<rparr>"
         and e = OtherThrown and gid = exIds and character = ann]
    by (simp add: facts)
  have 3: "executeCharacterTurn exIds noFaults genFail ann tavern [ann, bob] [tavern, forest] []
       exSettings None
     = \<lparr>tr_messages = [\<lparr>m_id = ''i'', m_type = MCharacter,
                        m_text = ''(An error occurred: offline)'',
                        m_sender = ''Ann'', m_charId = Some ''c1''\<rparr>],
        tr_characterUpdates = None, tr_groupChatUpdates = None, tr_strangerLabel = None,
        tr_error = Some ''offline'', tr_usage = None\<rparr>"
    using executeCharacterTurn_failure
      [where faults = noFaults and cfg = exSettings and generate = genFail
         and e = "Error ''offline''" and gid = exIds and character = ann]
    by (simp add: facts)
  have 4: "executeCharacterTurn exIds noFaults (genSays (Some ''Hello.'') None None) ann tavern
       [ann, bob] [tavern, forest] [] exSettingsNoKey None
     = \<lparr>tr_messages = [\<lparr>m_id = ''i'', m_type = MCharacter,
                        m_text = ''(An error occurred: API key required for provider: openai)'',
                        m_sender = ''Ann'', m_charId = Some ''c1''\<rparr>],
        tr_characterUpdates = None, tr_groupChatUpdates = None, tr_strangerLabel = None,
        tr_error = Some ''API key required for provider: openai'', tr_usage = None\<rparr>"
    using executeCharacterTurn_failure
      [where faults = noFaults and cfg = exSettingsNoKey
         and e = "Error ''API key required for provider: openai''" and gid = exIds
         and character = ann]
    by (simp add: facts)
  show ?thesis using 1 2 3 4 by simp
qed

section \<open>The relocation tool\<close>

lemma processToolCalls_append:
  "processToolCalls gid ch chat gcs (xs @ ys) acc
     = processToolCalls gid ch chat gcs ys (processToolCalls gid ch chat gcs xs acc)"
  by (induction xs arbitrary: acc) simp_all

lemma processToolCall_other:
  assumes "toolName tc \<noteq> ''moveToLocation''"
  shows "pc_id (characterUpdates (processToolCall gid ch chat gcs tc acc)) = pc_id (characterUpdates acc)"
    and "pc_groupChatId (characterUpdates (processToolCall gid ch chat gcs tc acc))
           = pc_groupChatId (characterUpdates acc)"
    and "groupChatUpdates (processToolCall gid ch chat gcs tc acc) = groupChatUpdates acc"
  using assms
  by (simp_all add: processToolCall_def makeNote_def labelStranger_def pushMessage_def
      split: option.splits)

lemma processToolCall_other_narration:
  assumes "toolName tc \<noteq> ''moveToLocation''"
  shows "narrationCount (newMessages (processToolCall gid ch chat gcs tc acc))
           = narrationCount (newMessages acc)"
  using assms
  by (simp add: processToolCall_def makeNote_def labelStranger_def pushMessage_def
      narrationCount_def characterMessage_def split: option.splits)

lemma processToolCalls_no_moves_clean:
  assumes "\<forall>tc \<in> set tcs. toolName tc \<noteq> ''moveToLocation''"
  shows "pc_id (characterUpdates (processToolCalls gid ch chat gcs tcs acc)) = pc_id (characterUpdates acc)
    \<and> pc_groupChatId (characterUpdates (processToolCalls gid ch chat gcs tcs acc))
           = pc_groupChatId (characterUpdates acc)
    \<and> groupChatUpdates (processToolCalls gid ch chat gcs tcs acc) = groupChatUpdates acc"
  using assms by (induction tcs arbitrary: acc) (simp_all add: processToolCall_other)

lemma processToolCalls_no_moves_narration:
  assumes "\<forall>tc \<in> set tcs. toolName tc \<noteq> ''moveToLocation''"
  shows "narrationCount (newMessages (processToolCalls gid ch chat gcs tcs acc))
           = narrationCount (newMessages acc)"
  using assms by (induction tcs arbitrary: acc) (simp_all add: processToolCall_other_narration)

text \<open>What a turn's result shows of the accumulator that the tool calls leave.\<close>

lemma processCharacterTurnResult_fields:
  fixes gid ch chat gcs tcs r
  assumes "r_toolCalls r = Some tcs"
  defines "acc \<equiv> processToolCalls gid ch chat gcs tcs initialAcc"
  shows "tr_groupChatUpdates (processCharacterTurnResult gid r ch chat gcs)
           = (if groupChatUpdates acc = [] then None else Some (groupChatUpdates acc))"
    and "stagedGroupChatId (processCharacterTurnResult gid r ch chat gcs)
           = pc_groupChatId (characterUpdates acc)"
    and "narrationCount (tr_messages (processCharacterTurnResult gid r ch chat gcs))
           = narrationCount (newMessages acc)"
proof -
  show "tr_groupChatUpdates (processCharacterTurnResult gid r ch chat gcs)
           = (if groupChatUpdates acc = [] then None else Some (groupChatUpdates acc))"
    using assms(1)
    by (simp add: processCharacterTurnResult_def Let_def acc_def pushMessage_def)
  have "pc_groupChatId (characterUpdates acc) = None" if "\<not> hasKeys (characterUpdates acc)"
    using that by (simp add: hasKeys_def emptyCharacterPatch_def)
  then show "stagedGroupChatId (processCharacterTurnResult gid r ch chat gcs)
           = pc_groupChatId (characterUpdates acc)"
    using assms(1)
    by (simp add: stagedGroupChatId_def processCharacterTurnResult_def Let_def acc_def
        pushMessage_def)
  show "narrationCount (tr_messages (processCharacterTurnResult gid r ch chat gcs))
           = narrationCount (newMessages acc)"
    using assms(1)
    by (simp add: processCharacterTurnResult_def Let_def acc_def pushMessage_def
        narrationCount_def characterMessage_def)
qed

lemma count_list_filter_out: "count_list (filter (\<lambda>i. i \<noteq> c) xs) c = 0"
  by (induction xs) auto

text \<open>
  C4, as the code has it. Take a turn with exactly one relocation call, among any other
  tool calls, that names the destination \<open>destName\<close>. If the name is empty, the call is
  skipped: the result stages no location update, no change of \<open>groupChatId\<close>, and has no
  narration message. If the name is not empty there is exactly one narration message, and:
  if it is the name of the location that the character's \<open>groupChatId\<close> names, or of no
  location, the result stages no location update and no change of \<open>groupChatId\<close>; if it is
  the name of another location, the character update sets \<open>groupChatId\<close> to the
  destination's id and the result stages, for the destination, its members without the
  character followed by the character and, before that, for the location passed as the
  current one unless it is the destination itself, its members without the character. When
  the location passed as the current one is the one that the character's \<open>groupChatId\<close>
  names, these are exactly two location updates, in this order (the character is in the
  first list not at all and in the second exactly once). The function is total: no
  destination makes it fail.
\<close>

theorem moveToLocation_outcomes:
  fixes gid allGroupChats character groupChat result earlier later call inp destName
  defines "res \<equiv> processCharacterTurnResult gid result character groupChat allGroupChats"
  defines "leaving \<equiv> filter (\<lambda>i. i \<noteq> c_id character) (g_characterIds groupChat)"
  defines "arriving \<equiv> \<lambda>dest. filter (\<lambda>i. i \<noteq> c_id character) (g_characterIds dest)
                              @ [c_id character]"
  assumes calls: "r_toolCalls result = Some (earlier @ [call] @ later)"
    and single: "\<forall>tc \<in> set (earlier @ later). toolName tc \<noteq> ''moveToLocation''"
    and call: "toolName call = ''moveToLocation''" "tc_input call = Some inp"
      "ti_locationName inp = Some destName"
  shows "(destName = [] \<longrightarrow>
           tr_groupChatUpdates res = None \<and> stagedGroupChatId res = None
           \<and> narrationCount (tr_messages res) = 0)
      \<and> (\<forall>dest. destName \<noteq> [] \<and> find (\<lambda>gc. g_name gc = destName) allGroupChats = Some dest
             \<and> g_id dest = c_groupChatId character \<longrightarrow>
           tr_groupChatUpdates res = None \<and> stagedGroupChatId res = None
           \<and> narrationCount (tr_messages res) = 1)
      \<and> (destName \<noteq> [] \<and> find (\<lambda>gc. g_name gc = destName) allGroupChats = None \<longrightarrow>
           tr_groupChatUpdates res = None \<and> stagedGroupChatId res = None
           \<and> narrationCount (tr_messages res) = 1)
      \<and> (\<forall>dest. destName \<noteq> [] \<and> find (\<lambda>gc. g_name gc = destName) allGroupChats = Some dest
             \<and> g_id dest \<noteq> c_groupChatId character \<longrightarrow>
           tr_groupChatUpdates res =
             Some (if g_id groupChat = g_id dest
                   then [(g_id dest, emptyGroupChatPatch\<lparr>pg_characterIds := Some (arriving dest)\<rparr>)]
                   else [(g_id groupChat, emptyGroupChatPatch\<lparr>pg_characterIds := Some leaving\<rparr>),
                         (g_id dest, emptyGroupChatPatch\<lparr>pg_characterIds := Some (arriving dest)\<rparr>)])
           \<and> (g_id groupChat = c_groupChatId character \<longrightarrow>
                tr_groupChatUpdates res =
                  Some [(g_id groupChat, emptyGroupChatPatch\<lparr>pg_characterIds := Some leaving\<rparr>),
                        (g_id dest, emptyGroupChatPatch\<lparr>pg_characterIds := Some (arriving dest)\<rparr>)])
           \<and> c_id character \<notin> set leaving
           \<and> count_list (arriving dest) (c_id character) = 1
           \<and> stagedGroupChatId res = Some (g_id dest)
           \<and> narrationCount (tr_messages res) = 1)"
proof -
  define T where "T = processToolCalls gid character groupChat allGroupChats"
  define acc0 where "acc0 = T earlier initialAcc"
  define acc1 where "acc1 = moveToLocation gid character groupChat allGroupChats inp acc0"
  define acc2 where "acc2 = T later acc1"
  have e: "\<forall>tc \<in> set earlier. toolName tc \<noteq> ''moveToLocation''"
    and l: "\<forall>tc \<in> set later. toolName tc \<noteq> ''moveToLocation''"
    using single by auto
  have acc0: "groupChatUpdates acc0 = []" "pc_groupChatId (characterUpdates acc0) = None"
    "narrationCount (newMessages acc0) = 0"
    unfolding acc0_def T_def
    using processToolCalls_no_moves_clean [OF e] processToolCalls_no_moves_narration [OF e]
    by (simp_all add: initialAcc_def emptyCharacterPatch_def narrationCount_def)
  have step: "processToolCall gid character groupChat allGroupChats call acc0 = acc1"
    using call by (simp add: processToolCall_def acc1_def)
  have all: "T (earlier @ [call] @ later) initialAcc = acc2"
    by (simp add: T_def processToolCalls_append acc2_def acc0_def step [unfolded acc0_def T_def])
  have acc2: "groupChatUpdates acc2 = groupChatUpdates acc1"
    "pc_groupChatId (characterUpdates acc2) = pc_groupChatId (characterUpdates acc1)"
    "narrationCount (newMessages acc2) = narrationCount (newMessages acc1)"
    unfolding acc2_def T_def
    using processToolCalls_no_moves_clean [OF l] processToolCalls_no_moves_narration [OF l]
    by simp_all
  have res: "tr_groupChatUpdates res
           = (if groupChatUpdates acc1 = [] then None else Some (groupChatUpdates acc1))"
    "stagedGroupChatId res = pc_groupChatId (characterUpdates acc1)"
    "narrationCount (tr_messages res) = narrationCount (newMessages acc1)"
    using processCharacterTurnResult_fields [OF calls, of gid character groupChat allGroupChats]
    unfolding res_def all [unfolded T_def] acc2 by simp_all
  have 1: "destName = [] \<longrightarrow>
           tr_groupChatUpdates res = None \<and> stagedGroupChatId res = None
           \<and> narrationCount (tr_messages res) = 0"
    unfolding res acc1_def using call(3) acc0 by (simp add: moveToLocation_def)
  have 2: "\<forall>dest. destName \<noteq> [] \<and> find (\<lambda>gc. g_name gc = destName) allGroupChats = Some dest
             \<and> g_id dest = c_groupChatId character \<longrightarrow>
           tr_groupChatUpdates res = None \<and> stagedGroupChatId res = None
           \<and> narrationCount (tr_messages res) = 1"
    unfolding res acc1_def using call(3) acc0
    by (simp add: moveToLocation_def pushMessage_def narration_def narrationCount_def)
  have 3: "destName \<noteq> [] \<and> find (\<lambda>gc. g_name gc = destName) allGroupChats = None \<longrightarrow>
           tr_groupChatUpdates res = None \<and> stagedGroupChatId res = None
           \<and> narrationCount (tr_messages res) = 1"
    unfolding res acc1_def using call(3) acc0
    by (simp add: moveToLocation_def pushMessage_def narration_def narrationCount_def)
  have 4: "tr_groupChatUpdates res =
             Some (if g_id groupChat = g_id dest
                   then [(g_id dest, emptyGroupChatPatch\<lparr>pg_characterIds := Some (arriving dest)\<rparr>)]
                   else [(g_id groupChat, emptyGroupChatPatch\<lparr>pg_characterIds := Some leaving\<rparr>),
                         (g_id dest, emptyGroupChatPatch\<lparr>pg_characterIds := Some (arriving dest)\<rparr>)])
           \<and> (g_id groupChat = c_groupChatId character \<longrightarrow>
                tr_groupChatUpdates res =
                  Some [(g_id groupChat, emptyGroupChatPatch\<lparr>pg_characterIds := Some leaving\<rparr>),
                        (g_id dest, emptyGroupChatPatch\<lparr>pg_characterIds := Some (arriving dest)\<rparr>)])
           \<and> c_id character \<notin> set leaving
           \<and> count_list (arriving dest) (c_id character) = 1
           \<and> stagedGroupChatId res = Some (g_id dest)
           \<and> narrationCount (tr_messages res) = 1"
    if "destName \<noteq> []" "find (\<lambda>gc. g_name gc = destName) allGroupChats = Some dest"
      "g_id dest \<noteq> c_groupChatId character" for dest
    unfolding res acc1_def using call(3) acc0 that
    by (auto simp: moveToLocation_def pushMessage_def narration_def narrationCount_def
        leaving_def arriving_def count_list_filter_out)
  show ?thesis using 1 2 3 4 by blast
qed

theorem moveToLocation_outcomes_witness:
  "(let res = processCharacterTurnResult exIds
       \<lparr>r_text = None, r_toolCalls = Some [noteCall ''Bob sings'', moveCall ''Forest''],
        r_reasoning = None, r_usage = None\<rparr>
       ann tavern [tavern, forest]
    in tr_groupChatUpdates res =
         Some [(''g1'', emptyGroupChatPatch\<lparr>pg_characterIds := Some []\<rparr>),
               (''g2'', emptyGroupChatPatch\<lparr>pg_characterIds := Some [''c2'', ''c1'']\<rparr>)]
       \<and> stagedGroupChatId res = Some ''g2''
       \<and> narrationCount (tr_messages res) = 1)
   \<and> (let res = processCharacterTurnResult exIds
       \<lparr>r_text = None, r_toolCalls = Some [moveCall ''Tavern''], r_reasoning = None, r_usage = None\<rparr>
       ann tavern [tavern, forest]
    in tr_groupChatUpdates res = None \<and> stagedGroupChatId res = None
       \<and> narrationCount (tr_messages res) = 1)
   \<and> (let res = processCharacterTurnResult exIds
       \<lparr>r_text = None, r_toolCalls = Some [moveCall ''Moon''], r_reasoning = None, r_usage = None\<rparr>
       ann tavern [tavern, forest]
    in tr_groupChatUpdates res = None \<and> stagedGroupChatId res = None
       \<and> narrationCount (tr_messages res) = 1)
   \<and> (let res = processCharacterTurnResult exIds
       \<lparr>r_text = None, r_toolCalls = Some [moveCall []], r_reasoning = None, r_usage = None\<rparr>
       ann tavern [tavern, forest]
    in tr_groupChatUpdates res = None \<and> stagedGroupChatId res = None
       \<and> narrationCount (tr_messages res) = 0)"
proof -
  have f: "find (\<lambda>gc. g_name gc = ''Forest'') [tavern, forest] = Some forest"
    "find (\<lambda>gc. g_name gc = ''Tavern'') [tavern, forest] = Some tavern"
    "find (\<lambda>gc. g_name gc = ''Moon'') [tavern, forest] = None"
    by (simp_all add: tavern_def forest_def)
  have ids: "c_groupChatId ann = ''g1''" "g_id tavern = ''g1''" "g_id forest = ''g2''"
    "g_characterIds tavern = [''c1'']" "g_characterIds forest = [''c2'']" "c_id ann = ''c1''"
    by (simp_all add: tavern_def forest_def ann_def)
  have mc: "toolName (moveCall d) = ''moveToLocation''"
    "tc_input (moveCall d) = Some \<lparr>ti_note = None, ti_locationName = Some d, ti_name = None\<rparr>"
    "ti_locationName \<lparr>ti_note = None, ti_locationName = Some d, ti_name = None\<rparr> = Some d" for d
    by (simp_all add: moveCall_def)
  have only: "\<forall>tc \<in> set ([] @ []). toolName tc \<noteq> ''moveToLocation''" for tc :: toolCall
    by simp
  have noted: "\<forall>tc \<in> set ([noteCall ''Bob sings''] @ []). toolName tc \<noteq> ''moveToLocation''"
    by (simp add: noteCall_def)
  have 1: "let res = processCharacterTurnResult exIds
       \<lparr>r_text = None, r_toolCalls = Some [noteCall ''Bob sings'', moveCall ''Forest''],
        r_reasoning = None, r_usage = None\<rparr>
       ann tavern [tavern, forest]
    in tr_groupChatUpdates res =
         Some [(''g1'', emptyGroupChatPatch\<lparr>pg_characterIds := Some []\<rparr>),
               (''g2'', emptyGroupChatPatch\<lparr>pg_characterIds := Some [''c2'', ''c1'']\<rparr>)]
       \<and> stagedGroupChatId res = Some ''g2''
       \<and> narrationCount (tr_messages res) = 1"
    using moveToLocation_outcomes [where gid = exIds and character = ann and groupChat = tavern
        and allGroupChats = "[tavern, forest]" and destName = "''Forest''"
        and earlier = "[noteCall ''Bob sings'']" and later = "[]"
        and result = "\<lparr>r_text = None,
          r_toolCalls = Some [noteCall ''Bob sings'', moveCall ''Forest''],
          r_reasoning = None, r_usage = None\<rparr>", OF _ noted mc]
    by (simp add: f ids Let_def del: find.simps)
  have 2: "let res = processCharacterTurnResult exIds
       \<lparr>r_text = None, r_toolCalls = Some [moveCall ''Tavern''], r_reasoning = None, r_usage = None\<rparr>
       ann tavern [tavern, forest]
    in tr_groupChatUpdates res = None \<and> stagedGroupChatId res = None
       \<and> narrationCount (tr_messages res) = 1"
    using moveToLocation_outcomes [where gid = exIds and character = ann and groupChat = tavern
        and allGroupChats = "[tavern, forest]" and destName = "''Tavern''"
        and earlier = "[]" and later = "[]"
        and result = "\<lparr>r_text = None, r_toolCalls = Some [moveCall ''Tavern''],
          r_reasoning = None, r_usage = None\<rparr>", OF _ only mc]
    by (simp add: f ids Let_def del: find.simps)
  have 3: "let res = processCharacterTurnResult exIds
       \<lparr>r_text = None, r_toolCalls = Some [moveCall ''Moon''], r_reasoning = None, r_usage = None\<rparr>
       ann tavern [tavern, forest]
    in tr_groupChatUpdates res = None \<and> stagedGroupChatId res = None
       \<and> narrationCount (tr_messages res) = 1"
    using moveToLocation_outcomes [where gid = exIds and character = ann and groupChat = tavern
        and allGroupChats = "[tavern, forest]" and destName = "''Moon''"
        and earlier = "[]" and later = "[]"
        and result = "\<lparr>r_text = None, r_toolCalls = Some [moveCall ''Moon''],
          r_reasoning = None, r_usage = None\<rparr>", OF _ only mc]
    by (simp add: f ids Let_def del: find.simps)
  have 4: "let res = processCharacterTurnResult exIds
       \<lparr>r_text = None, r_toolCalls = Some [moveCall []], r_reasoning = None, r_usage = None\<rparr>
       ann tavern [tavern, forest]
    in tr_groupChatUpdates res = None \<and> stagedGroupChatId res = None
       \<and> narrationCount (tr_messages res) = 0"
    using moveToLocation_outcomes [where gid = exIds and character = ann and groupChat = tavern
        and allGroupChats = "[tavern, forest]" and destName = "[]"
        and earlier = "[]" and later = "[]"
        and result = "\<lparr>r_text = None, r_toolCalls = Some [moveCall []],
          r_reasoning = None, r_usage = None\<rparr>", OF _ only mc]
    by (simp add: Let_def del: find.simps)
  show ?thesis using 1 2 3 4 by simp
qed

text \<open>
  The claim as stated fails in two places. A relocation to the empty name leaves the
  \<^verbatim>\<open>switch\<close> before any resolution: no narration message is produced (the only message is
  the fallback), although the name resolves to no location. And when the location passed
  as the current one is not the one the character's \<open>groupChatId\<close> names, a move to that
  passed location stages one location update, not two.
\<close>

theorem moveToLocation_counterexample:
  "narrationCount (tr_messages (processCharacterTurnResult exIds
       \<lparr>r_text = None, r_toolCalls = Some [moveCall []], r_reasoning = None, r_usage = None\<rparr>
       ann tavern [tavern, forest])) = 0
   \<and> find (\<lambda>gc. g_name gc = []) [tavern, forest] = None
   \<and> find (\<lambda>gc. g_name gc = ''Forest'') [tavern, forest] = Some forest
   \<and> g_id forest \<noteq> c_groupChatId ann
   \<and> tr_groupChatUpdates (processCharacterTurnResult exIds
       \<lparr>r_text = None, r_toolCalls = Some [moveCall ''Forest''], r_reasoning = None, r_usage = None\<rparr>
       ann forest [tavern, forest])
      = Some [(''g2'', emptyGroupChatPatch\<lparr>pg_characterIds := Some [''c2'', ''c1'']\<rparr>)]"
  by (simp add: processCharacterTurnResult_def processToolCall_def moveToLocation_def
      moveCall_def initialAcc_def pushMessage_def narration_def characterMessage_def Let_def
      narrationCount_def hasReasoning_def tavern_def forest_def ann_def)

section \<open>The turn controller\<close>

lemma updateCharacter_fields [simp]:
  "messages (updateCharacter cid p s) = messages s"
  "tokenUsageOf (updateCharacter cid p s) = tokenUsageOf s"
  "summarizationStatusOf (updateCharacter cid p s) = summarizationStatusOf s"
  by (simp_all add: updateCharacter_def)

lemma updateGroupChat_fields [simp]:
  "messages (updateGroupChat gid p s) = messages s"
  "tokenUsageOf (updateGroupChat gid p s) = tokenUsageOf s"
  "summarizationStatusOf (updateGroupChat gid p s) = summarizationStatusOf s"
  by (simp_all add: updateGroupChat_def)

lemma foldl_updateGroupChat_fields [simp]:
  "messages (foldl (\<lambda>st (chatId, updates). updateGroupChat chatId updates st) s ups) = messages s"
  "tokenUsageOf (foldl (\<lambda>st (chatId, updates). updateGroupChat chatId updates st) s ups)
     = tokenUsageOf s"
  "summarizationStatusOf (foldl (\<lambda>st (chatId, updates). updateGroupChat chatId updates st) s ups)
     = summarizationStatusOf s"
  by (induction ups arbitrary: s; simp add: split_def)+

lemma applyTurnResult_tokenUsage:
  "tokenUsageOf (applyTurnResult chat ch result s) =
     (case tr_usage result of
        None \<Rightarrow> tokenUsageOf s
      | Some u \<Rightarrow> (tokenUsageOf s)(g_id chat \<mapsto>
                    usageOf (tokenUsageOf s) (g_id chat) + inputTokens u))"
  by (simp add: applyTurnResult_def Let_def removeLoading_def appendMessages_def
      split: option.splits)

lemma applyTurnResult_status:
  "summarizationStatusOf (applyTurnResult chat ch result s) = summarizationStatusOf s"
  by (simp add: applyTurnResult_def Let_def removeLoading_def appendMessages_def
      split: option.splits)

lemma applyTurnResult_messages:
  "messages (applyTurnResult chat ch result s) =
     (messages s)(g_id chat \<mapsto>
        withoutLoadingOf ch (messagesOf (messages s) (g_id chat)) @ tr_messages result)"
  by (simp add: applyTurnResult_def Let_def removeLoading_def appendMessages_def messagesOf_def
      withoutLoadingOf_def split: option.splits)

lemma genSays_usage:
  "tr_usage (executeCharacterTurn gid noFaults (genSays t tcs rs) ch chat cs gcs msgs exSettings nudge)
     = Some exUsage"
  by (simp add: executeCharacterTurn_def executeCharacterTurn_try_def attempt_def noFaults_def
      exSettings_model genSays_def extractUsage_def Let_def exUsage_def)

lemma characterTurn_without_summary:
  assumes "\<not> needsSummarization (usageOf (tokenUsageOf s) (g_id chat))"
  shows "characterTurn (ev\<lparr>e_generateSummary := g, e_summaryId := i\<rparr>) chat actingCharacter s
           = characterTurn ev chat actingCharacter s"
  using assms
  by (simp add: characterTurn_def currentMessages_def stagedUserMessage_def Let_def)

text \<open>
  C2. Take a send in character mode that resolves its location and its acting character.
  The turn is run on the location's history followed by the message the user typed, if any.
  If the location's counter is below 3000, no summarization runs: the turn is run on the
  history as it is, the summarization status is not touched, and neither the outcome of a
  summarization call nor the id of a summary has any influence on the state the handler
  leaves. When that turn reports a usage, the counter grows by its input tokens: from
  2999, with 50 input tokens, to 3049. If the counter is at 3000 or more, summarization
  runs first: the turn is run on what \<^verbatim>\<open>summarizeOldMessages\<close> has made of the history,
  which is also what the location's history is built from, and the status becomes success.
  The counter is reset, and when the turn reports a usage its input tokens are added
  afterwards: the counter ends at exactly the turn's input tokens. In both cases the
  location's history afterwards is the history the turn was run on, without the loading
  placeholders of the acting character, followed by the messages of the turn.
\<close>

theorem token_counter_and_summarization:
  fixes ev s chat actingCharacter u
  defines "s' \<equiv> handleSendMessage ev s"
  defines "before \<equiv> usageOf (tokenUsageOf s) (g_id chat)"
  defines "history \<equiv> messagesOf (messages s) (g_id chat)"
  defines "summarized \<equiv> summarizeOldMessages (e_summaryId ev) (e_generateSummary ev) history
                          (settings s)"
  defines "typed \<equiv> (if trim (message s) \<noteq> [] then
                       [\<lparr>m_id = e_userMessageId ev, m_type = MUser, m_text = message s,
                         m_sender = userDisplayName (settings s), m_charId = None\<rparr>]
                     else [])"
  defines "turnOn \<equiv> \<lambda>ms. executeCharacterTurn (e_turnIds ev) (e_faults ev) (e_generateTurn ev)
                       actingCharacter chat (characters s) (groupChats s) ms (settings s) None"
  defines "settled \<equiv> \<lambda>ms. filter (\<lambda>m. m_type m \<noteq> MLoading \<or> m_charId m \<noteq> Some (c_id actingCharacter)) ms
                       @ tr_messages (turnOn ms)"
  assumes chat: "find (\<lambda>gc. Some (g_id gc) = activeChatId s) (groupChats s) = Some chat"
    and mode: "selectedCharId s \<noteq> Some ''none''" "selectedCharId s \<noteq> Some ''director''"
    and actor: "find (\<lambda>c. Some (c_id c) = selectedCharId s) (characters s) = Some actingCharacter"
  shows "(before < 3000 \<longrightarrow>
            messages s' (g_id chat) = Some (settled (history @ typed))
            \<and> summarizationStatusOf s' = summarizationStatusOf s
            \<and> (\<forall>g i. handleSendMessage (ev\<lparr>e_generateSummary := g, e_summaryId := i\<rparr>) s = s')
            \<and> (tr_usage (turnOn (history @ typed)) = Some u \<longrightarrow>
                 tokenUsageOf s' (g_id chat) = Some (before + inputTokens u)))
       \<and> (before = 2999 \<and> tr_usage (turnOn (history @ typed)) = Some u \<and> inputTokens u = 50 \<longrightarrow>
            tokenUsageOf s' (g_id chat) = Some 3049)
       \<and> (before \<ge> 3000 \<longrightarrow>
            messages s' (g_id chat) = Some (settled (summarized @ typed))
            \<and> summarizationStatusOf s' (g_id chat) = Some Success
            \<and> (tr_usage (turnOn (summarized @ typed)) = None \<longrightarrow>
                 tokenUsageOf s' (g_id chat) = Some 0)
            \<and> (tr_usage (turnOn (summarized @ typed)) = Some u \<longrightarrow>
                 tokenUsageOf s' (g_id chat) = Some (inputTokens u)))"
proof -
  have s': "s' = characterTurn ev chat actingCharacter s"
    using chat mode actor by (simp add: s'_def handleSendMessage_def Let_def)
  have other: "handleSendMessage (ev\<lparr>e_generateSummary := g, e_summaryId := i\<rparr>) s
                 = characterTurn (ev\<lparr>e_generateSummary := g, e_summaryId := i\<rparr>) chat actingCharacter s"
    for g i
    using chat mode actor by (simp add: handleSendMessage_def Let_def)
  have low: "before < 3000 \<Longrightarrow> \<not> needsSummarization (usageOf (tokenUsageOf s) (g_id chat))"
    by (simp add: before_def needsSummarization_def TOKEN_THRESHOLD_def)
  have high: "before \<ge> 3000 \<Longrightarrow> needsSummarization (usageOf (tokenUsageOf s) (g_id chat))"
    by (simp add: before_def needsSummarization_def TOKEN_THRESHOLD_def)
  have cur_low: "before < 3000 \<Longrightarrow> currentMessages ev chat s = history @ typed"
    using low
    by (simp add: currentMessages_def stagedUserMessage_def Let_def history_def typed_def)
  have cur_high: "before \<ge> 3000 \<Longrightarrow> currentMessages ev chat s = summarized @ typed"
    using high
    by (simp add: currentMessages_def stagedUserMessage_def summarizedMessages_def Let_def
        history_def typed_def summarized_def)
  have load: "filter (\<lambda>m. m_type m \<noteq> MLoading \<or> m_charId m \<noteq> Some (c_id actingCharacter))
                [loadingMessage i actingCharacter] = []" for i
    by (simp add: loadingMessage_def)
  have msgs_low: "before < 3000 \<Longrightarrow> messages s' (g_id chat) = Some (settled (history @ typed))"
    using low cur_low unfolding s'
    by (simp add: characterTurn_def Let_def applyTurnResult_messages appendMessages_def
        messagesOf_def withoutLoadingOf_def stagedUserMessage_def settled_def turnOn_def
        history_def typed_def loadingMessage_def)
  have msgs_high: "before \<ge> 3000 \<Longrightarrow> messages s' (g_id chat) = Some (settled (summarized @ typed))"
    using high cur_high unfolding s'
    by (simp add: characterTurn_def Let_def applyTurnResult_messages appendMessages_def
        messagesOf_def withoutLoadingOf_def stagedUserMessage_def settled_def turnOn_def
        summarizedMessages_def history_def typed_def summarized_def loadingMessage_def)
  have status_low: "before < 3000 \<Longrightarrow> summarizationStatusOf s' = summarizationStatusOf s"
    using low unfolding s'
    by (simp add: characterTurn_def Let_def applyTurnResult_status appendMessages_def
        split: option.splits)
  have status_high: "before \<ge> 3000 \<Longrightarrow> summarizationStatusOf s' (g_id chat) = Some Success"
    using high unfolding s'
    by (simp add: characterTurn_def Let_def applyTurnResult_status appendMessages_def
        split: option.splits)
  have indep: "before < 3000 \<Longrightarrow>
      handleSendMessage (ev\<lparr>e_generateSummary := g, e_summaryId := i\<rparr>) s = s'" for g i
    using low by (simp add: other s' characterTurn_without_summary)
  have count_low: "before < 3000 \<Longrightarrow> tr_usage (turnOn (history @ typed)) = Some u \<Longrightarrow>
      tokenUsageOf s' (g_id chat) = Some (before + inputTokens u)"
    using low cur_low unfolding s'
    by (simp add: characterTurn_def Let_def applyTurnResult_tokenUsage appendMessages_def
        turnOn_def before_def split: option.splits)
  have count_high: "before \<ge> 3000 \<Longrightarrow>
      tokenUsageOf s' (g_id chat) =
        (case tr_usage (turnOn (summarized @ typed)) of None \<Rightarrow> Some 0
         | Some v \<Rightarrow> Some (inputTokens v))"
    using high cur_high unfolding s'
    by (simp add: characterTurn_def Let_def applyTurnResult_tokenUsage appendMessages_def
        turnOn_def usageOf_def split: option.splits)
  show ?thesis
    using msgs_low msgs_high status_low status_high indep count_low count_high
    by (auto split: option.splits)
qed

lemma exState_resolves:
  "find (\<lambda>gc. Some (g_id gc) = activeChatId (exState\<lparr>tokenUsageOf := tu, messages := hs\<rparr>))
     (groupChats (exState\<lparr>tokenUsageOf := tu, messages := hs\<rparr>)) = Some tavern"
  "find (\<lambda>c. Some (c_id c) = selectedCharId (exState\<lparr>tokenUsageOf := tu, messages := hs\<rparr>))
     (characters (exState\<lparr>tokenUsageOf := tu, messages := hs\<rparr>)) = Some ann"
  "selectedCharId (exState\<lparr>tokenUsageOf := tu, messages := hs\<rparr>) = Some ''c1''"
  "settings (exState\<lparr>tokenUsageOf := tu, messages := hs\<rparr>) = exSettings"
  "message (exState\<lparr>tokenUsageOf := tu, messages := hs\<rparr>) = []"
  "summarizationStatusOf (exState\<lparr>tokenUsageOf := tu, messages := hs\<rparr>) = Map.empty"
  "e_generateTurn exEnv = genSays (Some ''Hello.'') None None"
  "e_faults exEnv = noFaults"
  by (simp_all add: exState_def exEnv_def tavern_def forest_def ann_def bob_def)

lemma exTurn_messages:
  "tr_messages (executeCharacterTurn exIds noFaults (genSays (Some ''Hello.'') None None) ann tavern
     cs gcs msgs exSettings None)
   = [\<lparr>m_id = ''i'', m_type = MCharacter, m_text = ''Hello.'', m_sender = ''Ann'',
       m_charId = Some ''c1''\<rparr>]"
proof -
  have t: "trim ''Hello.'' = ''Hello.''" by (simp add: trim_def is_space_def)
  show ?thesis
    by (simp add: executeCharacterTurn_def executeCharacterTurn_try_def attempt_def noFaults_def
        exSettings_model genSays_def processCharacterTurnResult_def initialAcc_def
        pushMessage_def characterMessage_def hasReasoning_def Let_def t exIds_0 ann_def)
qed

theorem token_counter_and_summarization_witness:
  "tokenUsageOf (handleSendMessage exEnv
       (exState\<lparr>tokenUsageOf := [''g1'' \<mapsto> 2999], messages := [''g1'' \<mapsto> exHistory]\<rparr>)) ''g1''
     = Some 3049
   \<and> summarizationStatusOf (handleSendMessage exEnv
       (exState\<lparr>tokenUsageOf := [''g1'' \<mapsto> 2999], messages := [''g1'' \<mapsto> exHistory]\<rparr>)) ''g1''
     = None
   \<and> messages (handleSendMessage exEnv
       (exState\<lparr>tokenUsageOf := [''g1'' \<mapsto> 2999], messages := [''g1'' \<mapsto> exHistory]\<rparr>)) ''g1''
     = Some (exHistory @ [\<lparr>m_id = ''i'', m_type = MCharacter, m_text = ''Hello.'',
                             m_sender = ''Ann'', m_charId = Some ''c1''\<rparr>])
   \<and> tokenUsageOf (handleSendMessage exEnv
       (exState\<lparr>tokenUsageOf := [''g1'' \<mapsto> 3000], messages := [''g1'' \<mapsto> exHistory]\<rparr>)) ''g1''
     = Some 50
   \<and> summarizationStatusOf (handleSendMessage exEnv
       (exState\<lparr>tokenUsageOf := [''g1'' \<mapsto> 3000], messages := [''g1'' \<mapsto> exHistory]\<rparr>)) ''g1''
     = Some Success
   \<and> messages (handleSendMessage exEnv
       (exState\<lparr>tokenUsageOf := [''g1'' \<mapsto> 3000], messages := [''g1'' \<mapsto> exHistory]\<rparr>)) ''g1''
     = Some [\<lparr>m_id = ''sm'', m_type = MSummary, m_text = ''Recap.'', m_sender = ''Summary'',
              m_charId = None\<rparr>,
             userMsg ''u5'' ''f'', userMsg ''u6'' ''g'', userMsg ''u7'' ''h'', userMsg ''u8'' ''i'',
             userMsg ''u9'' ''j'',
             \<lparr>m_id = ''l0'', m_type = MLoading, m_text = [], m_sender = ''Bob'',
              m_charId = Some ''c2''\<rparr>,
             \<lparr>m_id = ''i'', m_type = MCharacter, m_text = ''Hello.'', m_sender = ''Ann'',
              m_charId = Some ''c1''\<rparr>]"
proof -
  have g: "g_id tavern = ''g1''" "c_id ann = ''c1''" by (simp_all add: tavern_def ann_def)
  have u: "inputTokens exUsage = 50" by (simp add: exUsage_def)
  have mode: "selectedCharId (exState\<lparr>tokenUsageOf := tu, messages := hs\<rparr>) \<noteq> Some ''none''"
    "selectedCharId (exState\<lparr>tokenUsageOf := tu, messages := hs\<rparr>) \<noteq> Some ''director''" for tu hs
    by (simp_all add: exState_def)
  have ev: "e_turnIds exEnv = exIds" "e_summaryId exEnv = ''sm''"
    "e_generateSummary exEnv = genSays (Some ''Recap.'') None None"
    by (simp_all add: exEnv_def)
  have sum: "summarizeOldMessages ''sm'' (genSays (Some ''Recap.'') None None) exHistory exSettings
     = [\<lparr>m_id = ''sm'', m_type = MSummary, m_text = ''Recap.'', m_sender = ''Summary'',
              m_charId = None\<rparr>,
             userMsg ''u5'' ''f'', userMsg ''u6'' ''g'', userMsg ''u7'' ''h'', userMsg ''u8'' ''i'',
             userMsg ''u9'' ''j'',
             \<lparr>m_id = ''l0'', m_type = MLoading, m_text = [], m_sender = ''Bob'',
              m_charId = Some ''c2''\<rparr>]"
    by code_simp
  have keep: "filter (\<lambda>m. m_type m = MLoading \<longrightarrow> m_charId m \<noteq> Some ''c1'') exHistory = exHistory"
    by (simp add: exHistory_def userMsg_def)
  note low = token_counter_and_summarization
    [OF exState_resolves(1) [where tu = "[''g1'' \<mapsto> 2999]" and hs = "[''g1'' \<mapsto> exHistory]"]
        mode
        exState_resolves(2) [where tu = "[''g1'' \<mapsto> 2999]" and hs = "[''g1'' \<mapsto> exHistory]"],
     where ev = exEnv and u = exUsage]
  note high = token_counter_and_summarization
    [OF exState_resolves(1) [where tu = "[''g1'' \<mapsto> 3000]" and hs = "[''g1'' \<mapsto> exHistory]"]
        mode
        exState_resolves(2) [where tu = "[''g1'' \<mapsto> 3000]" and hs = "[''g1'' \<mapsto> exHistory]"],
     where ev = exEnv and u = exUsage]
  have 1: "tokenUsageOf (handleSendMessage exEnv
       (exState\<lparr>tokenUsageOf := [''g1'' \<mapsto> 2999], messages := [''g1'' \<mapsto> exHistory]\<rparr>)) ''g1''
     = Some 3049
   \<and> summarizationStatusOf (handleSendMessage exEnv
       (exState\<lparr>tokenUsageOf := [''g1'' \<mapsto> 2999], messages := [''g1'' \<mapsto> exHistory]\<rparr>)) ''g1''
     = None
   \<and> messages (handleSendMessage exEnv
       (exState\<lparr>tokenUsageOf := [''g1'' \<mapsto> 2999], messages := [''g1'' \<mapsto> exHistory]\<rparr>)) ''g1''
     = Some (exHistory @ [\<lparr>m_id = ''i'', m_type = MCharacter, m_text = ''Hello.'',
                             m_sender = ''Ann'', m_charId = Some ''c1''\<rparr>])"
    using low
    by (simp add: exState_resolves g u ev usageOf_def messagesOf_def genSays_usage exTurn_messages
        trim_def keep)
  have 2: "tokenUsageOf (handleSendMessage exEnv
       (exState\<lparr>tokenUsageOf := [''g1'' \<mapsto> 3000], messages := [''g1'' \<mapsto> exHistory]\<rparr>)) ''g1''
     = Some 50
   \<and> summarizationStatusOf (handleSendMessage exEnv
       (exState\<lparr>tokenUsageOf := [''g1'' \<mapsto> 3000], messages := [''g1'' \<mapsto> exHistory]\<rparr>)) ''g1''
     = Some Success
   \<and> messages (handleSendMessage exEnv
       (exState\<lparr>tokenUsageOf := [''g1'' \<mapsto> 3000], messages := [''g1'' \<mapsto> exHistory]\<rparr>)) ''g1''
     = Some [\<lparr>m_id = ''sm'', m_type = MSummary, m_text = ''Recap.'', m_sender = ''Summary'',
              m_charId = None\<rparr>,
             userMsg ''u5'' ''f'', userMsg ''u6'' ''g'', userMsg ''u7'' ''h'', userMsg ''u8'' ''i'',
             userMsg ''u9'' ''j'',
             \<lparr>m_id = ''l0'', m_type = MLoading, m_text = [], m_sender = ''Bob'',
              m_charId = Some ''c2''\<rparr>,
             \<lparr>m_id = ''i'', m_type = MCharacter, m_text = ''Hello.'', m_sender = ''Ann'',
              m_charId = Some ''c1''\<rparr>]"
    using high
    by (simp add: exState_resolves g u ev usageOf_def messagesOf_def genSays_usage exTurn_messages
        trim_def sum userMsg_def)
  show ?thesis using 1 2 by simp
qed

subsection \<open>Where the loading placeholders stand\<close>

lemma wellPlaced_append:
  "wellPlaced (xs @ ys) \<longleftrightarrow>
     wellPlaced xs \<and> wellPlaced ys
     \<and> (\<forall>x \<in> set xs. \<forall>y \<in> set ys.
          m_type x = MLoading \<and> m_type y = MCharacter \<longrightarrow> m_charId y \<noteq> m_charId x)"
  by (induction xs) auto

lemma wellPlaced_filter: "wellPlaced xs \<Longrightarrow> wellPlaced (filter P xs)"
  by (induction xs) auto

lemma wellPlaced_take: "wellPlaced xs \<Longrightarrow> wellPlaced (take n xs)"
  using wellPlaced_append [of "take n xs" "drop n xs"] by simp

lemma wellPlaced_no_loading: "\<forall>m \<in> set xs. m_type m \<noteq> MLoading \<Longrightarrow> wellPlaced xs"
  by (induction xs) auto

lemma wellPlaced_no_character: "\<forall>m \<in> set xs. m_type m \<noteq> MCharacter \<Longrightarrow> wellPlaced xs"
  by (induction xs) auto

lemma wellPlaced_snoc:
  "wellPlaced xs \<Longrightarrow> m_type m \<noteq> MCharacter \<Longrightarrow> wellPlaced (xs @ [m])"
  by (simp add: wellPlaced_append)


lemma pushMessage_kinds:
  "\<forall>m \<in> set (newMessages acc). turnMessage ch m \<Longrightarrow> turnMessage ch x \<Longrightarrow>
   \<forall>m \<in> set (newMessages (pushMessage gid x acc)). turnMessage ch m"
  by (auto simp: pushMessage_def turnMessage_def)

lemma characterMessage_kind: "turnMessage ch (characterMessage ch t)"
  by (simp add: turnMessage_def characterMessage_def)

lemma makeNote_kinds:
  "m \<in> set (newMessages (makeNote gid ch inp acc)) \<Longrightarrow>
   m \<in> set (newMessages acc) \<or> turnMessage ch m"
  by (auto simp: makeNote_def pushMessage_def turnMessage_def characterMessage_def
      split: option.splits if_splits)

lemma moveToLocation_kinds:
  "m \<in> set (newMessages (moveToLocation gid ch chat gcs inp acc)) \<Longrightarrow>
   m \<in> set (newMessages acc) \<or> turnMessage ch m"
  by (auto simp: moveToLocation_def pushMessage_def turnMessage_def narration_def
      split: option.splits if_splits)

lemma labelStranger_kinds: "newMessages (labelStranger inp acc) = newMessages acc"
  by (simp add: labelStranger_def split: option.splits)

lemma processToolCall_kinds:
  assumes "\<forall>m \<in> set (newMessages acc). turnMessage ch m"
  shows "\<forall>m \<in> set (newMessages (processToolCall gid ch chat gcs tc acc)). turnMessage ch m"
proof
  fix m
  assume m: "m \<in> set (newMessages (processToolCall gid ch chat gcs tc acc))"
  have "m \<in> set (newMessages acc) \<or> turnMessage ch m"
  proof (cases "tc_input tc")
    case None
    then show ?thesis using m by (simp add: processToolCall_def)
  next
    case (Some inp)
    consider "toolName tc = ''makeNote''" | "toolName tc = ''moveToLocation''"
      | "toolName tc = ''labelStranger''"
      | "toolName tc \<noteq> ''makeNote''" "toolName tc \<noteq> ''moveToLocation''"
        "toolName tc \<noteq> ''labelStranger''"
      by blast
    then show ?thesis
    proof cases
      case 1
      then have "processToolCall gid ch chat gcs tc acc = makeNote gid ch inp acc"
        using Some by (simp add: processToolCall_def)
      then show ?thesis using m makeNote_kinds by metis
    next
      case 2
      then have "processToolCall gid ch chat gcs tc acc = moveToLocation gid ch chat gcs inp acc"
        using Some by (simp add: processToolCall_def)
      then show ?thesis using m moveToLocation_kinds by metis
    next
      case 3
      then have "processToolCall gid ch chat gcs tc acc = labelStranger inp acc"
        using Some by (simp add: processToolCall_def)
      then show ?thesis using m labelStranger_kinds by metis
    next
      case 4
      then have "processToolCall gid ch chat gcs tc acc = acc"
        using Some by (simp add: processToolCall_def)
      then show ?thesis using m by simp
    qed
  qed
  then show "turnMessage ch m" using assms by blast
qed

lemma processToolCalls_kinds:
  "\<forall>m \<in> set (newMessages acc). turnMessage ch m \<Longrightarrow>
   \<forall>m \<in> set (newMessages (processToolCalls gid ch chat gcs tcs acc)). turnMessage ch m"
proof (induction tcs arbitrary: acc)
  case Nil
  then show ?case by simp
next
  case (Cons tc tcs)
  show ?case
    using Cons.IH [OF processToolCall_kinds [OF Cons.prems]] by simp
qed

lemma processCharacterTurnResult_kinds:
  "\<forall>m \<in> set (tr_messages (processCharacterTurnResult gid r ch chat gcs)). turnMessage ch m"
proof -
  define acc1 where "acc1 = (case r_toolCalls r of
              None \<Rightarrow> initialAcc
            | Some tcs \<Rightarrow> processToolCalls gid ch chat gcs tcs initialAcc)"
  have 0: "\<forall>m \<in> set (newMessages initialAcc). turnMessage ch m"
    by (simp add: initialAcc_def)
  have 1: "\<forall>m \<in> set (newMessages acc1). turnMessage ch m"
    unfolding acc1_def using 0 processToolCalls_kinds [OF 0] by (simp split: option.splits)
  define acc2 where "acc2 = (if (case r_text r of None \<Rightarrow> [] | Some t \<Rightarrow> trim t) \<noteq> []
       then pushMessage gid (characterMessage ch (case r_text r of None \<Rightarrow> [] | Some t \<Rightarrow> trim t))
              acc1
       else acc1)"
  have 2: "\<forall>m \<in> set (newMessages acc2). turnMessage ch m"
    unfolding acc2_def using 1 pushMessage_kinds [OF 1 characterMessage_kind] by simp
  define acc3 where "acc3 = (if length (newMessages acc2) = 0 \<and> \<not> hasReasoning r \<and> \<not> hasMadeNote acc2
       then pushMessage gid (characterMessage ch (''*'' @ c_name ch @ '' is thinking...*'')) acc2
       else acc2)"
  have 3: "\<forall>m \<in> set (newMessages acc3). turnMessage ch m"
    unfolding acc3_def using 2 pushMessage_kinds [OF 2 characterMessage_kind] by simp
  have "tr_messages (processCharacterTurnResult gid r ch chat gcs) = newMessages acc3"
    by (simp add: processCharacterTurnResult_def Let_def acc3_def acc2_def acc1_def)
  then show ?thesis using 3 by simp
qed

lemma executeCharacterTurn_kinds:
  "\<forall>m \<in> set (tr_messages (executeCharacterTurn gid faults generate ch chat cs gcs ms cfg nudge)).
     turnMessage ch m"
  using processCharacterTurnResult_kinds [of gid _ ch chat gcs]
  by (auto simp: executeCharacterTurn_def executeCharacterTurn_try_def turnError_def Let_def
      turnMessage_def split: sum.splits)

lemma settled_wellPlaced:
  assumes "wellPlaced H" and "\<forall>m \<in> set T. turnMessage ch m"
  shows "wellPlaced (withoutLoadingOf ch H @ T)"
proof -
  have "wellPlaced (withoutLoadingOf ch H)"
    using assms(1) by (simp add: withoutLoadingOf_def wellPlaced_filter)
  moreover have "wellPlaced T"
    using assms(2) by (intro wellPlaced_no_loading) (auto simp: turnMessage_def)
  moreover have "\<forall>x \<in> set (withoutLoadingOf ch H). \<forall>y \<in> set T.
      m_type x = MLoading \<and> m_type y = MCharacter \<longrightarrow> m_charId y \<noteq> m_charId x"
    using assms(2) by (auto simp: withoutLoadingOf_def turnMessage_def)
  ultimately show ?thesis by (simp add: wellPlaced_append)
qed

lemma summarizeOldMessages_wellPlaced:
  assumes "wellPlaced H"
  shows "wellPlaced (summarizeOldMessages newId generate H cfg)"
proof -
  have keep: "\<forall>m \<in> set (messagesToKeep H). m_type m \<noteq> MLoading"
    using messagesToKeep_types by auto
  have 1: "wellPlaced (messagesToKeep H)" using keep by (rule wellPlaced_no_loading)
  have 2: "wellPlaced (loadingMessages H)"
    by (rule wellPlaced_no_character) (simp add: loadingMessages_def)
  have tail: "wellPlaced (messagesToKeep H @ loadingMessages H)"
    using 1 2 keep wellPlaced_append [of "messagesToKeep H" "loadingMessages H"] by auto
  have new: "wellPlaced (\<lparr>m_id = newId, m_type = MSummary, m_text = t,
                      m_sender = ''Summary'', m_charId = None\<rparr>
                    # messagesToKeep H @ loadingMessages H)" for t
    using tail by simp
  show ?thesis
    unfolding summarizeOldMessages_def using assms new
    by (simp split: sum.splits option.splits)
qed

lemma messagesOf_update:
  "messagesOf (ms(c \<mapsto> xs)) c' = (if c' = c then xs else messagesOf ms c')"
  by (simp add: messagesOf_def)

lemma appendMessages_placed:
  "placed s \<Longrightarrow> \<forall>m \<in> set new. m_type m \<noteq> MCharacter \<and> m_type m \<noteq> MLoading \<Longrightarrow>
   placed (appendMessages c new s)"
  by (auto simp: placed_def appendMessages_def messagesOf_update wellPlaced_append
      intro: wellPlaced_no_loading)

lemma applyTurnResult_placed:
  assumes "wellPlaced H" and "\<forall>c. c \<noteq> g_id chat \<longrightarrow> wellPlaced (messagesOf (messages s) c)"
    and "messagesOf (messages s) (g_id chat) = H @ [loadingMessage i ch]"
    and "\<forall>m \<in> set (tr_messages result). turnMessage ch m"
  shows "placed (applyTurnResult chat ch result s)"
proof -
  have "withoutLoadingOf ch (H @ [loadingMessage i ch]) = withoutLoadingOf ch H"
    by (simp add: withoutLoadingOf_def loadingMessage_def)
  then have "wellPlaced (withoutLoadingOf ch (H @ [loadingMessage i ch]) @ tr_messages result)"
    using settled_wellPlaced [OF assms(1,4)] by simp
  then show ?thesis
    using assms(2,3) by (simp add: placed_def applyTurnResult_messages messagesOf_update)
qed

text \<open>Both handlers keep every history well placed.\<close>

lemma characterTurn_placed:
  assumes "placed s"
  shows "placed (characterTurn ev chat ch s)"
proof -
  define H0 where "H0 = (if needsSummarization (usageOf (tokenUsageOf s) (g_id chat))
     then summarizedMessages ev chat s else messagesOf (messages s) (g_id chat))"
  define H where "H = (case stagedUserMessage ev s of None \<Rightarrow> H0 | Some m \<Rightarrow> H0 @ [m])"
  define s0 where "s0 = (if stagedUserMessage ev s \<noteq> None then s\<lparr>message := []\<rparr> else s)"
  define s1 where "s1 = (if needsSummarization (usageOf (tokenUsageOf s) (g_id chat)) then
                  s0\<lparr>messages := (messages s0)(g_id chat \<mapsto> summarizedMessages ev chat s),
                     tokenUsageOf := (tokenUsageOf s0)(g_id chat \<mapsto> 0),
                     summarizationStatusOf := (summarizationStatusOf s0)(g_id chat \<mapsto> Success)\<rparr>
                else s0)"
  define s2 where "s2 = (case stagedUserMessage ev s of
                  None \<Rightarrow> s1
                | Some m \<Rightarrow> appendMessages (g_id chat) [m] s1)"
  define s3 where "s3 = appendMessages (g_id chat) [loadingMessage (e_loadingId ev) ch] s2"
  have old: "wellPlaced (messagesOf (messages s) c)" for c
    using assms by (simp add: placed_def)
  have H0: "wellPlaced H0"
    unfolding H0_def summarizedMessages_def
    using old summarizeOldMessages_wellPlaced by simp
  have user: "stagedUserMessage ev s = Some m \<Longrightarrow> m_type m = MUser" for m
    by (auto simp: stagedUserMessage_def split: if_splits)
  have H: "wellPlaced H"
    unfolding H_def using H0 user by (auto split: option.splits intro: wellPlaced_snoc)
  have m3: "messagesOf (messages s3) (g_id chat) = H @ [loadingMessage (e_loadingId ev) ch]"
    by (auto simp: s3_def s2_def s1_def s0_def H_def H0_def appendMessages_def messagesOf_update
        split: option.splits)
  have o3: "c \<noteq> g_id chat \<Longrightarrow> messagesOf (messages s3) c = messagesOf (messages s) c" for c
    by (auto simp: s3_def s2_def s1_def s0_def appendMessages_def messagesOf_update
        split: option.splits)
  have "placed (applyTurnResult chat ch
           (executeCharacterTurn (e_turnIds ev) (e_faults ev) (e_generateTurn ev) ch chat
              (characters s) (groupChats s) (currentMessages ev chat s) (settings s) None) s3)"
    using applyTurnResult_placed [OF H _ m3 executeCharacterTurn_kinds] o3 old by simp
  then show ?thesis
    unfolding characterTurn_def Let_def s3_def s2_def s1_def s0_def .
qed

lemma handleSendMessage_placed: "placed s \<Longrightarrow> placed (handleSendMessage ev s)"
proof -
  assume a: "placed s"
  have 1: "placed ((appendMessages c [m] s)\<lparr>message := []\<rparr>)"
    if "m_type m \<noteq> MCharacter \<and> m_type m \<noteq> MLoading" for c m
    using appendMessages_placed [OF a, of "[m]" c] that by (simp add: placed_def)
  show ?thesis
    using a characterTurn_placed [OF a]
    by (auto simp: handleSendMessage_def Let_def 1 split: option.splits)
qed

lemma handleRetryMessage_placed: "placed s \<Longrightarrow> placed (handleRetryMessage ev messageId s)"
proof -
  assume a: "placed s"
  have old: "wellPlaced (messagesOf (messages s) c)" for c
    using a by (simp add: placed_def)
  have step: "placed (applyTurnResult chat ch
      (executeCharacterTurn (e_turnIds ev) (e_faults ev) (e_generateTurn ev) ch chat
         (characters s) (groupChats s) (take i (messagesOf (messages s) (g_id chat)))
         (settings s) None)
      (appendMessages (g_id chat) [loadingMessage (e_loadingId ev) ch]
         (s\<lparr>messages := (messages s)(g_id chat \<mapsto> take i (messagesOf (messages s) (g_id chat)))\<rparr>)))"
    for chat ch i
  proof (rule applyTurnResult_placed [where H = "take i (messagesOf (messages s) (g_id chat))"
        and i = "e_loadingId ev"])
    show "wellPlaced (take i (messagesOf (messages s) (g_id chat)))"
      using old by (rule wellPlaced_take)
    show "\<forall>c. c \<noteq> g_id chat \<longrightarrow>
        wellPlaced (messagesOf (messages (appendMessages (g_id chat)
           [loadingMessage (e_loadingId ev) ch]
           (s\<lparr>messages := (messages s)(g_id chat \<mapsto> take i (messagesOf (messages s) (g_id chat)))\<rparr>))) c)"
      using old by (simp add: appendMessages_def messagesOf_update)
    show "messagesOf (messages (appendMessages (g_id chat) [loadingMessage (e_loadingId ev) ch]
           (s\<lparr>messages := (messages s)(g_id chat \<mapsto> take i (messagesOf (messages s) (g_id chat)))\<rparr>)))
           (g_id chat)
        = take i (messagesOf (messages s) (g_id chat)) @ [loadingMessage (e_loadingId ev) ch]"
      by (simp add: appendMessages_def messagesOf_update)
    show "\<forall>m \<in> set (tr_messages (executeCharacterTurn (e_turnIds ev) (e_faults ev)
        (e_generateTurn ev) ch chat (characters s) (groupChats s)
        (take i (messagesOf (messages s) (g_id chat))) (settings s) None)). turnMessage ch m"
      by (rule executeCharacterTurn_kinds)
  qed
  show ?thesis
    using a step by (auto simp: handleRetryMessage_def Let_def split: option.splits)
qed




section \<open>Deleting a location\<close>

lemma forget_fields [simp]:
  "c_id (forget D c) = c_id c" "c_groupChatId (forget D c) = c_groupChatId c"
  by (simp_all add: forget_def)

lemma forget_forget: "forget D (forget E c) = forget (E \<union> D) c"
  by (simp add: forget_def)

lemma find_id_distinct:
  "distinct (map c_id cs) \<Longrightarrow> c \<in> set cs \<Longrightarrow> find (\<lambda>x. c_id x = c_id c) cs = Some c"
  by (induction cs) (auto simp: image_iff)

lemma deleteCharacterFrom_characters:
  assumes "distinct (map c_id cs)" "c \<in> set cs"
  shows "characters (deleteCharacterFrom cs (c_id c) st) =
           filter (\<lambda>x. c_id x \<noteq> c_id c) (map (forget {c_id c}) (characters st))"
  using find_id_distinct[OF assms]
  by (simp add: deleteCharacterFrom_def forget_def[abs_def])

lemma deleteCharacterFrom_groupChats:
  assumes "distinct (map c_id cs)" "c \<in> set cs"
  shows "groupChats (deleteCharacterFrom cs (c_id c) st) =
          map (\<lambda>gc. if g_id gc = c_groupChatId c
                    then gc\<lparr>g_characterIds := filter (\<lambda>i. i \<noteq> c_id c) (g_characterIds gc)\<rparr>
                    else gc) (groupChats st)"
  using find_id_distinct[OF assms]
  by (simp add: deleteCharacterFrom_def)

lemma foldl_deleteCharacterFrom_characters:
  assumes "distinct (map c_id cs)" "set xs \<subseteq> set cs"
  shows "characters (foldl (\<lambda>st char. deleteCharacterFrom cs (c_id char) st) st xs) =
     filter (\<lambda>x. c_id x \<notin> c_id ` set xs) (map (forget (c_id ` set xs)) (characters st))"
  using assms(2)
proof (induction xs arbitrary: st)
  case Nil
  show ?case by (simp add: forget_def)
next
  case (Cons x xs)
  have x: "x \<in> set cs" and xs: "set xs \<subseteq> set cs" using Cons.prems by auto
  have "map (forget (c_id ` set xs))
          (filter (\<lambda>y. c_id y \<noteq> c_id x) (map (forget {c_id x}) ys))
      = filter (\<lambda>y. c_id y \<noteq> c_id x) (map (forget (insert (c_id x) (c_id ` set xs))) ys)" for ys
    by (induction ys) (simp_all add: forget_forget)
  then show ?case
    by (simp add: Cons.IH[OF xs] deleteCharacterFrom_characters[OF assms(1) x] conj_commute)
qed

lemma foldl_deleteCharacterFrom_groupChats:
  assumes "distinct (map c_id cs)" "set xs \<subseteq> set cs" "\<forall>c \<in> set xs. c_groupChatId c = gid"
  shows "groupChats (foldl (\<lambda>st char. deleteCharacterFrom cs (c_id char) st) st xs) =
          map (\<lambda>gc. if g_id gc = gid
                    then gc\<lparr>g_characterIds := filter (\<lambda>i. i \<notin> c_id ` set xs) (g_characterIds gc)\<rparr>
                    else gc) (groupChats st)"
  using assms(2,3)
proof (induction xs arbitrary: st)
  case Nil
  show ?case by (simp add: map_idI)
next
  case (Cons x xs)
  have x: "x \<in> set cs" "c_groupChatId x = gid"
    and xs: "set xs \<subseteq> set cs" "\<forall>c \<in> set xs. c_groupChatId c = gid"
    using Cons.prems by auto
  show ?case
    by (simp add: Cons.IH[OF xs] deleteCharacterFrom_groupChats[OF assms(1) x(1)] x(2) comp_def
        conj_commute cong: if_cong)
qed

lemma filter_out_updated:
  "filter (\<lambda>gc. g_id gc \<noteq> gid)
     (map (\<lambda>gc. if g_id gc = gid then gc\<lparr>g_characterIds := f gc\<rparr> else gc) gcs)
   = filter (\<lambda>gc. g_id gc \<noteq> gid) gcs"
  by (induction gcs) auto

lemma deleteGroupChat_effect:
  fixes s gid
  defines "gone \<equiv> set (map c_id (filter (\<lambda>c. c_groupChatId c = gid) (characters s)))"
  assumes "distinct (map c_id (characters s))"
  shows "characters (deleteGroupChat gid s) =
           map (forget gone) (filter (\<lambda>c. c_groupChatId c \<noteq> gid) (characters s))
       \<and> groupChats (deleteGroupChat gid s) = filter (\<lambda>gc. g_id gc \<noteq> gid) (groupChats s)"
proof -
  let ?xs = "filter (\<lambda>c. c_groupChatId c = gid) (characters s)"
  let ?s1 = "foldl (\<lambda>st char. deleteCharacterFrom (characters s) (c_id char) st) s ?xs"
  have img: "c_id ` set ?xs = gone" by (auto simp: gone_def)
  have sub: "set ?xs \<subseteq> set (characters s)" "\<forall>c \<in> set ?xs. c_groupChatId c = gid" by auto
  have ch: "characters ?s1 = filter (\<lambda>x. c_id x \<notin> gone) (map (forget gone) (characters s))"
    using foldl_deleteCharacterFrom_characters[OF assms(2) sub(1), of s] by (simp only: img)
  have gc: "groupChats ?s1 = map (\<lambda>gc. if g_id gc = gid
                    then gc\<lparr>g_characterIds := filter (\<lambda>i. i \<notin> gone) (g_characterIds gc)\<rparr>
                    else gc) (groupChats s)"
    using foldl_deleteCharacterFrom_groupChats[OF assms(2) sub, of s] by (simp only: img)
  have mem: "c_id c \<in> gone \<longleftrightarrow> c_groupChatId c = gid" if "c \<in> set (characters s)" for c
    using assms(2) that unfolding gone_def
    by (auto simp: distinct_map inj_on_def)
  have c1: "characters (deleteGroupChat gid s) = characters ?s1"
    by (simp add: deleteGroupChat_def Let_def)
  have g1: "groupChats (deleteGroupChat gid s) = filter (\<lambda>gc. g_id gc \<noteq> gid) (groupChats ?s1)"
    by (simp add: deleteGroupChat_def Let_def)
  have "filter (\<lambda>x. c_id x \<notin> gone) (characters s)
          = filter (\<lambda>c. c_groupChatId c \<noteq> gid) (characters s)"
    by (rule filter_cong) (simp_all add: mem)
  then have A: "characters (deleteGroupChat gid s) =
           map (forget gone) (filter (\<lambda>c. c_groupChatId c \<noteq> gid) (characters s))"
    by (simp add: c1 ch filter_map comp_def)
  have B: "groupChats (deleteGroupChat gid s) = filter (\<lambda>gc. g_id gc \<noteq> gid) (groupChats s)"
    unfolding g1 gc by (rule filter_out_updated)
  show ?thesis using A B by simp
qed

text \<open>
  C10. In a world whose characters have distinct ids, deleting a location deletes every
  character whose \<open>groupChatId\<close> is the location's id: the characters left are exactly the
  others, in their order, each unchanged but for its known characters, from which the ids
  of the deleted characters are removed. The locations left are the others, unchanged.
\<close>

theorem deleteGroupChat_deletes_members:
  fixes s gid
  defines "gone \<equiv> set (map c_id (filter (\<lambda>c. c_groupChatId c = gid) (characters s)))"
  assumes "distinct (map c_id (characters s))"
  shows "characters (deleteGroupChat gid s) =
           map (forget gone) (filter (\<lambda>c. c_groupChatId c \<noteq> gid) (characters s))
       \<and> groupChats (deleteGroupChat gid s) = filter (\<lambda>gc. g_id gc \<noteq> gid) (groupChats s)"
  unfolding gone_def using assms(2) by (rule deleteGroupChat_effect)

theorem deleteGroupChat_deletes_members_witness:
  "characters (deleteGroupChat ''g1'' exState) = [bob\<lparr>c_knownCharacterIds := []\<rparr>]
   \<and> groupChats (deleteGroupChat ''g1'' exState) = [forest]"
proof -
  have d: "distinct (map c_id (characters exState))"
    by (simp add: exState_def ann_def bob_def)
  have gone: "set (map c_id (filter (\<lambda>c. c_groupChatId c = ''g1'') (characters exState)))
                = {''c1''}"
    by (simp add: exState_def ann_def bob_def)
  show ?thesis
    using deleteGroupChat_deletes_members [OF d, of "''g1''"]
    unfolding gone
    by (simp add: exState_def ann_def bob_def tavern_def forest_def forget_def)
qed

section \<open>The bidirectional index\<close>

lemma members_iff: "x \<in> members cs g \<longleftrightarrow> (\<exists>c \<in> set cs. c_id c = x \<and> c_groupChatId c = g)"
  by (auto simp: members_def)

lemma set_dedupe [simp]: "set (dedupe xs) = set xs"
  by (simp add: dedupe_def)

lemma distinct_ids_unique:
  "distinct (map c_id cs) \<Longrightarrow> c \<in> set cs \<Longrightarrow> d \<in> set cs \<Longrightarrow> c_id c = c_id d \<Longrightarrow> c = d"
  by (auto simp: distinct_map inj_on_def)

lemma createCharacter_consistent:
  assumes "consistent s" "newId \<notin> set (map c_id (characters s))"
  shows "consistent (createCharacter newId char s)"
proof -
  have d: "distinct (map c_id (characters s))" and ne: "\<forall>L \<in> set (groupChats s). g_id L \<noteq> []"
    and ix: "\<forall>L \<in> set (groupChats s). set (g_characterIds L) = members (characters s) (g_id L)"
    using assms(1) by (auto simp: consistent_def indexed_def)
  have m: "members (characters s @ [char\<lparr>c_id := newId\<rparr>]) g
            = members (characters s) g \<union> (if c_groupChatId char = g then {newId} else {})" for g
    by (auto simp: members_def)
  have 1: "distinct (map c_id (characters (createCharacter newId char s)))"
    using d assms(2) by (simp add: createCharacter_def)
  have 2: "\<forall>L \<in> set (groupChats (createCharacter newId char s)). g_id L \<noteq> []"
    using ne by (auto simp: createCharacter_def)
  have 3: "indexed (createCharacter newId char s)"
    unfolding indexed_def
  proof
    fix L assume L: "L \<in> set (groupChats (createCharacter newId char s))"
    show "set (g_characterIds L) = members (characters (createCharacter newId char s)) (g_id L)"
    proof (cases "c_groupChatId char = []")
      case True
      then have "L \<in> set (groupChats s)" using L by (simp add: createCharacter_def)
      then show ?thesis using ix ne True by (auto simp: createCharacter_def m)
    next
      case False
      then obtain L0 where L0: "L0 \<in> set (groupChats s)"
        and eq: "L = (if g_id L0 = c_groupChatId char
                      then L0\<lparr>g_characterIds := dedupe (g_characterIds L0 @ [newId])\<rparr> else L0)"
        using L by (auto simp: createCharacter_def)
      show ?thesis using ix L0 by (auto simp: eq createCharacter_def m)
    qed
  qed
  show ?thesis using 1 2 3 by (simp add: consistent_def)
qed

lemma consistentD:
  assumes "consistent s"
  shows "distinct (map c_id (characters s))"
    and "\<And>L. L \<in> set (groupChats s) \<Longrightarrow> g_id L \<noteq> []"
    and "\<And>L. L \<in> set (groupChats s) \<Longrightarrow> set (g_characterIds L) = members (characters s) (g_id L)"
  using assms by (auto simp: consistent_def indexed_def)

lemma consistentI:
  assumes "distinct (map c_id (characters s))"
    and "\<And>L. L \<in> set (groupChats s) \<Longrightarrow> g_id L \<noteq> []"
    and "\<And>L. L \<in> set (groupChats s) \<Longrightarrow> set (g_characterIds L) = members (characters s) (g_id L)"
  shows "consistent s"
  using assms by (auto simp: consistent_def indexed_def)

lemma foldl_other_ids:
  "cid \<notin> c_id ` set cs \<Longrightarrow>
   foldl (\<lambda>gcs char. if c_id char \<noteq> cid then gcs else F char gcs) gcs cs = gcs"
  by (induction cs arbitrary: gcs) auto

lemma foldl_one_id:
  assumes "distinct (map c_id cs)"
  shows "foldl (\<lambda>gcs char. if c_id char \<noteq> cid then gcs else F char gcs) gcs cs
         = (case find (\<lambda>c. c_id c = cid) cs of None \<Rightarrow> gcs | Some c \<Rightarrow> F c gcs)"
  using assms
proof (induction cs arbitrary: gcs)
  case Nil
  show ?case by simp
next
  case (Cons x xs)
  show ?case
  proof (cases "c_id x = cid")
    case True
    then have "cid \<notin> c_id ` set xs" using Cons.prems by auto
    then show ?thesis using True by (simp add: foldl_other_ids)
  next
    case False
    then show ?thesis using Cons by simp
  qed
qed

lemma find_None_ids: "find (\<lambda>c. c_id c = cid) cs = None \<longleftrightarrow> cid \<notin> c_id ` set cs"
  by (auto simp: find_None_iff)

lemma find_Some_member:
  "find P cs = Some c \<Longrightarrow> c \<in> set cs \<and> P c"
  by (auto simp: find_Some_iff)

lemma applyCharacterPatch_id [simp]:
  "pc_id p = None \<Longrightarrow> c_id (applyCharacterPatch p c) = c_id c"
  by (simp add: applyCharacterPatch_def)

lemma map_patch_ids:
  "pc_id p = None \<Longrightarrow>
   map (c_id \<circ> (\<lambda>char. if c_id char \<noteq> cid then char else applyCharacterPatch p char)) cs
     = map c_id cs"
  by (induction cs) auto

lemma updateCharacter_absent:
  assumes "cid \<notin> c_id ` set (characters s)"
  shows "characters (updateCharacter cid p s) = characters s"
    and "groupChats (updateCharacter cid p s) = groupChats s"
proof -
  show "characters (updateCharacter cid p s) = characters s"
    using assms by (auto simp: updateCharacter_def intro!: map_idI)
  show "groupChats (updateCharacter cid p s) = groupChats s"
    using assms by (simp add: updateCharacter_def foldl_other_ids)
qed

lemma members_map:
  "x \<in> members (map f cs) g \<longleftrightarrow> (\<exists>c \<in> set cs. c_id (f c) = x \<and> c_groupChatId (f c) = g)"
  by (auto simp: members_iff)

lemma members_patch:
  assumes d: "distinct (map c_id cs)" and c: "c \<in> set cs" and p: "pc_id p = None"
  shows "members (map (\<lambda>char. if c_id char \<noteq> c_id c then char else applyCharacterPatch p char) cs) g
         = (members cs g - {c_id c})
           \<union> (if c_groupChatId (applyCharacterPatch p c) = g then {c_id c} else {})"
proof -
  define upd where "upd = (\<lambda>char. if c_id char \<noteq> c_id c then char else applyCharacterPatch p char)"
  have u: "\<And>y. y \<in> set cs \<Longrightarrow> c_id y = c_id c \<Longrightarrow> y = c"
    using distinct_ids_unique[OF d _ c] by blast
  have idu: "c_id (upd y) = c_id y" for y using p by (simp add: upd_def)
  have updc: "upd c = applyCharacterPatch p c" by (simp add: upd_def)
  have updo: "c_id y \<noteq> c_id c \<Longrightarrow> upd y = y" for y by (simp add: upd_def)
  have "members (map upd cs) g
         = (members cs g - {c_id c}) \<union> (if c_groupChatId (upd c) = g then {c_id c} else {})"
  proof (rule set_eqI)
    fix x
    show "x \<in> members (map upd cs) g \<longleftrightarrow>
          x \<in> (members cs g - {c_id c}) \<union> (if c_groupChatId (upd c) = g then {c_id c} else {})"
    proof (cases "x = c_id c")
      case True
      have "x \<in> members (map upd cs) g \<longleftrightarrow> c_groupChatId (upd c) = g"
      proof
        assume "x \<in> members (map upd cs) g"
        then obtain y where y: "y \<in> set cs" "c_id (upd y) = x" "c_groupChatId (upd y) = g"
          unfolding members_map by blast
        have "c_id y = c_id c" using y(2) True by (simp add: idu)
        then have "y = c" using u y(1) by blast
        then show "c_groupChatId (upd c) = g" using y(3) by simp
      next
        assume "c_groupChatId (upd c) = g"
        then have "c_id (upd c) = x \<and> c_groupChatId (upd c) = g" using True by (simp add: idu)
        then show "x \<in> members (map upd cs) g" unfolding members_map using c by blast
      qed
      then show ?thesis using True by simp
    next
      case False
      have "x \<in> members (map upd cs) g \<longleftrightarrow> x \<in> members cs g"
      proof
        assume "x \<in> members (map upd cs) g"
        then obtain y where y: "y \<in> set cs" "c_id (upd y) = x" "c_groupChatId (upd y) = g"
          unfolding members_map by blast
        have "c_id y \<noteq> c_id c" using y(2) False by (simp add: idu)
        then have "upd y = y" by (rule updo)
        then have "c_id y = x \<and> c_groupChatId y = g" using y by simp
        then show "x \<in> members cs g" unfolding members_iff using y(1) by blast
      next
        assume "x \<in> members cs g"
        then obtain y where y: "y \<in> set cs" "c_id y = x" "c_groupChatId y = g"
          unfolding members_iff by blast
        then have "upd y = y" using False updo by blast
        then have "c_id (upd y) = x \<and> c_groupChatId (upd y) = g" using y by simp
        then show "x \<in> members (map upd cs) g" unfolding members_map using y(1) by blast
      qed
      then show ?thesis using False by simp
    qed
  qed
  then show ?thesis by (simp add: upd_def)
qed

lemma reassign_effect:
  assumes "L \<in> set (reassign cid old new gcs)"
  shows "\<exists>L0 \<in> set gcs. g_id L = g_id L0
           \<and> set (g_characterIds L) =
               (if g_id L0 = new then insert cid (set (g_characterIds L0))
                else if g_id L0 = old then set (g_characterIds L0) - {cid}
                else set (g_characterIds L0))"
proof -
  obtain L0 where L0: "L0 \<in> set gcs"
    and eq: "L = (if g_id (if g_id L0 = old
                       then L0\<lparr>g_characterIds := filter (\<lambda>i. i \<noteq> cid) (g_characterIds L0)\<rparr> else L0) = new
              then (if g_id L0 = old
                       then L0\<lparr>g_characterIds := filter (\<lambda>i. i \<noteq> cid) (g_characterIds L0)\<rparr> else L0)
                   \<lparr>g_characterIds := filter (\<lambda>i. i \<noteq> cid) (g_characterIds (if g_id L0 = old
                       then L0\<lparr>g_characterIds := filter (\<lambda>i. i \<noteq> cid) (g_characterIds L0)\<rparr> else L0)) @ [cid]\<rparr>
              else (if g_id L0 = old
                       then L0\<lparr>g_characterIds := filter (\<lambda>i. i \<noteq> cid) (g_characterIds L0)\<rparr> else L0))"
    using assms unfolding reassign_def by (auto simp: image_iff)
  have "g_id L = g_id L0" unfolding eq by simp
  moreover have "set (g_characterIds L) =
               (if g_id L0 = new then insert cid (set (g_characterIds L0))
                else if g_id L0 = old then set (g_characterIds L0) - {cid}
                else set (g_characterIds L0))"
    unfolding eq by auto
  ultimately show ?thesis using L0 by blast
qed

lemma updateCharacter_consistent:
  assumes "consistent s" "pc_id p = None" "pc_groupChatId p \<noteq> Some []"
  shows "consistent (updateCharacter cid p s)"
proof (cases "find (\<lambda>c. c_id c = cid) (characters s)")
  case None
  then have "cid \<notin> c_id ` set (characters s)" by (simp add: find_None_ids)
  then show ?thesis using assms(1) updateCharacter_absent[of cid s p]
    by (simp add: consistent_def indexed_def)
next
  case (Some c)
  note D = consistentD[OF assms(1)]
  have c: "c \<in> set (characters s)" "c_id c = cid" using find_Some_member[OF Some] by auto
  have chars: "characters (updateCharacter cid p s)
      = map (\<lambda>char. if c_id char \<noteq> c_id c then char else applyCharacterPatch p char) (characters s)"
    by (simp add: updateCharacter_def c(2))
  have gcs: "groupChats (updateCharacter cid p s)
      = (case reassignment p c of None \<Rightarrow> groupChats s
         | Some n \<Rightarrow> reassign cid (c_groupChatId c) n (groupChats s))"
    by (simp add: updateCharacter_def foldl_one_id[OF D(1)] Some)
  have m: "members (characters (updateCharacter cid p s)) g
         = (members (characters s) g - {cid})
           \<union> (if c_groupChatId (applyCharacterPatch p c) = g then {cid} else {})" for g
    unfolding chars using members_patch[OF D(1) c(1) assms(2)] by (simp add: c(2))
  have cm: "cid \<in> members (characters s) g \<longleftrightarrow> c_groupChatId c = g" for g
    using c distinct_ids_unique[OF D(1) _ c(1)] unfolding members_iff by metis
  show ?thesis
  proof (cases "reassignment p c")
    case None
    then have same: "c_groupChatId (applyCharacterPatch p c) = c_groupChatId c"
      using assms(3)
      by (auto simp: reassignment_def applyCharacterPatch_def split: option.splits if_splits)
    have g: "groupChats (updateCharacter cid p s) = groupChats s" by (simp add: gcs None)
    have m': "members (characters (updateCharacter cid p s)) g = members (characters s) g" for g
      unfolding m same using cm[of g] by auto
    show ?thesis
    proof (rule consistentI)
      show "distinct (map c_id (characters (updateCharacter cid p s)))"
        using D(1) by (simp add: updateCharacter_def map_patch_ids[OF assms(2)])
    qed (simp_all add: g m' D)
  next
    case (Some n)
    then have new: "c_groupChatId (applyCharacterPatch p c) = n" "n \<noteq> c_groupChatId c"
      by (auto simp: reassignment_def applyCharacterPatch_def split: option.splits if_splits)
    have g: "groupChats (updateCharacter cid p s) = reassign cid (c_groupChatId c) n (groupChats s)"
      by (simp add: gcs Some)
    show ?thesis
    proof (rule consistentI)
      show "distinct (map c_id (characters (updateCharacter cid p s)))"
        using D(1) by (simp add: updateCharacter_def map_patch_ids[OF assms(2)])
    next
      fix L assume "L \<in> set (groupChats (updateCharacter cid p s))"
      then obtain L0 where "L0 \<in> set (groupChats s)" "g_id L = g_id L0"
        unfolding g using reassign_effect by blast
      then show "g_id L \<noteq> []" using D(2) by simp
    next
      fix L assume "L \<in> set (groupChats (updateCharacter cid p s))"
      then obtain L0 where L0: "L0 \<in> set (groupChats s)" "g_id L = g_id L0"
        "set (g_characterIds L) =
               (if g_id L0 = n then insert cid (set (g_characterIds L0))
                else if g_id L0 = c_groupChatId c then set (g_characterIds L0) - {cid}
                else set (g_characterIds L0))"
        unfolding g using reassign_effect by blast
      have ix: "set (g_characterIds L0) = members (characters s) (g_id L0)" using D(3) L0(1) by simp
      show "set (g_characterIds L) = members (characters (updateCharacter cid p s)) (g_id L)"
        unfolding L0(2) L0(3) m ix new(1) using cm[of "g_id L0"] new(2) by auto
    qed
  qed
qed

lemma map_update_effect:
  assumes "L \<in> set (map (\<lambda>gc. if g_id gc = k then gc\<lparr>g_characterIds := f gc\<rparr> else gc) gcs)"
  shows "\<exists>L0 \<in> set gcs. g_id L = g_id L0
           \<and> g_characterIds L = (if g_id L0 = k then f L0 else g_characterIds L0)"
  using assms by auto

lemma members_filter_forget:
  assumes d: "distinct (map c_id cs)" and c: "c \<in> set cs"
  shows "members (filter (\<lambda>x. c_id x \<noteq> c_id c) (map (\<lambda>x. x\<lparr>c_knownCharacterIds := f x\<rparr>) cs)) g
         = members cs g - {c_id c}"
  by (auto simp: members_iff)

lemma deleteCharacter_consistent:
  assumes "consistent s"
  shows "consistent (deleteCharacter cid s)"
proof (cases "find (\<lambda>c. c_id c = cid) (characters s)")
  case None
  then show ?thesis using assms by (simp add: deleteCharacter_def deleteCharacterFrom_def)
next
  case (Some c)
  note D = consistentD[OF assms(1)]
  have c: "c \<in> set (characters s)" "c_id c = cid" using find_Some_member[OF Some] by auto
  have chars: "characters (deleteCharacter cid s)
      = filter (\<lambda>x. c_id x \<noteq> c_id c)
          (map (\<lambda>x. x\<lparr>c_knownCharacterIds := filter (\<lambda>k. k \<noteq> cid) (c_knownCharacterIds x)\<rparr>)
             (characters s))"
    by (simp add: deleteCharacter_def deleteCharacterFrom_def Some c(2))
  have gcs: "groupChats (deleteCharacter cid s)
      = map (\<lambda>gc. if g_id gc = c_groupChatId c
                   then gc\<lparr>g_characterIds := filter (\<lambda>i. i \<noteq> cid) (g_characterIds gc)\<rparr>
                   else gc) (groupChats s)"
    by (simp add: deleteCharacter_def deleteCharacterFrom_def Some)
  have m: "members (characters (deleteCharacter cid s)) g = members (characters s) g - {cid}" for g
    unfolding chars using members_filter_forget[OF D(1) c(1)] by (simp add: c(2))
  have cm: "cid \<in> members (characters s) g \<longleftrightarrow> c_groupChatId c = g" for g
    using c distinct_ids_unique[OF D(1) _ c(1)] unfolding members_iff by metis
  have eff: "\<exists>L0 \<in> set (groupChats s). g_id L = g_id L0
      \<and> g_characterIds L = (if g_id L0 = c_groupChatId c
            then filter (\<lambda>i. i \<noteq> cid) (g_characterIds L0) else g_characterIds L0)"
    if "L \<in> set (groupChats (deleteCharacter cid s))" for L
    using that unfolding gcs by (rule map_update_effect)
  show ?thesis
  proof (rule consistentI)
    show "distinct (map c_id (characters (deleteCharacter cid s)))"
      unfolding chars using D(1) by (simp add: distinct_map_filter comp_def)
  next
    fix L assume "L \<in> set (groupChats (deleteCharacter cid s))"
    then obtain L0 where "L0 \<in> set (groupChats s)" "g_id L = g_id L0"
      using eff by blast
    then show "g_id L \<noteq> []" using D(2) by simp
  next
    fix L assume "L \<in> set (groupChats (deleteCharacter cid s))"
    then obtain L0 where L0': "L0 \<in> set (groupChats s)" "g_id L = g_id L0"
      "g_characterIds L = (if g_id L0 = c_groupChatId c
                           then filter (\<lambda>i. i \<noteq> cid) (g_characterIds L0) else g_characterIds L0)"
      using eff by blast
    have L0: "L0 \<in> set (groupChats s)" "g_id L = g_id L0"
      "set (g_characterIds L) = (if g_id L0 = c_groupChatId c then set (g_characterIds L0) - {cid}
                                 else set (g_characterIds L0))"
      using L0' by auto
    have ix: "set (g_characterIds L0) = members (characters s) (g_id L0)" using D(3) L0(1) by simp
    show "set (g_characterIds L) = members (characters (deleteCharacter cid s)) (g_id L)"
      unfolding L0(2) L0(3) m ix using cm[of "g_id L0"] by auto
  qed
qed

lemma createGroupChat_consistent:
  assumes "consistent s" "g_characterIds chat = []" "newId \<noteq> []"
    "newId \<notin> set (map c_groupChatId (characters s))"
  shows "consistent (createGroupChat newId chat s)"
proof -
  note D = consistentD[OF assms(1)]
  have e: "members (characters s) newId = {}"
    using assms(4) by (auto simp: members_iff)
  show ?thesis
  proof (rule consistentI)
    show "distinct (map c_id (characters (createGroupChat newId chat s)))"
      using D(1) by (simp add: createGroupChat_def)
  next
    fix L assume "L \<in> set (groupChats (createGroupChat newId chat s))"
    then show "g_id L \<noteq> []" using D(2) assms(3) by (auto simp: createGroupChat_def)
  next
    fix L assume "L \<in> set (groupChats (createGroupChat newId chat s))"
    then show "set (g_characterIds L) = members (characters (createGroupChat newId chat s)) (g_id L)"
      using D(3) assms(2) e by (auto simp: createGroupChat_def)
  qed
qed

lemma updateGroupChat_consistent:
  assumes "consistent s" "pg_id p = None"
    "case pg_characterIds p of None \<Rightarrow> True | Some ids \<Rightarrow> set ids = members (characters s) gid"
  shows "consistent (updateGroupChat gid p s)"
proof -
  note D = consistentD[OF assms(1)]
  have ch: "characters (updateGroupChat gid p s) = characters s"
    by (simp add: updateGroupChat_def)
  have eff: "\<exists>L0 \<in> set (groupChats s). g_id L = g_id L0
        \<and> set (g_characterIds L) = (if g_id L0 = gid
             then (case pg_characterIds p of None \<Rightarrow> set (g_characterIds L0) | Some ids \<Rightarrow> set ids)
             else set (g_characterIds L0))"
    if "L \<in> set (groupChats (updateGroupChat gid p s))" for L
    using that assms(2)
    by (auto simp: updateGroupChat_def applyGroupChatPatch_def split: option.splits)
  show ?thesis
  proof (rule consistentI)
    show "distinct (map c_id (characters (updateGroupChat gid p s)))"
      using D(1) by (simp add: ch)
  next
    fix L assume "L \<in> set (groupChats (updateGroupChat gid p s))"
    then show "g_id L \<noteq> []" using eff D(2) by metis
  next
    fix L assume "L \<in> set (groupChats (updateGroupChat gid p s))"
    then obtain L0 where L0: "L0 \<in> set (groupChats s)" "g_id L = g_id L0"
      "set (g_characterIds L) = (if g_id L0 = gid
             then (case pg_characterIds p of None \<Rightarrow> set (g_characterIds L0) | Some ids \<Rightarrow> set ids)
             else set (g_characterIds L0))"
      using eff by blast
    have ix: "set (g_characterIds L0) = members (characters s) (g_id L0)" using D(3) L0(1) by simp
    show "set (g_characterIds L) = members (characters (updateGroupChat gid p s)) (g_id L)"
      unfolding ch L0(2) L0(3) ix using assms(3) by (auto split: option.splits)
  qed
qed

lemma map_unassign_ids:
  "map c_id (map (\<lambda>char. if c_id char = charId then char\<lparr>c_groupChatId := []\<rparr> else char) cs)
     = map c_id cs"
  by (induction cs) auto

lemma removeCharacterFromChat_consistent:
  assumes "consistent s"
    "\<forall>c \<in> set (characters s). c_id c = charId \<longrightarrow> c_groupChatId c = chatId \<or> c_groupChatId c = []"
  shows "consistent (removeCharacterFromChat chatId charId s)"
proof -
  note D = consistentD[OF assms(1)]
  have chars: "characters (removeCharacterFromChat chatId charId s)
      = map (\<lambda>char. if c_id char = charId then char\<lparr>c_groupChatId := []\<rparr> else char) (characters s)"
    by (simp add: removeCharacterFromChat_def)
  have gcs: "groupChats (removeCharacterFromChat chatId charId s)
      = map (\<lambda>gc. if g_id gc = chatId
                   then gc\<lparr>g_characterIds := filter (\<lambda>i. i \<noteq> charId) (g_characterIds gc)\<rparr>
                   else gc) (groupChats s)"
    by (simp add: removeCharacterFromChat_def)
  have m: "members (characters (removeCharacterFromChat chatId charId s)) g
             = members (characters s) g - {charId}" if "g \<noteq> []" for g
  proof -
    define upd :: "character \<Rightarrow> character" where "upd = (\<lambda>char. if c_id char = charId then char\<lparr>c_groupChatId := []\<rparr> else char)"
    have a: "c_id (upd c) = c_id c" for c by (simp add: upd_def)
    have b: "c_groupChatId (upd c) = g \<longleftrightarrow> c_id c \<noteq> charId \<and> c_groupChatId c = g" for c
      using that by (auto simp: upd_def)
    have "members (map upd (characters s)) g = members (characters s) g - {charId}"
    proof (rule set_eqI)
      fix x
      show "x \<in> members (map upd (characters s)) g \<longleftrightarrow> x \<in> members (characters s) g - {charId}"
        unfolding members_map a b by (auto simp: members_iff)
    qed
    then show ?thesis unfolding chars upd_def .
  qed
  have other: "charId \<notin> members (characters s) g" if "g \<noteq> []" "g \<noteq> chatId" for g
    using that assms(2) by (auto simp: members_iff)
  have eff: "\<exists>L0 \<in> set (groupChats s). g_id L = g_id L0
      \<and> g_characterIds L = (if g_id L0 = chatId
            then filter (\<lambda>i. i \<noteq> charId) (g_characterIds L0) else g_characterIds L0)"
    if "L \<in> set (groupChats (removeCharacterFromChat chatId charId s))" for L
    using that unfolding gcs by (rule map_update_effect)
  show ?thesis
  proof (rule consistentI)
    have "map c_id (characters (removeCharacterFromChat chatId charId s)) = map c_id (characters s)"
      unfolding chars by (rule map_unassign_ids)
    then show "distinct (map c_id (characters (removeCharacterFromChat chatId charId s)))"
      using D(1) by simp
  next
    fix L assume "L \<in> set (groupChats (removeCharacterFromChat chatId charId s))"
    then obtain L0 where "L0 \<in> set (groupChats s)" "g_id L = g_id L0"
      using eff by blast
    then show "g_id L \<noteq> []" using D(2) by simp
  next
    fix L assume "L \<in> set (groupChats (removeCharacterFromChat chatId charId s))"
    then obtain L0 where L0': "L0 \<in> set (groupChats s)" "g_id L = g_id L0"
      "g_characterIds L = (if g_id L0 = chatId
                           then filter (\<lambda>i. i \<noteq> charId) (g_characterIds L0) else g_characterIds L0)"
      using eff by blast
    have L0: "L0 \<in> set (groupChats s)" "g_id L = g_id L0"
      "set (g_characterIds L) = (if g_id L0 = chatId then set (g_characterIds L0) - {charId}
                                 else set (g_characterIds L0))"
      using L0' by auto
    have ix: "set (g_characterIds L0) = members (characters s) (g_id L0)" using D(3) L0(1) by simp
    have ne: "g_id L0 \<noteq> []" using D(2) L0(1) by simp
    show "set (g_characterIds L) = members (characters (removeCharacterFromChat chatId charId s)) (g_id L)"
      unfolding L0(2) L0(3) ix m[OF ne] using other[OF ne] by auto
  qed
qed

lemma map_forget_ids: "map c_id (map (forget D) cs) = map c_id cs"
  by (induction cs) simp_all

lemma members_forget: "members (map (forget D) cs) g = members cs g"
  by (rule set_eqI) (simp add: members_map members_iff)

lemma members_filter_other:
  "g \<noteq> gid \<Longrightarrow> members (filter (\<lambda>c. c_groupChatId c \<noteq> gid) cs) g = members cs g"
  by (rule set_eqI) (auto simp: members_iff)

lemma deleteGroupChat_consistent:
  assumes "consistent s"
  shows "consistent (deleteGroupChat gid s)"
proof -
  note D = consistentD[OF assms(1)]
  note E = deleteGroupChat_effect[OF D(1), of gid]
  have chars: "characters (deleteGroupChat gid s) =
     map (forget (set (map c_id (filter (\<lambda>c. c_groupChatId c = gid) (characters s)))))
       (filter (\<lambda>c. c_groupChatId c \<noteq> gid) (characters s))"
    using E by simp
  have gcs: "groupChats (deleteGroupChat gid s) = filter (\<lambda>gc. g_id gc \<noteq> gid) (groupChats s)"
    using E by simp
  show ?thesis
  proof (rule consistentI)
    show "distinct (map c_id (characters (deleteGroupChat gid s)))"
      unfolding chars map_forget_ids using D(1) by (rule distinct_map_filter)
  next
    fix L assume "L \<in> set (groupChats (deleteGroupChat gid s))"
    then show "g_id L \<noteq> []" using D(2) by (simp add: gcs)
  next
    fix L assume L: "L \<in> set (groupChats (deleteGroupChat gid s))"
    then have "L \<in> set (groupChats s)" "g_id L \<noteq> gid" by (simp_all add: gcs)
    then show "set (g_characterIds L) = members (characters (deleteGroupChat gid s)) (g_id L)"
      unfolding chars members_forget using D(3) by (simp add: members_filter_other)
  qed
qed

lemma processToolCall_other_staged:
  "toolName tc \<noteq> ''moveToLocation'' \<Longrightarrow>
   stagedMove ch chat gcs (processToolCall gid ch chat gcs tc acc) = stagedMove ch chat gcs acc"
  by (simp add: stagedMove_def processToolCall_other)

lemma processToolCalls_no_moves:
  "\<forall>tc \<in> set tcs. toolName tc \<noteq> ''moveToLocation'' \<Longrightarrow>
   stagedMove ch chat gcs (processToolCalls gid ch chat gcs tcs acc) = stagedMove ch chat gcs acc"
  by (induction tcs arbitrary: acc) (simp_all add: processToolCall_other_staged)

lemma find_Some_set: "find P xs = Some x \<Longrightarrow> x \<in> set xs"
  by (auto simp: find_Some_iff)

lemma moveToLocation_staged:
  assumes "pc_id (characterUpdates acc) = None" "pc_groupChatId (characterUpdates acc) = None"
    "groupChatUpdates acc = []"
  shows "stagedMove ch chat gcs (moveToLocation gid ch chat gcs inp acc)"
proof (cases "ti_locationName inp")
  case None
  then show ?thesis using assms by (simp add: moveToLocation_def stagedMove_def)
next
  case (Some destName)
  show ?thesis
  proof (cases "destName = []")
    case True
    then show ?thesis using assms Some by (simp add: moveToLocation_def stagedMove_def)
  next
    case False
    show ?thesis
    proof (cases "find (\<lambda>gc. g_name gc = destName) gcs")
      case None
      then show ?thesis using assms Some False
        by (simp add: moveToLocation_def stagedMove_def pushMessage_def)
    next
      case (Some D)
      have D: "D \<in> set gcs" using Some by (rule find_Some_set)
      show ?thesis
      proof (cases "g_id D = c_groupChatId ch")
        case True
        then show ?thesis using assms \<open>ti_locationName inp = Some destName\<close> False Some
          by (simp add: moveToLocation_def stagedMove_def pushMessage_def)
      next
        case ne: False
        have "pc_id (characterUpdates (moveToLocation gid ch chat gcs inp acc)) = None"
          "pc_groupChatId (characterUpdates (moveToLocation gid ch chat gcs inp acc)) = Some (g_id D)"
          "groupChatUpdates (moveToLocation gid ch chat gcs inp acc) =
             map_set (map_set [] (g_id chat) (leavingPatch ch chat)) (g_id D) (arrivingPatch ch D)"
          using assms \<open>ti_locationName inp = Some destName\<close> False Some ne
          by (simp_all add: moveToLocation_def pushMessage_def leavingPatch_def arrivingPatch_def)
        then show ?thesis unfolding stagedMove_def using D ne by blast
      qed
    qed
  qed
qed

lemma processToolCall_staged:
  assumes "pc_id (characterUpdates acc) = None" "pc_groupChatId (characterUpdates acc) = None"
    "groupChatUpdates acc = []"
  shows "stagedMove ch chat gcs (processToolCall gid ch chat gcs tc acc)"
proof (cases "toolName tc = ''moveToLocation''")
  case True
  show ?thesis
  proof (cases "tc_input tc")
    case None
    then show ?thesis using assms by (simp add: processToolCall_def stagedMove_def)
  next
    case (Some inp)
    then show ?thesis using True moveToLocation_staged[OF assms]
      by (simp add: processToolCall_def)
  qed
next
  case False
  have "stagedMove ch chat gcs acc" using assms by (simp add: stagedMove_def)
  then show ?thesis by (simp only: processToolCall_other_staged[OF False])
qed

lemma processToolCalls_staged:
  assumes "length (filter (\<lambda>tc. toolName tc = ''moveToLocation'') tcs) \<le> 1"
    and "pc_id (characterUpdates acc) = None" "pc_groupChatId (characterUpdates acc) = None"
    "groupChatUpdates acc = []"
  shows "stagedMove ch chat gcs (processToolCalls gid ch chat gcs tcs acc)"
  using assms
proof (induction tcs arbitrary: acc)
  case Nil
  then show ?case by (simp add: stagedMove_def)
next
  case (Cons tc tcs)
  show ?case
  proof (cases "toolName tc = ''moveToLocation''")
    case True
    then have "filter (\<lambda>tc. toolName tc = ''moveToLocation'') tcs = []"
      using Cons.prems(1) by simp
    then have none: "\<forall>tc \<in> set tcs. toolName tc \<noteq> ''moveToLocation''"
      by (simp add: filter_empty_conv)
    show ?thesis
      using processToolCall_staged[OF Cons.prems(2-4)]
      by (simp add: processToolCalls_no_moves[OF none])
  next
    case False
    have "stagedMove ch chat gcs
            (processToolCalls gid ch chat gcs tcs (processToolCall gid ch chat gcs tc acc))"
      using Cons.prems False
      by (intro Cons.IH) (simp_all add: processToolCall_other)
    then show ?thesis by simp
  qed
qed

lemma initialAcc_clean:
  "pc_id (characterUpdates initialAcc) = None" "pc_groupChatId (characterUpdates initialAcc) = None"
  "groupChatUpdates initialAcc = []"
  by (simp_all add: initialAcc_def emptyCharacterPatch_def)

lemma processCharacterTurnResult_staged:
  assumes "moveCount r \<le> 1"
  shows "\<exists>acc. stagedMove ch chat gcs acc
     \<and> tr_characterUpdates (processCharacterTurnResult gid r ch chat gcs)
          = (if hasKeys (characterUpdates acc) then Some (characterUpdates acc) else None)
     \<and> tr_groupChatUpdates (processCharacterTurnResult gid r ch chat gcs)
          = (if length (groupChatUpdates acc) > 0 then Some (groupChatUpdates acc) else None)"
proof -
  define acc1 where "acc1 = (case r_toolCalls r of None \<Rightarrow> initialAcc
      | Some tcs \<Rightarrow> processToolCalls gid ch chat gcs tcs initialAcc)"
  have st: "stagedMove ch chat gcs acc1"
  proof (cases "r_toolCalls r")
    case None
    then show ?thesis by (simp add: acc1_def stagedMove_def initialAcc_clean)
  next
    case (Some tcs)
    then have "length (filter (\<lambda>tc. toolName tc = ''moveToLocation'') tcs) \<le> 1"
      using assms by (simp add: moveCount_def)
    then show ?thesis
      using processToolCalls_staged[OF _ initialAcc_clean] by (simp add: acc1_def Some)
  qed
  have "tr_characterUpdates (processCharacterTurnResult gid r ch chat gcs)
          = (if hasKeys (characterUpdates acc1) then Some (characterUpdates acc1) else None)"
    "tr_groupChatUpdates (processCharacterTurnResult gid r ch chat gcs)
          = (if length (groupChatUpdates acc1) > 0 then Some (groupChatUpdates acc1) else None)"
    by (simp_all add: processCharacterTurnResult_def Let_def acc1_def[symmetric] pushMessage_def)
  then show ?thesis using st by blast
qed

lemma consistent_cong:
  "characters s' = characters s \<Longrightarrow> groupChats s' = groupChats s \<Longrightarrow> consistent s' = consistent s"
  by (simp add: consistent_def indexed_def)

lemma hasKeys_groupChatId_Some: "pc_groupChatId p = Some x \<Longrightarrow> hasKeys p"
  by (auto simp: hasKeys_def emptyCharacterPatch_def)

lemma updateGroupChat_characters [simp]:
  "characters (updateGroupChat gid p s) = characters s"
  by (simp add: updateGroupChat_def)

lemma updateGroupChat_ids:
  "pg_id p = None \<Longrightarrow> map g_id (groupChats (updateGroupChat k p s)) = map g_id (groupChats s)"
  by (simp add: updateGroupChat_def applyGroupChatPatch_def comp_def split: option.splits)

lemma updateGroupChat_absent:
  assumes "k \<notin> set (map g_id (groupChats s))"
  shows "updateGroupChat k p s = s"
proof -
  have "map (\<lambda>gc. if g_id gc \<noteq> k then gc else f gc) (groupChats s) = groupChats s" for f
    using assms by (intro map_idI) auto
  then show ?thesis by (simp add: updateGroupChat_def)
qed

lemma reassign_ids: "map g_id (reassign cid old new gcs) = map g_id gcs"
  by (simp add: reassign_def comp_def)

lemma updateCharacter_ids:
  "map g_id (groupChats (updateCharacter cid p s)) = map g_id (groupChats s)"
proof -
  have "map g_id (foldl (\<lambda>gcs char.
                  if c_id char \<noteq> cid then gcs
                  else (case reassignment p char of
                          None \<Rightarrow> gcs
                        | Some newChatId \<Rightarrow> reassign cid (c_groupChatId char) newChatId gcs))
           gcs cs) = map g_id gcs" for gcs cs
    by (induction cs arbitrary: gcs) (simp_all add: reassign_ids split: option.splits)
  then show ?thesis by (simp add: updateCharacter_def)
qed

text \<open>A staged member list may be applied when it is right for the location, if there is one.\<close>

lemma staged_list_consistent:
  assumes "consistent s" "pg_id p = None" "pg_characterIds p = Some l"
    and "k \<in> set (map g_id (groupChats s)) \<Longrightarrow> set l = members (characters s) k"
  shows "consistent (updateGroupChat k p s)"
proof (cases "k \<in> set (map g_id (groupChats s))")
  case True
  then show ?thesis
    using updateGroupChat_consistent [OF assms(1,2), of k] assms(3,4) by simp
next
  case False
  then show ?thesis using assms(1) by (simp add: updateGroupChat_absent)
qed

lemma members_after_move:
  assumes "consistent s" "pc_id p = None" "pc_groupChatId p = Some d"
  shows "members (characters (updateCharacter cid p s)) g
         = (if cid \<in> set (map c_id (characters s))
            then (members (characters s) g - {cid}) \<union> (if d = g then {cid} else {})
            else members (characters s) g)"
proof (cases "cid \<in> set (map c_id (characters s))")
  case False
  then have "cid \<notin> c_id ` set (characters s)" by simp
  then show ?thesis using updateCharacter_absent(1) [of cid s p] False by simp
next
  case True
  then obtain c where c: "c \<in> set (characters s)" "c_id c = cid" by auto
  have chars: "characters (updateCharacter cid p s)
      = map (\<lambda>char. if c_id char \<noteq> c_id c then char else applyCharacterPatch p char) (characters s)"
    by (simp add: updateCharacter_def c(2))
  have new: "c_groupChatId (applyCharacterPatch p c) = d"
    using assms(3) by (simp add: applyCharacterPatch_def)
  show ?thesis
    unfolding chars
    using members_patch [OF consistentD(1) [OF assms(1)] c(1) assms(2), of g] True
    by (simp add: new c(2))
qed

lemma members_without_absent:
  "cid \<notin> set (map c_id cs) \<Longrightarrow> members cs g - {cid} = members cs g"
  by (auto simp: members_iff)

lemma worldUpdates_consistent:
  assumes cs: "consistent s" and snap: "consistent snapshot"
    and chat: "chat \<in> set (groupChats snapshot)"
    and st: "stagedMove ch chat (groupChats snapshot) acc"
    and same: "\<And>L L'. L \<in> set (groupChats snapshot) \<Longrightarrow> L' \<in> set (groupChats s) \<Longrightarrow>
                 g_id L' = g_id L \<Longrightarrow> g_id L \<in> set (map fst (groupChatUpdates acc)) \<Longrightarrow>
                 sameMembersApartFrom (c_id ch) L L'"
    and alive: "\<And>d. pc_groupChatId (characterUpdates acc) = Some d \<Longrightarrow>
                 d \<in> set (map g_id (groupChats s)) \<Longrightarrow> c_id ch \<in> set (map c_id (characters s))"
  shows "consistent
     (case (if length (groupChatUpdates acc) > 0 then Some (groupChatUpdates acc) else None) of
        None \<Rightarrow> (case (if hasKeys (characterUpdates acc) then Some (characterUpdates acc) else None) of
                   None \<Rightarrow> s | Some updates \<Rightarrow> updateCharacter (c_id ch) updates s)
      | Some ups \<Rightarrow> foldl (\<lambda>st (chatId, updates). updateGroupChat chatId updates st)
          (case (if hasKeys (characterUpdates acc) then Some (characterUpdates acc) else None) of
                   None \<Rightarrow> s | Some updates \<Rightarrow> updateCharacter (c_id ch) updates s) ups)"
proof -
  note D = consistentD[OF cs]
  note S = consistentD[OF snap]
  let ?p = "characterUpdates acc"
  let ?cid = "c_id ch"
  have pid: "pc_id ?p = None" using st by (simp add: stagedMove_def)
  have "(pc_groupChatId ?p = None \<and> groupChatUpdates acc = [])
        \<or> (\<exists>Dst \<in> set (groupChats snapshot). g_id Dst \<noteq> c_groupChatId ch
              \<and> pc_groupChatId ?p = Some (g_id Dst)
              \<and> groupChatUpdates acc =
                  map_set (map_set [] (g_id chat) (leavingPatch ch chat)) (g_id Dst)
                    (arrivingPatch ch Dst))"
    using st unfolding stagedMove_def by (rule conjunct2)
  then show ?thesis
  proof (elim disjE conjE bexE)
    assume clean: "pc_groupChatId ?p = None" "groupChatUpdates acc = []"
    have "consistent (updateCharacter ?cid ?p s)"
      using updateCharacter_consistent[OF cs pid] clean(1) by simp
    then show ?thesis using cs clean by simp
  next
    fix Dst
    assume moved: "Dst \<in> set (groupChats snapshot)" "g_id Dst \<noteq> c_groupChatId ch"
      "pc_groupChatId ?p = Some (g_id Dst)"
      "groupChatUpdates acc = map_set (map_set [] (g_id chat) (leavingPatch ch chat)) (g_id Dst)
                    (arrivingPatch ch Dst)"
    have ne: "g_id Dst \<noteq> []" using S(2) moved(1) by simp
    have hk: "hasKeys ?p" using moved(3) by (rule hasKeys_groupChatId_Some)
    let ?s4 = "updateCharacter ?cid ?p s"
    have c4: "consistent ?s4"
      using updateCharacter_consistent[OF cs pid] moved(3) ne by simp
    have ids4: "map g_id (groupChats ?s4) = map g_id (groupChats s)"
      by (rule updateCharacter_ids)
    have m4: "members (characters ?s4) g
         = (if ?cid \<in> set (map c_id (characters s))
            then (members (characters s) g - {?cid}) \<union> (if g_id Dst = g then {?cid} else {})
            else members (characters s) g)" for g
      by (rule members_after_move [OF cs pid moved(3)])
    have keyD: "g_id Dst \<in> set (map fst (groupChatUpdates acc))"
      using moved(4) by (cases "g_id chat = g_id Dst") simp_all
    have keyC: "g_id chat \<in> set (map fst (groupChatUpdates acc))" if "g_id chat \<noteq> g_id Dst"
      using moved(4) that by simp
    have arr: "set (filter (\<lambda>i. i \<noteq> ?cid) (g_characterIds Dst) @ [?cid])
                 = members (characters ?s4) (g_id Dst)"
      if ex: "g_id Dst \<in> set (map g_id (groupChats s))"
    proof -
      obtain L' where L': "L' \<in> set (groupChats s)" "g_id L' = g_id Dst" using ex by auto
      have here: "?cid \<in> set (map c_id (characters s))" using alive [OF moved(3) ex] .
      have "set (g_characterIds L') - {?cid} = set (g_characterIds Dst) - {?cid}"
        using same [OF moved(1) L' keyD] by (simp add: sameMembersApartFrom_def)
      moreover have "set (g_characterIds L') = members (characters s) (g_id Dst)"
        using D(3) [OF L'(1)] L'(2) by simp
      ultimately show ?thesis using here by (auto simp: m4)
    qed
    have lea: "set (filter (\<lambda>i. i \<noteq> ?cid) (g_characterIds chat))
                 = members (characters ?s4) (g_id chat)"
      if ex: "g_id chat \<in> set (map g_id (groupChats s))" and other: "g_id chat \<noteq> g_id Dst"
    proof -
      obtain L' where L': "L' \<in> set (groupChats s)" "g_id L' = g_id chat" using ex by auto
      have "set (g_characterIds L') - {?cid} = set (g_characterIds chat) - {?cid}"
        using same [OF chat L' keyC [OF other]] by (simp add: sameMembersApartFrom_def)
      moreover have "set (g_characterIds L') = members (characters s) (g_id chat)"
        using D(3) [OF L'(1)] L'(2) by simp
      moreover have "members (characters ?s4) (g_id chat) = members (characters s) (g_id chat) - {?cid}"
        using other members_without_absent [of ?cid "characters s" "g_id chat"]
        by (auto simp: m4)
      ultimately show ?thesis by auto
    qed
    have pa: "pg_id (arrivingPatch ch Dst) = None"
      "pg_characterIds (arrivingPatch ch Dst)
         = Some (filter (\<lambda>i. i \<noteq> ?cid) (g_characterIds Dst) @ [?cid])"
      by (simp_all add: arrivingPatch_def emptyGroupChatPatch_def)
    have pl: "pg_id (leavingPatch ch chat) = None"
      "pg_characterIds (leavingPatch ch chat) = Some (filter (\<lambda>i. i \<noteq> ?cid) (g_characterIds chat))"
      by (simp_all add: leavingPatch_def emptyGroupChatPatch_def)
    show ?thesis
    proof (cases "g_id chat = g_id Dst")
      case True
      have ups: "groupChatUpdates acc = [(g_id Dst, arrivingPatch ch Dst)]"
        using moved(4) True by simp
      have "consistent (updateGroupChat (g_id Dst) (arrivingPatch ch Dst) ?s4)"
        by (rule staged_list_consistent [OF c4 pa]) (simp only: ids4 arr)
      then show ?thesis by (simp add: ups hk)
    next
      case False
      have ups: "groupChatUpdates acc
          = [(g_id chat, leavingPatch ch chat), (g_id Dst, arrivingPatch ch Dst)]"
        using moved(4) False by simp
      let ?s5 = "updateGroupChat (g_id chat) (leavingPatch ch chat) ?s4"
      have c5: "consistent ?s5"
        by (rule staged_list_consistent [OF c4 pl]) (simp only: ids4 lea [OF _ False])
      have ids5: "map g_id (groupChats ?s5) = map g_id (groupChats s)"
        using updateGroupChat_ids [OF pl(1), of "g_id chat" ?s4] ids4 by simp
      have "consistent (updateGroupChat (g_id Dst) (arrivingPatch ch Dst) ?s5)"
        by (rule staged_list_consistent [OF c5 pa])
           (simp only: ids5 arr updateGroupChat_characters)
      then show ?thesis by (simp add: ups hk)
    qed
  qed
qed

lemma find_id_Some: "find (\<lambda>c. c_id c = cid) cs = Some c \<Longrightarrow> c \<in> set cs \<and> c_id c = cid"
  by (auto simp: find_Some_iff)

lemma applyTurn_consistent:
  assumes cs: "consistent s" and snap: "consistent snapshot" and one: "moveCount r \<le> 1"
    and same: "unchangedSince snapshot chatId charId r ids s"
  shows "consistent (applyTurn snapshot chatId charId r ids s)"
proof (cases "find (\<lambda>gc. g_id gc = chatId) (groupChats snapshot)")
  case None
  then show ?thesis using cs by (simp add: applyTurn_def)
next
  case chat: (Some chat)
  show ?thesis
  proof (cases "find (\<lambda>c. c_id c = charId) (characters snapshot)")
    case None
    then show ?thesis using cs chat by (simp add: applyTurn_def)
  next
    case (Some ch)
    have mem: "chat \<in> set (groupChats snapshot)" using chat by (auto dest: find_Some_set)
    have cid: "c_id ch = charId" using find_id_Some [OF Some] by simp
    let ?staged = "processCharacterTurnResult ids r ch chat (groupChats snapshot)"
    let ?res = "?staged\<lparr>tr_usage := extractUsage r\<rparr>"
    obtain acc where acc: "stagedMove ch chat (groupChats snapshot) acc"
      "tr_characterUpdates ?staged
          = (if hasKeys (characterUpdates acc) then Some (characterUpdates acc) else None)"
      "tr_groupChatUpdates ?staged
          = (if length (groupChatUpdates acc) > 0 then Some (groupChatUpdates acc) else None)"
      using processCharacterTurnResult_staged[OF one, of ch chat "groupChats snapshot" ids] by auto
    have staged: "stagedIn snapshot chatId charId r ids = Some ?staged"
      by (simp add: stagedIn_def chat Some)
    have keys: "stagedLocations ?staged = map fst (groupChatUpdates acc)"
      by (simp add: stagedLocations_def acc(3))
    have dest: "stagedGroupChatId ?staged = pc_groupChatId (characterUpdates acc)"
      using hasKeys_groupChatId_Some [of "characterUpdates acc"]
      by (cases "pc_groupChatId (characterUpdates acc)") (auto simp: stagedGroupChatId_def acc(2))
    have u: "(\<forall>L \<in> set (groupChats snapshot). \<forall>L' \<in> set (groupChats s).
             g_id L' = g_id L \<and> g_id L \<in> set (map fst (groupChatUpdates acc)) \<longrightarrow>
             sameMembersApartFrom charId L L')
          \<and> (case pc_groupChatId (characterUpdates acc) of
                None \<Rightarrow> True
              | Some d \<Rightarrow> d \<in> set (map g_id (groupChats s)) \<longrightarrow>
                          charId \<in> set (map c_id (characters s)))"
      using same unfolding unchangedSince_def staged keys dest option.case .
    have same': "sameMembersApartFrom (c_id ch) L L'"
      if "L \<in> set (groupChats snapshot)" "L' \<in> set (groupChats s)" "g_id L' = g_id L"
        "g_id L \<in> set (map fst (groupChatUpdates acc))" for L L'
      using u [THEN conjunct1] that unfolding cid by blast
    have alive: "c_id ch \<in> set (map c_id (characters s))"
      if d: "pc_groupChatId (characterUpdates acc) = Some d" "d \<in> set (map g_id (groupChats s))"
      for d
      using u [THEN conjunct2] d(2) unfolding cid d(1) option.case by blast
    define s3 where "s3 = appendMessages (g_id chat) (tr_messages ?res)
      (removeLoading (g_id chat) ch
        (case tr_usage ?res of None \<Rightarrow> s
         | Some u \<Rightarrow> s\<lparr>tokenUsageOf := (tokenUsageOf s)(g_id chat \<mapsto>
                     usageOf (tokenUsageOf s) (g_id chat) + inputTokens u)\<rparr>))"
    have w3: "characters s3 = characters s" "groupChats s3 = groupChats s"
      by (simp_all add: s3_def appendMessages_def removeLoading_def split: option.splits)
    have c3: "consistent s3" using cs consistent_cong[OF w3] by simp
    have r: "tr_characterUpdates ?res = tr_characterUpdates ?staged"
      "tr_groupChatUpdates ?res = tr_groupChatUpdates ?staged"
      by simp_all
    have W: "consistent
     (case tr_groupChatUpdates ?res of
        None \<Rightarrow> (case tr_characterUpdates ?res of
                   None \<Rightarrow> s3 | Some updates \<Rightarrow> updateCharacter (c_id ch) updates s3)
      | Some ups \<Rightarrow> foldl (\<lambda>st (chatId, updates). updateGroupChat chatId updates st)
          (case tr_characterUpdates ?res of
                   None \<Rightarrow> s3 | Some updates \<Rightarrow> updateCharacter (c_id ch) updates s3) ups)"
      unfolding r acc(2,3)
    proof (rule worldUpdates_consistent [OF c3 snap mem acc(1)])
      show "sameMembersApartFrom (c_id ch) L L'"
        if "L \<in> set (groupChats snapshot)" "L' \<in> set (groupChats s3)" "g_id L' = g_id L"
          "g_id L \<in> set (map fst (groupChatUpdates acc))" for L L'
        using same' that by (simp add: w3)
      show "c_id ch \<in> set (map c_id (characters s3))"
        if "pc_groupChatId (characterUpdates acc) = Some d" "d \<in> set (map g_id (groupChats s3))" for d
        using alive that by (simp add: w3)
    qed
    have "applyTurn snapshot chatId charId r ids s = applyTurnResult chat ch ?res s"
      by (simp add: applyTurn_def chat Some)
    also have "consistent (applyTurnResult chat ch ?res s)"
      unfolding applyTurnResult_def Let_def s3_def[symmetric]
      using W by (auto split: option.splits intro: consistent_cong[THEN iffD2])
    finally show ?thesis .
  qed
qed

lemma snapshotAt_mem: "snapshotAt s earlier age \<in> set (s # earlier)"
  unfolding snapshotAt_def by (rule nth_mem) simp

lemma mutate_consistent:
  assumes "consistent s" "\<forall>x \<in> set earlier. consistent x" "admissible earlier s m"
  shows "consistent (mutate m earlier s)"
proof (cases m)
  case (UpdateGroupChat gid p)
  then show ?thesis using assms by (simp add: updateGroupChat_consistent)
next
  case (ApplyTurn age chatId charId r ids)
  have "consistent (snapshotAt s earlier age)"
    using snapshotAt_mem [of s earlier age] assms(1,2) by auto
  then show ?thesis using assms ApplyTurn by (simp add: applyTurn_consistent)
qed (use assms in \<open>simp_all add: createCharacter_consistent updateCharacter_consistent
      deleteCharacter_consistent createGroupChat_consistent deleteGroupChat_consistent
      removeCharacterFromChat_consistent\<close>)

lemma mutateAll_consistent:
  "consistent s \<Longrightarrow> \<forall>x \<in> set earlier. consistent x \<Longrightarrow> admissibleAll earlier s ms \<Longrightarrow>
   consistent (mutateAll ms earlier s)"
proof (induction ms arbitrary: s earlier)
  case Nil
  then show ?case by simp
next
  case (Cons m ms)
  have 1: "consistent (mutate m earlier s)"
    using mutate_consistent [OF Cons.prems(1,2)] Cons.prems(3) by simp
  have 2: "\<forall>x \<in> set (s # earlier). consistent x" using Cons.prems(1,2) by simp
  show ?case using Cons.IH [OF 1 2] Cons.prems(3) by simp
qed

text \<open>
  C1, as the code has it. Start from a consistent world: distinct character ids, no
  location with the empty id, and every location's \<open>characterIds\<close> equal, as a set, to the
  ids of the characters whose \<open>groupChatId\<close> is the location's id. After every sequence of
  admissible mutations (create, update and delete a character; create, update and delete a
  location; remove a character from a location; apply what a turn has staged, in the world
  of the moment or in an earlier world of the sequence) the world is consistent again, so
  that both inclusions of the index hold for every location. A mutation is admissible when
  the id of a created character is one that no character has; a character patch sets
  neither the id nor an empty \<open>groupChatId\<close>; a location is created without members, with
  an id that is not empty and that no character's \<open>groupChatId\<close> names; a location patch
  does not set the id, and its \<open>characterIds\<close>, if any, are the characters assigned to the
  location; a character is removed from the location it is assigned to, or is unassigned;
  a turn makes at most one relocation call; and when what a turn has staged is applied,
  each location it has staged a member list for has, apart from the acting character, the
  members it had in the world the turn was staged in, and the acting character still exists
  if the destination does.
\<close>

theorem index_kept_by_admissible_mutations:
  assumes "consistent s" "admissibleAll [] s ms"
  shows "consistent (mutateAll ms [] s)
    \<and> (\<forall>L \<in> set (groupChats (mutateAll ms [] s)).
          set (g_characterIds L) = members (characters (mutateAll ms [] s)) (g_id L))"
  using mutateAll_consistent [OF assms(1) _ assms(2)] by (simp add: consistent_def indexed_def)

lemma exState_consistent: "consistent exState"
  by (simp add: consistent_def indexed_def members_def exState_def ann_def bob_def tavern_def
      forest_def)

lemma exState3_consistent: "consistent exState3"
  by (simp add: consistent_def indexed_def members_def exState3_def exState_def ann_def bob_def
      tavern_def forest_def cave_def)

lemma exMutations_admissible: "admissibleAll [] exState exMutations"
  by code_simp

theorem index_kept_by_admissible_mutations_witness:
  "consistent exState \<and> admissibleAll [] exState exMutations
   \<and> indexed (mutateAll exMutations [] exState)
   \<and> map g_id (groupChats (mutateAll exMutations [] exState)) = [''g1'', ''g2'']
   \<and> map g_characterIds (groupChats (mutateAll exMutations [] exState)) = [[], [''c1'']]
   \<and> map c_id (characters (mutateAll exMutations [] exState)) = [''c1'', ''c3'']
   \<and> map c_groupChatId (characters (mutateAll exMutations [] exState)) = [''g2'', []]"
proof -
  have "map g_id (groupChats (mutateAll exMutations [] exState)) = [''g1'', ''g2'']
   \<and> map g_characterIds (groupChats (mutateAll exMutations [] exState)) = [[], [''c1'']]
   \<and> map c_id (characters (mutateAll exMutations [] exState)) = [''c1'', ''c3'']
   \<and> map c_groupChatId (characters (mutateAll exMutations [] exState)) = [''g2'', []]"
    by code_simp
  then show ?thesis
    using index_kept_by_admissible_mutations [OF exState_consistent exMutations_admissible]
      exState_consistent exMutations_admissible
    by (simp add: indexed_def)
qed

text \<open>
  The claim as stated fails for mutations that are not admissible: a location patch that
  sets \<open>characterIds\<close>, a character patch that sets the empty \<open>groupChatId\<close> (the guard of
  \<^verbatim>\<open>updateCharacter\<close> skips the location update for a falsy id), the removal of a character
  from a location it is not in, a turn with two relocation calls (every destination keeps
  its staged patch, the character ends in the last one), and a turn with one relocation
  call that is applied after a character has been created in the location it leaves (the
  staged member list of that location, made before, does not have the new character).
\<close>

theorem index_counterexample:
  "consistent exState \<and> consistent exState3
   \<and> \<not> indexed (updateGroupChat ''g1'' (emptyGroupChatPatch\<lparr>pg_characterIds := Some []\<rparr>) exState)
   \<and> \<not> indexed (updateCharacter ''c1'' (emptyCharacterPatch\<lparr>pc_groupChatId := Some []\<rparr>) exState)
   \<and> \<not> indexed (removeCharacterFromChat ''g2'' ''c1'' exState)
   \<and> \<not> indexed (applyTurn exState3 ''g1'' ''c1'' twoMoves exIds exState3)
   \<and> \<not> indexed (mutateAll staleMutations [] exState)
   \<and> map g_characterIds (groupChats (mutateAll staleMutations [] exState)) = [[], [''c2'', ''c1'']]
   \<and> map c_groupChatId (characters (mutateAll staleMutations [] exState)) = [''g2'', ''g2'', ''g1'']"
proof -
  have 1: "\<not> indexed (updateGroupChat ''g1'' (emptyGroupChatPatch\<lparr>pg_characterIds := Some []\<rparr>) exState)"
    by code_simp
  have 2: "\<not> indexed (updateCharacter ''c1'' (emptyCharacterPatch\<lparr>pc_groupChatId := Some []\<rparr>) exState)"
    by code_simp
  have 3: "\<not> indexed (removeCharacterFromChat ''g2'' ''c1'' exState)"
    by code_simp
  have 4: "\<not> indexed (applyTurn exState3 ''g1'' ''c1'' twoMoves exIds exState3)"
    by code_simp
  have 5: "\<not> indexed (mutateAll staleMutations [] exState)"
    by code_simp
  have 6: "map g_characterIds (groupChats (mutateAll staleMutations [] exState)) = [[], [''c2'', ''c1'']]
   \<and> map c_groupChatId (characters (mutateAll staleMutations [] exState)) = [''g2'', ''g2'', ''g1'']"
    by code_simp
  show ?thesis using exState_consistent exState3_consistent 1 2 3 4 5 6 by simp
qed

section \<open>The export and import round trip\<close>









































end
